(* ===== verification/Prelude.thy ===== *)
theory Prelude
  imports Main "HOL-Library.Word" "HOL-Library.Char_ord" "HOL-Library.List_Lexorder"
begin

text \<open>
  What every theory shares: the names of the model's types, bytes, and ordered maps, with the
  generic lemmas about them and the collections of facts the component proofs use.

  Strings are HOL strings, one \<open>char\<close> for each byte of a \<open>std::string\<close>. A point of
  \<open>std::chrono::steady_clock\<close> or \<open>system_clock\<close> is an integer number of
  nanoseconds. An \<open>std::unordered_map\<close> is a map, an \<open>std::unordered_set\<close> a
  set; where a loop over such a container depends on its order, the order is an argument.
\<close>

unbundle bit_operations_syntax

named_theorems wire_safe \<open>strings that hold no field separator\<close>
named_theorems cpp_simps \<open>unfolding of the model of the C++ library\<close>


section \<open>Types\<close>

type_synonym time = int
type_synonym node_id = string
type_synonym pem = string
type_synonym uint64 = "64 word"


section \<open>Bytes\<close>

definition byte :: "char \<Rightarrow> 32 word" where
  "byte c = of_nat (of_char c)"

text \<open>\<open>char\<close> is signed on the platforms the project builds for.\<close>

definition signed_char :: "char \<Rightarrow> int" where
  "signed_char c = (if of_char c < (128::int) then of_char c else of_char c - 256)"

lemma of_char_less [simp]: "(of_char c :: nat) < 256"
  by (rule nat_of_char_less_256)

lemma of_char_int_bounds: "(of_char c :: int) < 256" "0 \<le> (of_char c :: int)"
  by (metis of_char_less of_nat_less_numeral_iff of_nat_of_char, metis of_nat_0_le_iff of_nat_of_char)

lemma unat_byte [simp]: "unat (byte c) = of_char c"
  by (simp add: byte_def unsigned_of_nat take_bit_nat_eq_self_iff order_less_le_trans [OF of_char_less])

lemma take_bit_byte [simp]: "8 \<le> n \<Longrightarrow> take_bit n (byte c) = byte c"
  using order_less_le_trans [OF of_char_less, of "2 ^ n" c] power_increasing [of 8 n "2::nat"]
  by (simp add: word_unat_eq_iff unsigned_take_bit_eq take_bit_nat_eq_self_iff)

lemma and_mask_take_bit:
  "x AND 3 = take_bit 2 x" "x AND 15 = take_bit 4 x"
  "x AND 63 = take_bit 6 x" "x AND 255 = take_bit 8 (x :: 32 word)"
  by (simp_all add: take_bit_eq_mask mask_numeral)

lemma signed_char_range: "-128 \<le> signed_char c \<and> signed_char c \<le> 127"
  using of_char_int_bounds [of c] by (simp add: signed_char_def)


section \<open>Ordered maps: \<open>std::map\<close>\<close>

text \<open>
  A \<open>std::map\<close> is iterated in the order of its keys. It is the list of its entries in that
  order; \<open>std::string\<close> keys compare byte by byte, which is the lexicographic order of
  the library on \<open>char\<close> lists.
\<close>

type_synonym ('k, 'v) omap = "('k \<times> 'v) list"

abbreviation omap_lookup :: "('k, 'v) omap \<Rightarrow> 'k \<Rightarrow> 'v option" where
  "omap_lookup \<equiv> map_of"

fun omap_insert :: "'k::linorder \<Rightarrow> 'v \<Rightarrow> ('k, 'v) omap \<Rightarrow> ('k, 'v) omap" where
  "omap_insert k v [] = [(k, v)]"
| "omap_insert k v ((k', v') # m) =
     (if k < k' then (k, v) # (k', v') # m
      else if k = k' then (k, v) # m
      else (k', v') # omap_insert k v m)"

definition omap_erase :: "'k \<Rightarrow> ('k, 'v) omap \<Rightarrow> ('k, 'v) omap" where
  "omap_erase k m = filter (\<lambda>e. fst e \<noteq> k) m"

definition omap_inv :: "('k::linorder, 'v) omap \<Rightarrow> bool" where
  "omap_inv m \<longleftrightarrow> sorted_wrt (<) (map fst m)"

lemma omap_inv_Nil [simp, intro]: "omap_inv []"
  by (simp add: omap_inv_def)

lemma set_omap_insert: "fst ` set (omap_insert k v m) = insert k (fst ` set m)"
  by (induction k v m rule: omap_insert.induct) auto

lemma omap_inv_insert [simp, intro]: "omap_inv m \<Longrightarrow> omap_inv (omap_insert k v m)"
  unfolding omap_inv_def
proof (induction k v m rule: omap_insert.induct)
  case (2 k v k' v' m)
  then show ?case
    using set_omap_insert [of k v m] by auto
qed auto

lemma omap_lookup_insert [simp]:
  "omap_inv m \<Longrightarrow> omap_lookup (omap_insert k v m) = (omap_lookup m)(k \<mapsto> v)"
proof (induction k v m rule: omap_insert.induct)
  case (2 k v k' v' m)
  then show ?case
    by (auto simp: omap_inv_def fun_eq_iff)
qed (auto simp: fun_eq_iff)

lemma omap_inv_filter [simp, intro]: "omap_inv m \<Longrightarrow> omap_inv (filter P m)"
  by (induction m) (auto simp: omap_inv_def)

lemma omap_inv_drop [simp, intro]: "omap_inv m \<Longrightarrow> omap_inv (drop n m)"
  by (auto simp: omap_inv_def drop_map intro: sorted_wrt_drop simp flip: drop_map)

lemma omap_lookup_filter_key:
  "omap_lookup (filter (\<lambda>e. P (fst e)) m) k = (if P k then omap_lookup m k else None)"
  by (induction m) auto

lemma omap_lookup_erase [simp]: "omap_lookup (omap_erase k m) = (omap_lookup m)(k := None)"
  using omap_lookup_filter_key [of "\<lambda>x. x \<noteq> k" m] by (auto simp: omap_erase_def)

lemma omap_inv_erase [simp, intro]: "omap_inv m \<Longrightarrow> omap_inv (omap_erase k m)"
  by (simp add: omap_erase_def omap_inv_filter)

lemma length_omap_insert: "length (omap_insert k v m) \<le> Suc (length m)"
  by (induction k v m rule: omap_insert.induct) auto


section \<open>Separated fields\<close>

lemma field_left:
  "x @ d # y = x' @ d # y' \<Longrightarrow> d \<notin> set x \<Longrightarrow> d \<notin> set x' \<Longrightarrow> x = x' \<and> y = y'"
  by (induction x arbitrary: x') (auto simp: Cons_eq_append_conv append_eq_Cons_conv)

lemma field_left_sep:
  "x @ [d] @ y = x' @ [d] @ y' \<Longrightarrow> d \<notin> set x \<Longrightarrow> d \<notin> set x' \<Longrightarrow> x = x' \<and> y = y'"
  using field_left [of x d y x' y'] by simp

lemma field_right:
  assumes "x @ d # y = x' @ d # y'" "d \<notin> set y" "d \<notin> set y'"
  shows "x = x' \<and> y = y'"
proof -
  have "rev y @ d # rev x = rev y' @ d # rev x'"
    using arg_cong [OF assms(1), of rev] by simp
  with assms(2,3) show ?thesis by (auto dest!: field_left)
qed

end
