(* ===== verification/Cpp.thy ===== *)
theory Cpp
  imports Prelude "HOL-Library.Log_Nat"
begin

text \<open>
  The parts of the C++ language and its standard library the sources use: decimal and hexadecimal
  printing, \<open>std::getline\<close> with a delimiter, \<open>strtol\<close>, the conversions between
  integer types, \<open>duration_cast\<close>, \<open>std::string::find\<close>, and binary64 arithmetic.
\<close>

section \<open>Decimal numbers: \<open>std::to_string\<close>\<close>

definition digit_char :: "nat \<Rightarrow> char" where
  "digit_char d = char_of (48 + d)"

definition is_digit :: "char \<Rightarrow> bool" where
  "is_digit c \<longleftrightarrow> 48 \<le> (of_char c :: nat) \<and> (of_char c :: nat) \<le> 57"

definition digit_val :: "char \<Rightarrow> nat" where
  "digit_val c = of_char c - 48"

fun nat_str :: "nat \<Rightarrow> string" where
  "nat_str n = (if n < 10 then [digit_char n] else nat_str (n div 10) @ [digit_char (n mod 10)])"

declare nat_str.simps [simp del]

definition int_str :: "int \<Rightarrow> string" where
  "int_str i = (if i < 0 then CHR ''-'' # nat_str (nat (- i)) else nat_str (nat i))"

definition u64_str :: "uint64 \<Rightarrow> string" where
  "u64_str w = nat_str (unat w)"

primrec digits_val :: "nat \<Rightarrow> string \<Rightarrow> nat" where
  "digits_val acc [] = acc"
| "digits_val acc (c # cs) = digits_val (acc * 10 + digit_val c) cs"

lemma of_char_digit [simp]: "d < 10 \<Longrightarrow> of_char (digit_char d) = 48 + d"
  by (simp add: digit_char_def)

lemma is_digit_digit_char [simp]: "d < 10 \<Longrightarrow> is_digit (digit_char d)"
  by (simp add: is_digit_def)

lemma digit_val_digit_char [simp]: "d < 10 \<Longrightarrow> digit_val (digit_char d) = d"
  by (simp add: digit_val_def)

lemma digits_val_append [simp]: "digits_val a (xs @ ys) = digits_val (digits_val a xs) ys"
  by (induction xs arbitrary: a) auto

lemma digits_val_nat_str: "digits_val 0 (nat_str n) = n"
  by (induction n rule: nat_str.induct) (subst nat_str.simps, simp)

lemma nat_str_digits: "c \<in> set (nat_str n) \<Longrightarrow> is_digit c"
  by (induction n rule: nat_str.induct)
     (subst (asm) nat_str.simps, auto split: if_splits)

lemma nat_str_nonempty [simp]: "nat_str n \<noteq> []"
  by (subst nat_str.simps) simp

lemma nat_str_inj [simp]: "nat_str m = nat_str n \<longleftrightarrow> m = n"
  by (metis digits_val_nat_str)

lemma u64_str_inj [simp]: "u64_str v = u64_str w \<longleftrightarrow> v = w"
  by (simp add: u64_str_def word_unat_eq_iff)

lemma u64_str_nonempty [simp]: "u64_str w \<noteq> []"
  by (simp add: u64_str_def)

lemma nat_str_no_sep [wire_safe]: "\<not> is_digit d \<Longrightarrow> d \<notin> set (nat_str n)"
  using nat_str_digits by blast

lemma u64_str_no_sep [wire_safe]: "\<not> is_digit d \<Longrightarrow> d \<notin> set (u64_str w)"
  by (simp add: u64_str_def nat_str_no_sep)

lemma int_str_no_sep [wire_safe]: "\<not> is_digit d \<Longrightarrow> d \<noteq> CHR ''-'' \<Longrightarrow> d \<notin> set (int_str i)"
  by (simp add: int_str_def nat_str_no_sep)

lemma is_digit_bar [simp]: "\<not> is_digit CHR ''|''"
  by (simp add: is_digit_def)


lemma int_str_inj [simp]: "int_str i = int_str j \<longleftrightarrow> i = j"
proof -
  have "nat_str n \<noteq> CHR ''-'' # xs" for n xs
    using nat_str_digits [of "CHR ''-''" n] by (auto simp: is_digit_def)
  then show ?thesis
    by (auto simp: int_str_def) (metis (no_types))+
qed


section \<open>Fields: \<open>std::getline\<close> with a delimiter\<close>

text \<open>
  The loop \<open>while (std::getline(ss, token, d))\<close> over a string: a trailing empty token is
  not produced, inner empty tokens are.
\<close>

fun getline_from :: "char \<Rightarrow> string \<Rightarrow> string \<Rightarrow> string list" where
  "getline_from d acc [] = (if acc = [] then [] else [acc])"
| "getline_from d acc (c # cs) =
     (if c = d then acc # getline_from d [] cs else getline_from d (acc @ [c]) cs)"

definition getline_tokens :: "char \<Rightarrow> string \<Rightarrow> string list" where
  "getline_tokens d s = getline_from d [] s"

fun join_fields :: "char \<Rightarrow> string list \<Rightarrow> string" where
  "join_fields d [] = []"
| "join_fields d [x] = x"
| "join_fields d (x # y # zs) = x @ d # join_fields d (y # zs)"

lemma getline_from_field:
  "d \<notin> set x \<Longrightarrow> getline_from d acc (x @ d # rest) = (acc @ x) # getline_from d [] rest"
  by (induction x arbitrary: acc) auto

lemma getline_from_last:
  "d \<notin> set x \<Longrightarrow> getline_from d acc x = (if acc @ x = [] then [] else [acc @ x])"
  by (induction x arbitrary: acc) auto

lemma getline_tokens_join:
  assumes "\<forall>x \<in> set xs. d \<notin> set x" and "xs \<noteq> []" and "last xs \<noteq> []"
  shows "getline_tokens d (join_fields d xs) = xs"
  using assms unfolding getline_tokens_def
  by (induction d xs rule: join_fields.induct)
     (auto simp: getline_from_field getline_from_last)

lemma getline_from_no_sep:
  "d \<notin> set acc \<Longrightarrow> x \<in> set (getline_from d acc s) \<Longrightarrow> d \<notin> set x"
  by (induction s arbitrary: acc) (fastforce split: if_splits)+

lemma getline_tokens_no_sep: "x \<in> set (getline_tokens d s) \<Longrightarrow> d \<notin> set x"
  unfolding getline_tokens_def by (erule getline_from_no_sep [rotated]) simp

lemma getline_tokens_Nil [simp]: "getline_tokens d [] = []"
  by (simp add: getline_tokens_def)

lemma getline_lines:
  "(\<And>l. l \<in> set ls \<Longrightarrow> c \<notin> set l) \<Longrightarrow> getline_tokens c (concat (map (\<lambda>l. l @ [c]) ls)) = ls"
  unfolding getline_tokens_def by (induction ls) (auto simp: getline_from_field)


section \<open>Hexadecimal\<close>

definition hex_digit :: "nat \<Rightarrow> char" where
  "hex_digit n = char_of (if n < 10 then 48 + n else 87 + n)"

definition hex_byte :: "char \<Rightarrow> string" where
  "hex_byte c = [hex_digit (of_char c div 16), hex_digit (of_char c mod 16)]"

definition hex_string :: "string \<Rightarrow> string" where
  "hex_string s = concat (map hex_byte s)"

definition is_hex :: "char \<Rightarrow> bool" where
  "is_hex c \<longleftrightarrow> is_digit c \<or> (97 \<le> (of_char c :: nat) \<and> (of_char c :: nat) \<le> 102)"

lemma of_char_hex_digit [simp]: "n < 16 \<Longrightarrow> of_char (hex_digit n) = (if n < 10 then 48 + n else 87 + n)"
  by (simp add: hex_digit_def)

lemma hex_digit_inj:
  assumes "m < 16" "n < 16" "hex_digit m = hex_digit n"
  shows "m = n"
  using arg_cong [OF assms(3), of "of_char :: char \<Rightarrow> nat"] assms(1,2) by (auto split: if_splits)

lemma of_char_div16 [simp]: "(of_char c :: nat) div 16 < 16"
  using of_char_less [of c] by (intro less_mult_imp_div_less) simp

lemma hex_byte_inj: "hex_byte c = hex_byte d \<Longrightarrow> c = d"
proof -
  assume eq: "hex_byte c = hex_byte d"
  then have "(of_char c :: nat) div 16 = of_char d div 16" "(of_char c :: nat) mod 16 = of_char d mod 16"
    by (auto simp: hex_byte_def intro: hex_digit_inj)
  then have "(of_char c :: nat) = of_char d"
    by (metis div_mult_mod_eq)
  then show "c = d"
    by simp
qed

lemma hex_string_inj: "hex_string s = hex_string t \<Longrightarrow> s = t"
proof (induction s arbitrary: t)
  case Nil
  then show ?case by (cases t) (auto simp: hex_string_def hex_byte_def)
next
  case (Cons c s)
  then obtain d t' where t: "t = d # t'"
    by (cases t) (auto simp: hex_string_def hex_byte_def)
  with Cons.prems have "hex_byte c = hex_byte d" "hex_string s = hex_string t'"
    by (simp_all add: hex_string_def hex_byte_def)
  with Cons.IH t show ?case by (auto dest: hex_byte_inj)
qed

lemma is_hex_hex_digit: "n < 16 \<Longrightarrow> is_hex (hex_digit n)"
  by (auto simp: is_hex_def is_digit_def)

lemma hex_string_is_hex: "c \<in> set (hex_string s) \<Longrightarrow> is_hex c"
  by (auto simp: hex_string_def hex_byte_def intro!: is_hex_hex_digit)

lemma length_hex_string [simp]: "length (hex_string s) = 2 * length s"
  by (induction s) (auto simp: hex_string_def hex_byte_def)


section \<open>Integer conversions and \<open>strtol\<close>\<close>

definition cast_int :: "int \<Rightarrow> int" where
  "cast_int v = (v + 2 ^ 31) mod 2 ^ 32 - 2 ^ 31"

definition cast_size_t :: "int \<Rightarrow> int" where
  "cast_size_t v = v mod 2 ^ 64"

definition is_space :: "char \<Rightarrow> bool" where
  "is_space c \<longleftrightarrow> c = CHR '' '' \<or> (9 \<le> (of_char c :: nat) \<and> (of_char c :: nat) \<le> 13)"

text \<open>\<open>std::strtol(s, &end, 10)\<close>: the value, clamped to the range of \<open>long\<close>,
  and what \<open>end\<close> points at.\<close>

definition strtol10 :: "string \<Rightarrow> int \<times> string" where
  "strtol10 s =
    (let t = dropWhile is_space s;
         neg = (t \<noteq> [] \<and> hd t = CHR ''-'');
         u = (if t \<noteq> [] \<and> (hd t = CHR ''-'' \<or> hd t = CHR ''+'') then tl t else t);
         ds = takeWhile is_digit u;
         v = (if neg then - int (digits_val 0 ds) else int (digits_val 0 ds))
     in if ds = [] then (0, s)
        else (max (- (2 ^ 63)) (min (2 ^ 63 - 1) v), dropWhile is_digit u))"

lemma cast_int_range: "- (2 ^ 31) \<le> cast_int v \<and> cast_int v < 2 ^ 31"
  by (simp add: cast_int_def)

lemma cast_int_id: "- (2 ^ 31) \<le> v \<Longrightarrow> v < 2 ^ 31 \<Longrightarrow> cast_int v = v"
  by (simp add: cast_int_def)

lemma strtol10_nat_str: "n < 2 ^ 63 \<Longrightarrow> strtol10 (nat_str n) = (int n, [])"
proof -
  assume n: "n < 2 ^ 63"
  have ds: "takeWhile is_digit (nat_str n) = nat_str n" "dropWhile is_digit (nat_str n) = []"
    using nat_str_digits by (auto simp: takeWhile_eq_all_conv dropWhile_eq_Nil_conv)
  obtain c cs where c: "nat_str n = c # cs" "is_digit c"
    using nat_str_digits by (metis list.set_intros(1) nat_str_nonempty neq_Nil_conv)
  then have "\<not> is_space c" "c \<noteq> CHR ''-''" "c \<noteq> CHR ''+''"
    by (auto simp: is_digit_def is_space_def)
  with c have "dropWhile is_space (nat_str n) = nat_str n" "hd (nat_str n) \<noteq> CHR ''-''"
      "hd (nat_str n) \<noteq> CHR ''+''"
    by simp_all
  with n show ?thesis
    by (simp add: strtol10_def digits_val_nat_str ds Let_def)
qed


section \<open>Clocks\<close>

text \<open>\<open>duration_cast<seconds>(d).count()\<close> and its millisecond variant truncate towards
  zero.\<close>

definition trunc_div :: "int \<Rightarrow> int \<Rightarrow> int" where
  "trunc_div a b = (if a \<ge> 0 then a div b else - ((- a) div b))"

definition dsecs :: "time \<Rightarrow> int" where
  "dsecs d = trunc_div d 1000000000"

definition dmillis :: "time \<Rightarrow> int" where
  "dmillis d = trunc_div d 1000000"

lemma int_div_less_iff:
  fixes a b k :: int
  assumes "0 < b"
  shows "a div b < k \<longleftrightarrow> a < k * b"
proof -
  have "k \<le> a div b \<longleftrightarrow> k * b \<le> a"
  proof
    assume "k \<le> a div b"
    with mult_right_mono [of k "a div b" b] pos_mod_sign [of b a] div_mult_mod_eq [of a b] assms
    show "k * b \<le> a" by linarith
  next
    assume "k * b \<le> a"
    with assms zdiv_mono1 [of "k * b" a b] show "k \<le> a div b" by simp
  qed
  then show ?thesis by linarith
qed

lemma trunc_div_nonpos: "a < 0 \<Longrightarrow> 0 < b \<Longrightarrow> trunc_div a b \<le> 0"
  by (simp add: trunc_div_def pos_imp_zdiv_nonneg_iff)

lemma dsecs_less_iff: "0 < k \<Longrightarrow> dsecs d < k \<longleftrightarrow> d < k * 1000000000"
  using trunc_div_nonpos [of d 1000000000] int_div_less_iff [of 1000000000 d k]
  by (cases "0 \<le> d") (auto simp: dsecs_def trunc_div_def)

lemma trunc_div_mono: "d \<le> e \<Longrightarrow> 0 < b \<Longrightarrow> trunc_div d b \<le> trunc_div e b"
  using zdiv_mono1 [of d e b] zdiv_mono1 [of "- e" "- d" b]
    pos_imp_zdiv_nonneg_iff [of b e] pos_imp_zdiv_nonneg_iff [of b "- d"]
  by (auto simp: trunc_div_def intro: order_trans [of _ 0])

lemma dsecs_mono: "d \<le> e \<Longrightarrow> dsecs d \<le> dsecs e"
  by (simp add: dsecs_def trunc_div_mono)

lemma dsecs_zero [simp]: "dsecs 0 = 0"
  by (simp add: dsecs_def trunc_div_def)


section \<open>Substrings: \<open>std::string::find\<close>\<close>

text \<open>\<open>toupper\<close> in the C locale.\<close>

definition to_upper :: "char \<Rightarrow> char" where
  "to_upper c = (if 97 \<le> (of_char c :: nat) \<and> (of_char c :: nat) \<le> 122 then char_of ((of_char c :: nat) - 32) else c)"

text \<open>A C string ends at the first zero byte of the buffer.\<close>

definition c_string :: "string \<Rightarrow> string" where
  "c_string buf = takeWhile (\<lambda>c. c \<noteq> CHR 0x00) buf"

definition starts_with :: "string \<Rightarrow> string \<Rightarrow> bool" where
  "starts_with p s \<longleftrightarrow> take (length p) s = p"

fun str_find :: "string \<Rightarrow> string \<Rightarrow> nat option" where
  "str_find p [] = (if p = [] then Some 0 else None)"
| "str_find p (c # cs) =
     (if starts_with p (c # cs) then Some 0 else map_option Suc (str_find p cs))"

definition str_contains :: "string \<Rightarrow> string \<Rightarrow> bool" where
  "str_contains p s \<longleftrightarrow> str_find p s \<noteq> None"

lemma c_string_id: "CHR 0x00 \<notin> set s \<Longrightarrow> c_string s = s"
  by (auto simp: c_string_def takeWhile_eq_all_conv)

lemma starts_with_append [simp]: "starts_with p (p @ s)"
  by (simp add: starts_with_def)

lemma starts_with_ex: "starts_with p s \<longleftrightarrow> (\<exists>t. s = p @ t)"
  by (metis append_take_drop_id append_eq_conv_conj starts_with_def)

lemma str_contains_iff: "str_contains p s \<longleftrightarrow> (\<exists>a b. s = a @ p @ b)"
  unfolding str_contains_def
proof (induction s)
  case (Cons c s)
  then show ?case
    by (auto simp: starts_with_ex Cons_eq_append_conv)
qed auto

lemma str_find_head [simp]: "str_find p (p @ s) = Some 0"
  by (cases "p @ s") (auto, metis starts_with_append)


section \<open>Binary64 arithmetic\<close>

text \<open>
  A finite \<open>double\<close> is the rational it stands for. \<open>fl\<close> rounds to the nearest
  double, ties to even, subnormals included; no value of the sources comes near the overflow
  threshold, so infinities do not occur. An operation of the source is the exact operation followed
  by \<open>fl\<close>.
\<close>

definition pow2 :: "int \<Rightarrow> rat" where
  "pow2 e = (if e \<ge> 0 then 2 ^ nat e else 1 / 2 ^ nat (- e))"

definition exponent_of :: "rat \<Rightarrow> int" where
  "exponent_of x =
    (let (n, d) = quotient_of x;
         e = int (nat (bitlen n)) - int (nat (bitlen d))
     in if x < pow2 e then e - 1 else e)"

definition round_even :: "rat \<Rightarrow> int" where
  "round_even y =
    (let f = \<lfloor>y\<rfloor>; r = y - of_int f in
     if r < 1 / 2 then f else if r > 1 / 2 then f + 1 else if even f then f else f + 1)"

definition fl :: "rat \<Rightarrow> rat" where
  "fl x =
    (if x = 0 then 0
     else let u = pow2 (max (exponent_of \<bar>x\<bar> - 52) (- 1074)) in of_int (round_even (x / u)) * u)"

text \<open>The same for binary32, the \<open>float\<close> of the sources.\<close>

definition fl32 :: "rat \<Rightarrow> rat" where
  "fl32 x =
    (if x = 0 then 0
     else let u = pow2 (max (exponent_of \<bar>x\<bar> - 23) (- 149)) in of_int (round_even (x / u)) * u)"

abbreviation fadd :: "rat \<Rightarrow> rat \<Rightarrow> rat" where "fadd x y \<equiv> fl (x + y)"
abbreviation fsub :: "rat \<Rightarrow> rat \<Rightarrow> rat" where "fsub x y \<equiv> fl (x - y)"
abbreviation fmul :: "rat \<Rightarrow> rat \<Rightarrow> rat" where "fmul x y \<equiv> fl (x * y)"
abbreviation fdiv :: "rat \<Rightarrow> rat \<Rightarrow> rat" where "fdiv x y \<equiv> fl (x / y)"

lemma fl_zero [simp]: "fl 0 = 0"
  by (simp add: fl_def)

lemma pow2_pos [simp]: "0 < pow2 e"
  by (simp add: pow2_def)

lemma round_even_nonneg: "0 \<le> y \<Longrightarrow> 0 \<le> round_even y"
  by (auto simp: round_even_def Let_def)

lemma fl_nonneg: "0 \<le> x \<Longrightarrow> 0 \<le> fl x"
  by (cases "x = 0") (simp_all add: fl_def Let_def round_even_nonneg less_imp_le)


lemma round_even_le: "y \<le> of_int n \<Longrightarrow> round_even y \<le> n"
proof -
  assume "y \<le> of_int n"
  then have "\<lfloor>y\<rfloor> < n \<or> \<lfloor>y\<rfloor> = n \<and> y = of_int n"
    by (metis floor_le_iff le_floor_iff le_less order_antisym_conv floor_mono floor_of_int)
  then show ?thesis
    by (auto simp: round_even_def Let_def)
qed

lemma exponent_of_le_0:
  assumes "0 < x" "x \<le> 1"
  shows "exponent_of x \<le> 0"
proof -
  obtain n d where q: "quotient_of x = (n, d)" by (cases "quotient_of x")
  then have d: "0 < d" and x: "x = of_int n / of_int d"
    using quotient_of_denom_pos quotient_of_div by auto
  with assms have "0 < n" "n \<le> d" by (auto simp: zero_less_divide_iff)
  then have "bitlen n \<le> bitlen d"
    by (simp add: bitlen_def floorlog_mono)
  then show ?thesis by (simp add: exponent_of_def q Let_def bitlen_nonneg)
qed

lemma fl_le_one: "x \<le> 1 \<Longrightarrow> fl x \<le> 1"
proof (cases "0 < x")
  case True
  assume "x \<le> 1"
  define e where "e = max (exponent_of \<bar>x\<bar> - 52) (- 1074)"
  have "e \<le> 0" using exponent_of_le_0 [of x] True \<open>x \<le> 1\<close> by (auto simp: e_def)
  then obtain k where k: "pow2 e = 1 / 2 ^ k"
    by (auto simp: pow2_def) (metis div_by_1 power_0 nat_0 order_antisym)+
  have "x / pow2 e \<le> of_int (2 ^ k)"
    using \<open>x \<le> 1\<close> by (simp add: k)
  then have "of_int (round_even (x / pow2 e)) \<le> (2 ^ k :: rat)"
    by (metis of_int_le_iff of_int_numeral of_int_power round_even_le)
  then have "of_int (round_even (x / pow2 e)) * pow2 e \<le> 1"
    by (simp add: k)
  then show ?thesis
    using True by (simp add: fl_def Let_def e_def)
next
  case False
  then have "x / pow2 e \<le> of_int 0" for e by (simp add: divide_le_0_iff less_imp_le)
  then have "round_even (x / pow2 e) \<le> 0" for e by (rule round_even_le)
  then show ?thesis
    by (auto simp: fl_def Let_def mult_le_0_iff less_imp_le intro: order_trans [of _ 0])
qed

lemma round_even_ge: "of_int n \<le> y \<Longrightarrow> n \<le> round_even y"
proof -
  assume "of_int n \<le> y"
  then have "n \<le> \<lfloor>y\<rfloor>" by (simp add: le_floor_iff)
  then show ?thesis by (auto simp: round_even_def Let_def)
qed

lemma exponent_of_le_1:
  assumes "0 < x" "x \<le> 2"
  shows "exponent_of x \<le> 1"
proof -
  obtain n d where q: "quotient_of x = (n, d)" by (cases "quotient_of x")
  then have d: "0 < d" and x: "x = of_int n / of_int d"
    using quotient_of_denom_pos quotient_of_div by auto
  with assms have "0 < n" "of_int n \<le> 2 * (of_int d :: rat)" by (auto simp: zero_less_divide_iff divide_le_eq)
  then have n: "0 < n" "n \<le> 2 * d" by linarith+
  then have "bitlen n \<le> bitlen (2 * d)" by (simp add: bitlen_def floorlog_mono)
  also have "\<dots> = bitlen d + 1" using d bitlen_pow2 [of d 1] by (simp add: mult.commute)
  finally show ?thesis by (simp add: exponent_of_def q Let_def bitlen_nonneg)
qed

lemma fl_ge_one:
  assumes "1 \<le> x" "x \<le> 2"
  shows "1 \<le> fl x"
proof -
  define e where "e = max (exponent_of \<bar>x\<bar> - 52) (- 1074)"
  have "e \<le> 0" using exponent_of_le_1 [of x] assms by (auto simp: e_def)
  then obtain k where k: "pow2 e = 1 / 2 ^ k"
    by (auto simp: pow2_def) (metis div_by_1 power_0 nat_0 order_antisym)+
  have "of_int (2 ^ k) \<le> x / pow2 e" using assms by (simp add: k)
  then have "2 ^ k \<le> round_even (x / pow2 e)" by (rule round_even_ge)
  then have "(2 ^ k :: rat) \<le> of_int (round_even (x / pow2 e))"
    by (metis of_int_le_iff of_int_numeral of_int_power)
  then have "1 \<le> of_int (round_even (x / pow2 e)) * pow2 e" by (simp add: k)
  then show ?thesis using assms by (simp add: fl_def Let_def e_def)
qed

end
