(* ===== verification/Crypto.thy ===== *)
theory Crypto
  imports Cpp
begin

text \<open>
  \<open>crypto/CryptoCore.cpp\<close>: the wrapper of OpenSSL every component signs, verifies and hashes
  with. OpenSSL itself is a parameter, the record \<open>openssl\<close> of the calls the wrapper makes;
  a call that fails returns \<open>None\<close>. A key handle is a string standing for the
  \<open>EVP_PKEY\<close> object. Shown: the digest text is hexadecimal, so it never holds a field
  separator, and two texts with the same digest text collide in SHA-256 itself.
\<close>

type_synonym pkey = string

record openssl =
  evp_sha256 :: "string \<Rightarrow> string option"
  evp_digest_sign :: "pkey \<Rightarrow> string \<Rightarrow> string option"
  evp_digest_verify :: "pkey \<Rightarrow> string \<Rightarrow> string \<Rightarrow> bool"
  pem_write_bio_pubkey :: "pkey \<Rightarrow> string option"
  pem_read_bio_pubkey :: "pem \<Rightarrow> pkey option"


section \<open>IdentityCore\<close>

definition sign_payload :: "openssl \<Rightarrow> pkey \<Rightarrow> string \<Rightarrow> string" where
  "sign_payload L priv_key data =
     (case evp_digest_sign L priv_key data of None \<Rightarrow> [] | Some sig \<Rightarrow> sig)"

definition verify_signature :: "openssl \<Rightarrow> pkey option \<Rightarrow> string \<Rightarrow> string \<Rightarrow> bool" where
  "verify_signature L pub_key data signature =
     (case pub_key of None \<Rightarrow> False | Some k \<Rightarrow> evp_digest_verify L k data signature)"

definition get_pem_from_pubkey :: "openssl \<Rightarrow> pkey \<Rightarrow> pem" where
  "get_pem_from_pubkey L key = (case pem_write_bio_pubkey L key of None \<Rightarrow> [] | Some p \<Rightarrow> p)"

definition get_pubkey_from_pem :: "openssl \<Rightarrow> pem \<Rightarrow> pkey option" where
  "get_pubkey_from_pem L p = pem_read_bio_pubkey L p"

definition sha256_hex :: "openssl \<Rightarrow> string \<Rightarrow> string" where
  "sha256_hex L data = (case evp_sha256 L data of None \<Rightarrow> [] | Some h \<Rightarrow> hex_string h)"

definition cert_fingerprint :: "openssl \<Rightarrow> string \<Rightarrow> string" where
  "cert_fingerprint L der_cert = sha256_hex L der_cert"


text \<open>An instance of the interface with total, deterministic calls, on which the statements about
  the components are instantiated: a digest of 32 bytes, signatures that name the key, keys that
  are their own PEM text.\<close>

definition demo_digest :: "string \<Rightarrow> string" where
  "demo_digest x = take 32 (rev x @ replicate 32 (CHR ''0''))"

definition demo_ssl :: openssl where
  "demo_ssl = \<lparr>evp_sha256 = (\<lambda>x. Some (demo_digest x)), evp_digest_sign = (\<lambda>k d. Some (k @ ''#'' @ d)),
     evp_digest_verify = (\<lambda>k d sig. sig = k @ ''#'' @ d), pem_write_bio_pubkey = Some,
     pem_read_bio_pubkey = Some\<rparr>"


section \<open>Digest text\<close>

lemma sha256_hex_is_hex: "c \<in> set (sha256_hex L data) \<Longrightarrow> is_hex c"
  by (auto simp: sha256_hex_def hex_string_is_hex split: option.splits)

lemma sha256_hex_no_bar [wire_safe]: "CHR ''|'' \<notin> set (sha256_hex L data)"
  using sha256_hex_is_hex by (fastforce simp: is_hex_def is_digit_def)

lemma sha256_hex_collision:
  assumes "sha256_hex L x = sha256_hex L y" and "sha256_hex L x \<noteq> []"
  shows "evp_sha256 L x = evp_sha256 L y"
  using assms by (auto simp: sha256_hex_def split: option.splits dest: hex_string_inj)

text \<open>
  SHA-256 is total and its digest has 32 bytes: the only facts about it that are used without a
  collision in the conclusion.
\<close>

definition sha256_total :: "openssl \<Rightarrow> bool" where
  "sha256_total L \<longleftrightarrow> (\<forall>x. \<exists>h. evp_sha256 L x = Some h \<and> length h = 32)"

lemma length_sha256_hex: "sha256_total L \<Longrightarrow> length (sha256_hex L x) = 64"
  unfolding sha256_total_def by (drule spec [of _ x]) (auto simp: sha256_hex_def)


lemma demo_ssl_total: "sha256_total demo_ssl"
  by (simp add: sha256_total_def demo_ssl_def demo_digest_def min_def)

lemma demo_ssl_simps [simp]:
  "verify_signature demo_ssl (Some k) d sig \<longleftrightarrow> sig = k @ ''#'' @ d"
  "sign_payload demo_ssl k d = k @ ''#'' @ d"
  "get_pubkey_from_pem demo_ssl p = Some p"
  by (simp_all add: verify_signature_def sign_payload_def get_pubkey_from_pem_def demo_ssl_def)

end
