(* ===== verification/PBFT.thy ===== *)
theory PBFT
  imports Crypto
begin

text \<open>
  \<open>consensus/PBFT.hpp\<close>: the consensus state machine of one node. The state is the record
  \<open>pbft\<close>, one field for each member of \<open>PBFTConsensus\<close>; the public and private member
  functions are definitions that take the state and return it updated. OpenSSL is the argument
  \<open>L\<close>, the steady clock the argument \<open>now\<close>. The half of the set of seen messages that
  is dropped when it exceeds its cap depends on the order of an \<open>std::unordered_set\<close> and is
  the argument \<open>evict\<close>.
\<close>


section \<open>Data\<close>

datatype pbft_stage = IDLE | PRE_PREPARE | PREPARE | COMMIT | EXECUTED | BAN_PEER

record p2p_message =
  stage_str :: string
  sender_id :: node_id
  target_id :: string
  evidence_json :: string
  signature :: string
  prev_message_hash :: string
  sequence_number :: uint64
  msg_view :: int

record equivocation_evidence =
  eq_node_id :: node_id
  eq_sequence_number :: uint64
  eq_view :: int
  hash1 :: string
  hash2 :: string
  detected_at :: time

record consensus_round =
  round_state :: pbft_stage
  round_view :: int
  pre_prepare_hash :: string
  evidence_key :: string
  commit_signature :: string
  started_at :: time
  last_activity :: time

record node_trust_score =
  equivocation_count :: int
  consecutive_failures :: int
  successful_rounds :: int
  last_failure :: time
  trust_score :: rat

record pbft =
  m_total_nodes :: int
  m_current_view :: int
  m_rate_window_sec :: int
  m_rate_max :: int
  m_genesis_hash :: string
  m_last_confirmed_hash :: string
  m_my_node_id :: node_id
  m_private_key :: "pkey option"
  m_vote_registry :: "string \<rightharpoonup> (string \<rightharpoonup> node_id set)"
  m_peer_public_keys :: "node_id \<rightharpoonup> pkey option"
  m_rounds :: "(string, consensus_round) omap"
  m_node_trust :: "node_id \<rightharpoonup> node_trust_score"
  m_message_history :: "node_id \<rightharpoonup> (uint64, string) omap"
  m_equivocation_history :: "(node_id, equivocation_evidence) omap"
  m_rate_limits :: "node_id \<rightharpoonup> time list"
  m_seen_messages :: "string set"
  m_registered_peers :: "node_id set"
  m_banned_peers :: "node_id set"
  m_recent_bans :: "node_id set"

definition default_round :: consensus_round where
  "default_round = \<lparr>round_state = IDLE, round_view = 0, pre_prepare_hash = [], evidence_key = [],
     commit_signature = [], started_at = 0, last_activity = 0\<rparr>"

definition default_trust :: node_trust_score where
  "default_trust = \<lparr>equivocation_count = 0, consecutive_failures = 0, successful_rounds = 0,
     last_failure = 0, trust_score = 1\<rparr>"

definition VIEW_CHANGE_TIMEOUT_SEC :: int where "VIEW_CHANGE_TIMEOUT_SEC = 30"
definition ROUND_TTL_SEC :: int where "ROUND_TTL_SEC = 120"
definition MAX_SEQUENCE_GAP :: uint64 where "MAX_SEQUENCE_GAP = 100"
definition DEFAULT_RATE_WINDOW_SEC :: int where "DEFAULT_RATE_WINDOW_SEC = 10"
definition DEFAULT_RATE_MAX :: int where "DEFAULT_RATE_MAX = 5"
definition MAX_MSG_HISTORY_PER_SENDER :: nat where "MAX_MSG_HISTORY_PER_SENDER = 10000"
definition MAX_SEEN_MESSAGES :: nat where "MAX_SEEN_MESSAGES = 100000"
definition kAutoPruneFailures :: int where "kAutoPruneFailures = 100"

lemmas pbft_consts =
  VIEW_CHANGE_TIMEOUT_SEC_def ROUND_TTL_SEC_def MAX_SEQUENCE_GAP_def DEFAULT_RATE_WINDOW_SEC_def
  DEFAULT_RATE_MAX_def MAX_MSG_HISTORY_PER_SENDER_def MAX_SEEN_MESSAGES_def kAutoPruneFailures_def


section \<open>Construction and registration\<close>

definition env_positive :: "string option \<Rightarrow> int \<Rightarrow> int" where
  "env_positive env dflt =
     (case env of None \<Rightarrow> dflt
      | Some e \<Rightarrow> (let (val, rest) = strtol10 e in if rest = [] \<and> val > 0 then cast_int val else dflt))"

definition new_pbft :: "openssl \<Rightarrow> string option \<Rightarrow> string option \<Rightarrow> int \<Rightarrow> pbft" where
  "new_pbft L rate_window rate_max total_nodes =
     \<lparr>m_total_nodes = total_nodes, m_current_view = 0,
      m_rate_window_sec = env_positive rate_window DEFAULT_RATE_WINDOW_SEC,
      m_rate_max = env_positive rate_max DEFAULT_RATE_MAX,
      m_genesis_hash = sha256_hex L ''GENESIS'', m_last_confirmed_hash = [], m_my_node_id = [],
      m_private_key = None, m_vote_registry = Map.empty, m_peer_public_keys = Map.empty,
      m_rounds = [], m_node_trust = Map.empty, m_message_history = Map.empty,
      m_equivocation_history = [], m_rate_limits = Map.empty, m_seen_messages = {},
      m_registered_peers = {}, m_banned_peers = {}, m_recent_bans = {}\<rparr>"

definition register_peer_key :: "openssl \<Rightarrow> node_id \<Rightarrow> pem \<Rightarrow> pbft \<Rightarrow> pbft" where
  "register_peer_key L node_id pem_key s =
     s\<lparr>m_peer_public_keys := (m_peer_public_keys s)(node_id \<mapsto> get_pubkey_from_pem L pem_key),
       m_node_trust := (m_node_trust s)(node_id \<mapsto> default_trust),
       m_registered_peers := insert node_id (m_registered_peers s)\<rparr>"

definition has_peer :: "pbft \<Rightarrow> node_id \<Rightarrow> bool" where
  "has_peer s node_id \<longleftrightarrow> node_id \<in> m_registered_peers s"

definition set_my_identity :: "node_id \<Rightarrow> pbft \<Rightarrow> pbft" where
  "set_my_identity node_id s = s\<lparr>m_my_node_id := node_id\<rparr>"

definition set_private_key :: "pkey option \<Rightarrow> pbft \<Rightarrow> pbft" where
  "set_private_key key s = s\<lparr>m_private_key := key\<rparr>"


section \<open>Hashing and signing of messages\<close>

definition message_text :: "p2p_message \<Rightarrow> string" where
  "message_text msg = stage_str msg @ ''|'' @ sender_id msg @ ''|'' @ target_id msg @ ''|''
     @ evidence_json msg @ ''|'' @ prev_message_hash msg @ ''|''
     @ u64_str (sequence_number msg) @ ''|'' @ int_str (msg_view msg)"

definition compute_message_hash :: "openssl \<Rightarrow> p2p_message \<Rightarrow> string" where
  "compute_message_hash L msg = sha256_hex L (message_text msg)"

definition signed_blob :: "p2p_message \<Rightarrow> string" where
  "signed_blob msg = stage_str msg @ ''|'' @ target_id msg @ ''|'' @ evidence_json msg @ ''|''
     @ u64_str (sequence_number msg) @ ''|'' @ int_str (msg_view msg) @ ''|''
     @ prev_message_hash msg"

definition sign_message :: "openssl \<Rightarrow> pbft \<Rightarrow> p2p_message \<Rightarrow> string" where
  "sign_message L s msg =
     (case m_private_key s of None \<Rightarrow> [] | Some k \<Rightarrow> sign_payload L k (signed_blob msg))"

definition round_key_of :: "openssl \<Rightarrow> string \<Rightarrow> string \<Rightarrow> string" where
  "round_key_of L evidence target =
     (let h = sha256_hex L (evidence @ ''|'' @ target) in
      if h = [] then evidence @ ''|'' @ target else h)"


section \<open>Quorum and membership count\<close>

definition quorum_of :: "int \<Rightarrow> int" where
  "quorum_of n = 2 * ((max 1 n - 1) div 3) + 1"

definition quorum_size :: "pbft \<Rightarrow> int" where
  "quorum_size s = quorum_of (m_total_nodes s)"

definition peer_count :: "pbft \<Rightarrow> int" where
  "peer_count s = m_total_nodes s"

definition set_peer_count :: "int \<Rightarrow> pbft \<Rightarrow> pbft" where
  "set_peer_count n s = s\<lparr>m_total_nodes := max 1 n\<rparr>"

definition increment_peers :: "pbft \<Rightarrow> pbft" where
  "increment_peers s = s\<lparr>m_total_nodes := m_total_nodes s + 1\<rparr>"

definition decrement_peers :: "pbft \<Rightarrow> pbft" where
  "decrement_peers s = s\<lparr>m_total_nodes := max 1 (m_total_nodes s - 1)\<rparr>"

definition try_increment_peers :: "node_id \<Rightarrow> pbft \<Rightarrow> bool \<times> pbft" where
  "try_increment_peers node_id s =
     (if node_id \<in> m_registered_peers s then (False, s)
      else (True, s\<lparr>m_registered_peers := insert node_id (m_registered_peers s),
                    m_total_nodes := m_total_nodes s + 1\<rparr>))"

definition erase_voter :: "node_id \<Rightarrow> (string \<rightharpoonup> (string \<rightharpoonup> node_id set)) \<Rightarrow> (string \<rightharpoonup> (string \<rightharpoonup> node_id set))" where
  "erase_voter node_id reg =
     (\<lambda>key. map_option (\<lambda>stages stage. map_option (\<lambda>voters. voters - {node_id}) (stages stage)) (reg key))"

definition prune_peer_locked :: "node_id \<Rightarrow> pbft \<Rightarrow> pbft" where
  "prune_peer_locked node_id s =
     s\<lparr>m_peer_public_keys := (m_peer_public_keys s)(node_id := None),
       m_node_trust := (m_node_trust s)(node_id := None),
       m_message_history := (m_message_history s)(node_id := None),
       m_registered_peers := m_registered_peers s - {node_id},
       m_vote_registry := erase_voter node_id (m_vote_registry s),
       m_total_nodes := max 1 (m_total_nodes s - 1)\<rparr>"

definition prune_peer :: "node_id \<Rightarrow> pbft \<Rightarrow> pbft" where
  "prune_peer node_id s = prune_peer_locked node_id s"


section \<open>Bans\<close>

definition drain_recent_bans :: "pbft \<Rightarrow> node_id set \<times> pbft" where
  "drain_recent_bans s = (m_recent_bans s, s\<lparr>m_recent_bans := {}\<rparr>)"

definition is_banned :: "pbft \<Rightarrow> node_id \<Rightarrow> bool" where
  "is_banned s node_id \<longleftrightarrow> node_id \<in> m_banned_peers s"

definition ban_peer_locked :: "node_id \<Rightarrow> pbft \<Rightarrow> pbft" where
  "ban_peer_locked node_id s = s\<lparr>m_banned_peers := insert node_id (m_banned_peers s)\<rparr>"

definition ban_peer_local :: "node_id \<Rightarrow> pbft \<Rightarrow> pbft" where
  "ban_peer_local node_id s = ban_peer_locked node_id s"

definition propose_ban :: "node_id \<Rightarrow> pbft \<Rightarrow> bool \<times> pbft" where
  "propose_ban target s =
     (if target = [] \<or> target = m_my_node_id s then (False, s)
      else if is_banned s target then (False, s)
      else (True, ban_peer_local target s))"


section \<open>Trust\<close>

definition trust_of :: "pbft \<Rightarrow> node_id \<Rightarrow> node_trust_score" where
  "trust_of s node_id = (case m_node_trust s node_id of None \<Rightarrow> default_trust | Some t \<Rightarrow> t)"

definition get_node_trust :: "pbft \<Rightarrow> node_id \<Rightarrow> rat" where
  "get_node_trust s node_id = (case m_node_trust s node_id of None \<Rightarrow> 0 | Some t \<Rightarrow> trust_score t)"

definition record_equivocation :: "time \<Rightarrow> node_id \<Rightarrow> pbft \<Rightarrow> pbft" where
  "record_equivocation now node_id s =
     (let trust = trust_of s node_id in
      s\<lparr>m_node_trust := (m_node_trust s)(node_id \<mapsto>
          trust\<lparr>equivocation_count := equivocation_count trust + 1,
                trust_score := max 0 (fsub (trust_score trust) (fl (3 / 10))),
                consecutive_failures := consecutive_failures trust + 1,
                last_failure := now\<rparr>)\<rparr>)"

definition record_failure :: "time \<Rightarrow> node_id \<Rightarrow> pbft \<Rightarrow> pbft" where
  "record_failure now node_id s =
     (let trust = trust_of s node_id;
          trust = trust\<lparr>consecutive_failures := consecutive_failures trust + 1,
                        trust_score := max 0 (fsub (trust_score trust) (fl (1 / 10))),
                        last_failure := now\<rparr>;
          s = s\<lparr>m_node_trust := (m_node_trust s)(node_id \<mapsto> trust)\<rparr>
      in if consecutive_failures trust \<ge> kAutoPruneFailures
         then prune_peer_locked node_id
                (s\<lparr>m_banned_peers := insert node_id (m_banned_peers s),
                   m_recent_bans := insert node_id (m_recent_bans s)\<rparr>)
         else s)"

definition record_success :: "node_id \<Rightarrow> pbft \<Rightarrow> pbft" where
  "record_success node_id s =
     (let trust = trust_of s node_id in
      s\<lparr>m_node_trust := (m_node_trust s)(node_id \<mapsto>
          trust\<lparr>consecutive_failures :=
                   (if consecutive_failures trust > 0 then 0 else consecutive_failures trust),
                successful_rounds := successful_rounds trust + 1,
                trust_score := min 1 (fadd (trust_score trust) (fl (5 / 100)))\<rparr>)\<rparr>)"


section \<open>Checks on an incoming message\<close>

definition verify_message_chaining :: "pbft \<Rightarrow> p2p_message \<Rightarrow> bool" where
  "verify_message_chaining s msg =
     (case m_message_history s (sender_id msg) of
        None \<Rightarrow> True
      | Some history \<Rightarrow>
          if history = [] then True
          else case omap_lookup history (sequence_number msg - 1) of
                 None \<Rightarrow> prev_message_hash msg = [] \<or> prev_message_hash msg = m_genesis_hash s
               | Some h \<Rightarrow> h = prev_message_hash msg)"

definition verify_sequence_continuity :: "pbft \<Rightarrow> p2p_message \<Rightarrow> bool" where
  "verify_sequence_continuity s msg =
     (case m_message_history s (sender_id msg) of
        None \<Rightarrow> True
      | Some history \<Rightarrow>
          if history = [] then True
          else let max_seq = fold max (map fst history) 0 in
               \<not> (sequence_number msg > max_seq + MAX_SEQUENCE_GAP))"

definition verify_message :: "openssl \<Rightarrow> time \<Rightarrow> p2p_message \<Rightarrow> pbft \<Rightarrow> bool \<times> pbft" where
  "verify_message L now msg s =
     (if sender_id msg \<in> m_banned_peers s then (False, s)
      else case m_peer_public_keys s (sender_id msg) of
        None \<Rightarrow> (False, s)
      | Some key \<Rightarrow>
          if \<not> verify_signature L key (signed_blob msg) (signature msg)
          then (False, record_failure now (sender_id msg) s)
          else if \<not> verify_message_chaining s msg
          then (False, record_failure now (sender_id msg) s)
          else if \<not> verify_sequence_continuity s msg
          then (False, record_failure now (sender_id msg) s)
          else (True, record_success (sender_id msg) s))"

definition check_rate_limit :: "time \<Rightarrow> node_id \<Rightarrow> pbft \<Rightarrow> bool \<times> pbft" where
  "check_rate_limit now node s =
     (let timestamps = (case m_rate_limits s node of None \<Rightarrow> [] | Some ts \<Rightarrow> ts);
          timestamps = filter (\<lambda>ts. \<not> dsecs (now - ts) \<ge> m_rate_window_sec s) timestamps
      in if int (length timestamps) \<ge> cast_size_t (m_rate_max s)
         then (False, s\<lparr>m_rate_limits := (m_rate_limits s)(node \<mapsto> timestamps)\<rparr>)
         else (True, s\<lparr>m_rate_limits := (m_rate_limits s)(node \<mapsto> timestamps @ [now])\<rparr>))"


section \<open>Rounds\<close>

text \<open>The loop visits the rounds in the order of their keys; each round that is removed while
  \<open>EXECUTED\<close> leaves its key as the last confirmed hash.\<close>

definition round_stale :: "time \<Rightarrow> consensus_round \<Rightarrow> bool" where
  "round_stale now r \<longleftrightarrow> dsecs (now - last_activity r) > ROUND_TTL_SEC"

fun cleanup_loop :: "time \<Rightarrow> (string, consensus_round) omap \<Rightarrow> pbft \<Rightarrow> pbft" where
  "cleanup_loop now [] s = s"
| "cleanup_loop now ((key, r) # rs) s =
     (if round_stale now r
      then cleanup_loop now rs
             (s\<lparr>m_last_confirmed_hash :=
                  (if round_state r = EXECUTED then key else m_last_confirmed_hash s),
                m_vote_registry := (m_vote_registry s)(key := None),
                m_rounds := omap_erase key (m_rounds s)\<rparr>)
      else cleanup_loop now rs s)"

definition cleanup_stale_rounds :: "time \<Rightarrow> pbft \<Rightarrow> pbft" where
  "cleanup_stale_rounds now s = cleanup_loop now (m_rounds s) s"

definition verify_quorum_intersection :: "pbft \<Rightarrow> string \<Rightarrow> bool" where
  "verify_quorum_intersection s evidence =
     (case m_vote_registry s evidence of
        None \<Rightarrow> True
      | Some stages \<Rightarrow>
          (case stages ''PREPARE'' of
             None \<Rightarrow> True
           | Some prepare_voters \<Rightarrow>
               if int (card prepare_voters) < quorum_size s then True
               else case stages ''COMMIT'' of
                      None \<Rightarrow> True
                    | Some commit_voters \<Rightarrow>
                        int (card (prepare_voters \<inter> commit_voters)) \<ge> quorum_size s))"

definition evict_history :: "(uint64, string) omap \<Rightarrow> (uint64, string) omap" where
  "evict_history history =
     (if length history > MAX_MSG_HISTORY_PER_SENDER
      then drop (length history - MAX_MSG_HISTORY_PER_SENDER) history else history)"

definition detect_equivocation :: "time \<Rightarrow> p2p_message \<Rightarrow> string \<Rightarrow> pbft \<Rightarrow> pbft" where
  "detect_equivocation now msg msg_hash s =
     (let history = (case m_message_history s (sender_id msg) of None \<Rightarrow> [] | Some h \<Rightarrow> h);
          s = (case omap_lookup history (sequence_number msg) of
                 None \<Rightarrow> s
               | Some h \<Rightarrow>
                   if h \<noteq> msg_hash
                   then record_equivocation now (sender_id msg)
                          (s\<lparr>m_equivocation_history := omap_insert (sender_id msg)
                               \<lparr>eq_node_id = sender_id msg, eq_sequence_number = sequence_number msg,
                                eq_view = msg_view msg, hash1 = h, hash2 = msg_hash, detected_at = now\<rparr>
                               (m_equivocation_history s)\<rparr>)
                   else s)
      in s\<lparr>m_message_history := (m_message_history s)(sender_id msg \<mapsto>
             evict_history (omap_insert (sequence_number msg) msg_hash history))\<rparr>)"

definition see_message :: "(string set \<Rightarrow> string set) \<Rightarrow> string \<Rightarrow> pbft \<Rightarrow> pbft" where
  "see_message evict msg_hash s =
     (let seen = insert msg_hash (m_seen_messages s) in
      s\<lparr>m_seen_messages := (if card seen > MAX_SEEN_MESSAGES then seen - evict seen else seen)\<rparr>)"

definition reg_voters :: "(string \<rightharpoonup> (string \<rightharpoonup> node_id set)) \<Rightarrow> string \<Rightarrow> string \<Rightarrow> node_id set" where
  "reg_voters reg key stage =
     (case reg key of None \<Rightarrow> {}
      | Some stages \<Rightarrow> (case stages stage of None \<Rightarrow> {} | Some v \<Rightarrow> v))"

abbreviation voters :: "pbft \<Rightarrow> string \<Rightarrow> string \<Rightarrow> node_id set" where
  "voters s \<equiv> reg_voters (m_vote_registry s)"

definition set_voters :: "string \<Rightarrow> string \<Rightarrow> node_id set \<Rightarrow> pbft \<Rightarrow> pbft" where
  "set_voters key stage v s =
     s\<lparr>m_vote_registry := (m_vote_registry s)(key \<mapsto>
         (case m_vote_registry s key of None \<Rightarrow> Map.empty | Some stages \<Rightarrow> stages)(stage \<mapsto> v))\<rparr>"

definition round_of :: "pbft \<Rightarrow> string \<Rightarrow> consensus_round" where
  "round_of s key = (case omap_lookup (m_rounds s) key of None \<Rightarrow> default_round | Some r \<Rightarrow> r)"

definition put_round :: "string \<Rightarrow> consensus_round \<Rightarrow> pbft \<Rightarrow> pbft" where
  "put_round key r s = s\<lparr>m_rounds := omap_insert key r (m_rounds s)\<rparr>"

text \<open>The end of \<open>advance_state\<close>, from the lookup of the round on: the vote of the sender
  is already in the registry.\<close>

definition count_vote :: "time \<Rightarrow> string \<Rightarrow> p2p_message \<Rightarrow> string \<Rightarrow> pbft \<Rightarrow> pbft_stage \<times> pbft" where
  "count_vote now key msg msg_hash s =
     (let stage_voters = voters s key (stage_str msg);
          r = round_of s key;
          r = (if round_state r = IDLE
               then r\<lparr>started_at := now, round_view := msg_view msg,
                      pre_prepare_hash := msg_hash, evidence_key := key\<rparr>
               else r)
      in if round_view r \<noteq> msg_view msg then (IDLE, put_round key r s)
         else
           let r = r\<lparr>last_activity := now\<rparr>;
               quorum = quorum_size s;
               current_votes = int (card stage_voters)
           in if (stage_str msg = ''PRE_PREPARE'' \<or> stage_str msg = ''BAN_PEER'') \<and> round_state r = IDLE
              then (PREPARE, put_round key (r\<lparr>round_state := PREPARE\<rparr>) s)
              else if stage_str msg = ''PREPARE'' \<and> current_votes \<ge> quorum \<and> round_state r = PREPARE
              then (COMMIT, put_round key (r\<lparr>round_state := COMMIT\<rparr>) s)
              else if stage_str msg = ''COMMIT'' \<and> current_votes \<ge> quorum \<and> round_state r = COMMIT
              then if \<not> verify_quorum_intersection s key
                   then (IDLE, put_round key r
                                 (set_voters key (stage_str msg) (stage_voters - {sender_id msg}) s))
                   else (EXECUTED, put_round key (r\<lparr>round_state := EXECUTED\<rparr>) s)
              else (IDLE, put_round key r s))"

definition register_vote :: "time \<Rightarrow> string \<Rightarrow> p2p_message \<Rightarrow> string \<Rightarrow> pbft \<Rightarrow> pbft_stage \<times> pbft" where
  "register_vote now key msg msg_hash s =
     (let stage_voters = voters s key (stage_str msg) in
      if sender_id msg \<in> stage_voters then (IDLE, set_voters key (stage_str msg) stage_voters s)
      else count_vote now key msg msg_hash
             (set_voters key (stage_str msg) (insert (sender_id msg) stage_voters) s))"

definition advance_state ::
  "openssl \<Rightarrow> (string set \<Rightarrow> string set) \<Rightarrow> time \<Rightarrow> p2p_message \<Rightarrow> pbft \<Rightarrow> pbft_stage \<times> pbft" where
  "advance_state L evict now msg s =
     (if sender_id msg \<in> m_banned_peers s then (IDLE, s)
      else if m_peer_public_keys s (sender_id msg) = None then (IDLE, s)
      else
        let s = cleanup_stale_rounds now s;
            (ok, s) = check_rate_limit now (sender_id msg) s
        in if \<not> ok then (IDLE, record_failure now (sender_id msg) s)
           else
             let msg_hash = compute_message_hash L msg;
                 round_key = round_key_of L (evidence_json msg) (target_id msg)
             in if msg_hash \<in> m_seen_messages s then (IDLE, s)
                else register_vote now round_key msg msg_hash
                       (detect_equivocation now msg msg_hash (see_message evict msg_hash s)))"


section \<open>Queries and the view\<close>

definition needs_view_change :: "openssl \<Rightarrow> time \<Rightarrow> string \<Rightarrow> string \<Rightarrow> pbft \<Rightarrow> bool" where
  "needs_view_change L now evidence target s =
     (case omap_lookup (m_rounds s) (round_key_of L evidence target) of
        None \<Rightarrow> False
      | Some r \<Rightarrow> dsecs (now - last_activity r) > VIEW_CHANGE_TIMEOUT_SEC \<and> round_state r \<noteq> EXECUTED)"

definition set_round_commit_sig :: "string \<Rightarrow> string \<Rightarrow> pbft \<Rightarrow> pbft" where
  "set_round_commit_sig key sig s = put_round key ((round_of s key)\<lparr>commit_signature := sig\<rparr>) s"

definition get_round_commit_sig :: "pbft \<Rightarrow> string \<Rightarrow> string" where
  "get_round_commit_sig s key =
     (case omap_lookup (m_rounds s) key of None \<Rightarrow> [] | Some r \<Rightarrow> commit_signature r)"

definition get_equivocation_evidence :: "pbft \<Rightarrow> equivocation_evidence list" where
  "get_equivocation_evidence s = map snd (m_equivocation_history s)"

definition get_chain_state_hash :: "openssl \<Rightarrow> pbft \<Rightarrow> string" where
  "get_chain_state_hash L s =
     (if m_last_confirmed_hash s = [] then m_genesis_hash s
      else sha256_hex L (m_last_confirmed_hash s @ ''|'' @ int_str (m_total_nodes s) @ ''|''
             @ int_str (m_current_view s)))"

definition get_last_sent_hash :: "pbft \<Rightarrow> node_id \<Rightarrow> string" where
  "get_last_sent_hash s node =
     (case m_message_history s node of
        None \<Rightarrow> m_genesis_hash s
      | Some history \<Rightarrow> if history = [] then m_genesis_hash s else snd (last history))"

definition advance_view :: "pbft \<Rightarrow> pbft" where
  "advance_view s = s\<lparr>m_current_view := m_current_view s + 1\<rparr>"


section \<open>Histories of calls\<close>

text \<open>The calls of the public interface that change the state, and the states a sequence of them
  reaches from a constructor call.\<close>

datatype pbft_op =
    RegisterPeerKey node_id pem
  | SetMyIdentity node_id
  | SetPrivateKey "pkey option"
  | VerifyMessage time p2p_message
  | AdvanceState time p2p_message
  | SetRoundCommitSig string string
  | SetPeerCount int
  | IncrementPeers
  | DecrementPeers
  | PrunePeer node_id
  | DrainRecentBans
  | BanPeerLocal node_id
  | ProposeBan node_id
  | TryIncrementPeers node_id
  | AdvanceView

fun pbft_apply :: "openssl \<Rightarrow> (string set \<Rightarrow> string set) \<Rightarrow> pbft_op \<Rightarrow> pbft \<Rightarrow> pbft" where
  "pbft_apply L evict (RegisterPeerKey n p) s = register_peer_key L n p s"
| "pbft_apply L evict (SetMyIdentity n) s = set_my_identity n s"
| "pbft_apply L evict (SetPrivateKey k) s = set_private_key k s"
| "pbft_apply L evict (VerifyMessage now msg) s = snd (verify_message L now msg s)"
| "pbft_apply L evict (AdvanceState now msg) s = snd (advance_state L evict now msg s)"
| "pbft_apply L evict (SetRoundCommitSig k sig) s = set_round_commit_sig k sig s"
| "pbft_apply L evict (SetPeerCount n) s = set_peer_count n s"
| "pbft_apply L evict IncrementPeers s = increment_peers s"
| "pbft_apply L evict DecrementPeers s = decrement_peers s"
| "pbft_apply L evict (PrunePeer n) s = prune_peer n s"
| "pbft_apply L evict DrainRecentBans s = snd (drain_recent_bans s)"
| "pbft_apply L evict (BanPeerLocal n) s = ban_peer_local n s"
| "pbft_apply L evict (ProposeBan n) s = snd (propose_ban n s)"
| "pbft_apply L evict (TryIncrementPeers n) s = snd (try_increment_peers n s)"
| "pbft_apply L evict AdvanceView s = advance_view s"

inductive pbft_reach :: "openssl \<Rightarrow> (string set \<Rightarrow> string set) \<Rightarrow> pbft \<Rightarrow> bool"
  for L evict where
  start: "pbft_reach L evict (new_pbft L rate_window rate_max total_nodes)"
| step: "pbft_reach L evict s \<Longrightarrow> pbft_reach L evict (pbft_apply L evict op s)"

definition pbft_run :: "openssl \<Rightarrow> (string set \<Rightarrow> string set) \<Rightarrow> pbft_op list \<Rightarrow> pbft \<Rightarrow> pbft" where
  "pbft_run L evict ops s = fold (pbft_apply L evict) ops s"

lemma pbft_reach_run: "pbft_reach L evict s \<Longrightarrow> pbft_reach L evict (pbft_run L evict ops s)"
  unfolding pbft_run_def by (induction ops arbitrary: s) (auto intro: pbft_reach.step)


section \<open>What each step leaves alone\<close>

text \<open>A peer with full trust keeps it, which spares the evaluation of the rounding.\<close>

lemma record_success_full [code]:
  "record_success node_id s =
     (let trust = trust_of s node_id in
      s\<lparr>m_node_trust := (m_node_trust s)(node_id \<mapsto>
          trust\<lparr>consecutive_failures :=
                   (if consecutive_failures trust > 0 then 0 else consecutive_failures trust),
                successful_rounds := successful_rounds trust + 1,
                trust_score := (if trust_score trust = 1 then 1 else min 1 (fadd (trust_score trust) (fl (5 / 100))))\<rparr>)\<rparr>)"
proof -
  have "1 \<le> fl (1 + fl (5 / 100))" by (rule fl_ge_one) (use fl_nonneg [of "5/100"] fl_le_one [of "5/100"] in simp_all)
  then show ?thesis by (simp add: record_success_def Let_def)
qed

lemma cleanup_loop_frame [simp]:
  "m_peer_public_keys (cleanup_loop now rs s) = m_peer_public_keys s"
  "m_banned_peers (cleanup_loop now rs s) = m_banned_peers s"
  "m_node_trust (cleanup_loop now rs s) = m_node_trust s"
  "m_message_history (cleanup_loop now rs s) = m_message_history s"
  "m_equivocation_history (cleanup_loop now rs s) = m_equivocation_history s"
  "m_seen_messages (cleanup_loop now rs s) = m_seen_messages s"
  "m_rate_limits (cleanup_loop now rs s) = m_rate_limits s"
  "m_rate_max (cleanup_loop now rs s) = m_rate_max s"
  "m_rate_window_sec (cleanup_loop now rs s) = m_rate_window_sec s"
  "m_total_nodes (cleanup_loop now rs s) = m_total_nodes s"
  "m_genesis_hash (cleanup_loop now rs s) = m_genesis_hash s"
  "m_registered_peers (cleanup_loop now rs s) = m_registered_peers s"
  by (induction now rs s rule: cleanup_loop.induct) auto

lemma check_rate_limit_eq:
  "check_rate_limit now n s = (b, s') \<Longrightarrow> \<exists>ts. s' = s\<lparr>m_rate_limits := (m_rate_limits s)(n \<mapsto> ts)\<rparr>"
  by (auto simp: check_rate_limit_def Let_def split: if_splits)

lemma voters_set_voters [simp]:
  "reg_voters (m_vote_registry (set_voters key stage v s)) key' stage' =
     (if key' = key \<and> stage' = stage then v else voters s key' stage')"
  by (auto simp: reg_voters_def set_voters_def split: option.splits)

lemma reg_voters_erase_voter [simp]:
  "reg_voters (erase_voter n reg) key stage = reg_voters reg key stage - {n}"
  by (auto simp: reg_voters_def erase_voter_def split: option.splits)

lemma reg_voters_erase_key [simp]:
  "reg_voters (reg(key := None)) key' stage = (if key' = key then {} else reg_voters reg key' stage)"
  by (simp add: reg_voters_def)

lemma set_voters_frame [simp]:
  "m_peer_public_keys (set_voters key stage v s) = m_peer_public_keys s"
  "m_rounds (set_voters key stage v s) = m_rounds s"
  "m_node_trust (set_voters key stage v s) = m_node_trust s"
  "m_message_history (set_voters key stage v s) = m_message_history s"
  "m_equivocation_history (set_voters key stage v s) = m_equivocation_history s"
  "m_seen_messages (set_voters key stage v s) = m_seen_messages s"
  "m_rate_limits (set_voters key stage v s) = m_rate_limits s"
  "m_rate_max (set_voters key stage v s) = m_rate_max s"
  "m_banned_peers (set_voters key stage v s) = m_banned_peers s"
  "quorum_size (set_voters key stage v s) = quorum_size s"
  "round_of (set_voters key stage v s) = round_of s"
  by (simp_all add: set_voters_def quorum_size_def round_of_def fun_eq_iff)

lemma round_of_put_round [simp]:
  "omap_inv (m_rounds s) \<Longrightarrow> round_of (put_round key r s) key' = (if key' = key then r else round_of s key')"
  by (simp add: round_of_def put_round_def)

end
