(* ===== verification/PBFT_Inv.thy ===== *)
theory PBFT_Inv
  imports PBFT
begin

text \<open>
  The invariant of the consensus state and its preservation by every call of the interface:
  containers stay ordered and within their caps, trust scores stay in the unit interval, rounds are
  only in the four stages of the machine, and every counted vote, every stored history and every
  trust entry belongs to a peer whose key is registered at that moment.
\<close>


section \<open>Invariant\<close>

definition trust_ok :: "node_trust_score \<Rightarrow> bool" where
  "trust_ok t \<longleftrightarrow> 0 \<le> trust_score t \<and> trust_score t \<le> 1 \<and> 0 \<le> consecutive_failures t"

definition round_ok :: "consensus_round \<Rightarrow> bool" where
  "round_ok r \<longleftrightarrow> round_state r \<in> {IDLE, PREPARE, COMMIT, EXECUTED}"

definition rounds_inv :: "(string, consensus_round) omap \<Rightarrow> bool" where
  "rounds_inv rs \<longleftrightarrow> omap_inv rs \<and> (\<forall>k r. omap_lookup rs k = Some r \<longrightarrow> round_ok r)"

definition votes_inv :: "(node_id \<rightharpoonup> pkey option) \<Rightarrow> (string \<rightharpoonup> (string \<rightharpoonup> node_id set)) \<Rightarrow> bool" where
  "votes_inv keys reg \<longleftrightarrow>
     (\<forall>k st. finite (reg_voters reg k st) \<and> reg_voters reg k st \<subseteq> dom keys)"

definition history_inv :: "(node_id \<rightharpoonup> pkey option) \<Rightarrow> (node_id \<rightharpoonup> (uint64, string) omap) \<Rightarrow> bool" where
  "history_inv keys hist \<longleftrightarrow> dom hist \<subseteq> dom keys
     \<and> (\<forall>n h. hist n = Some h \<longrightarrow> omap_inv h \<and> length h \<le> MAX_MSG_HISTORY_PER_SENDER)"

definition trust_inv :: "(node_id \<rightharpoonup> pkey option) \<Rightarrow> (node_id \<rightharpoonup> node_trust_score) \<Rightarrow> bool" where
  "trust_inv keys trust \<longleftrightarrow> dom trust = dom keys \<and> (\<forall>n t. trust n = Some t \<longrightarrow> trust_ok t)"

definition rates_inv :: "int \<Rightarrow> (node_id \<rightharpoonup> time list) \<Rightarrow> bool" where
  "rates_inv m rates \<longleftrightarrow> (\<forall>n ts. rates n = Some ts \<longrightarrow> int (length ts) \<le> cast_size_t m)"

definition seen_inv :: "string set \<Rightarrow> bool" where
  "seen_inv S \<longleftrightarrow> finite S \<and> card S \<le> MAX_SEEN_MESSAGES"

definition pbft_inv :: "pbft \<Rightarrow> bool" where
  "pbft_inv s \<longleftrightarrow>
     rounds_inv (m_rounds s) \<and> votes_inv (m_peer_public_keys s) (m_vote_registry s)
     \<and> history_inv (m_peer_public_keys s) (m_message_history s)
     \<and> trust_inv (m_peer_public_keys s) (m_node_trust s)
     \<and> rates_inv (m_rate_max s) (m_rate_limits s) \<and> seen_inv (m_seen_messages s)
     \<and> omap_inv (m_equivocation_history s)"

text \<open>The iterators of the eviction take the first half of the elements, in whatever order the
  container has them.\<close>

definition evicts_half :: "(string set \<Rightarrow> string set) \<Rightarrow> bool" where
  "evicts_half evict \<longleftrightarrow> (\<forall>S. finite S \<longrightarrow> evict S \<subseteq> S \<and> card (evict S) = card S div 2)"

definition evict_sorted :: "string set \<Rightarrow> string set" where
  "evict_sorted S = set (take (card S div 2) (sorted_list_of_set S))"

lemma evicts_half_sorted: "evicts_half evict_sorted"
  unfolding evicts_half_def evict_sorted_def
proof (intro allI impI)
  fix S :: "string set"
  assume "finite S"
  then show "set (take (card S div 2) (sorted_list_of_set S)) \<subseteq> S \<and>
      card (set (take (card S div 2) (sorted_list_of_set S))) = card S div 2"
    using set_take_subset [of "card S div 2" "sorted_list_of_set S"]
    by (simp add: distinct_card)
qed


section \<open>The parts\<close>

lemma trust_ok_default [simp]: "trust_ok default_trust"
  by (simp add: trust_ok_def default_trust_def)

lemma round_ok_default [simp]: "round_ok default_round"
  by (simp add: round_ok_def default_round_def)

lemma round_ok_round_of: "rounds_inv (m_rounds s) \<Longrightarrow> round_ok (round_of s k)"
  by (auto simp: rounds_inv_def round_of_def split: option.splits)

lemma rounds_inv_insert: "rounds_inv rs \<Longrightarrow> round_ok r \<Longrightarrow> rounds_inv (omap_insert k r rs)"
  by (auto simp: rounds_inv_def)

lemma rounds_inv_erase: "rounds_inv rs \<Longrightarrow> rounds_inv (omap_erase k rs)"
  by (auto simp: rounds_inv_def)

lemma trust_ok_trust_of: "trust_inv keys (m_node_trust s) \<Longrightarrow> trust_ok (trust_of s n)"
  by (auto simp: trust_inv_def trust_of_def split: option.splits)

lemma trust_inv_update: "trust_inv keys tr \<Longrightarrow> n \<in> dom keys \<Longrightarrow> trust_ok t \<Longrightarrow> trust_inv keys (tr(n \<mapsto> t))"
  by (auto simp: trust_inv_def)

lemma trust_inv_remove: "trust_inv keys tr \<Longrightarrow> trust_inv (keys(n := None)) (tr(n := None))"
  by (auto simp: trust_inv_def)

lemma history_inv_remove: "history_inv keys h \<Longrightarrow> history_inv (keys(n := None)) (h(n := None))"
  by (auto simp: history_inv_def)

lemma votes_inv_remove: "votes_inv keys reg \<Longrightarrow> votes_inv (keys(n := None)) (erase_voter n reg)"
  by (fastforce simp: votes_inv_def)

lemma keys_update:
  "votes_inv keys reg \<Longrightarrow> votes_inv (keys(n \<mapsto> k)) reg"
  "history_inv keys h \<Longrightarrow> history_inv (keys(n \<mapsto> k)) h"
  "trust_inv keys tr \<Longrightarrow> trust_ok t \<Longrightarrow> trust_inv (keys(n \<mapsto> k)) (tr(n \<mapsto> t))"
  by (fastforce simp: votes_inv_def history_inv_def trust_inv_def)+

lemma votes_inv_erase_key: "votes_inv keys reg \<Longrightarrow> votes_inv keys (reg(k := None))"
  by (auto simp: votes_inv_def)

lemma votes_inv_set_voters:
  "votes_inv keys (m_vote_registry s) \<Longrightarrow> finite v \<Longrightarrow> v \<subseteq> dom keys \<Longrightarrow>
   votes_inv keys (m_vote_registry (set_voters key stage v s))"
  by (auto simp: votes_inv_def)

lemma seen_inv_see_message:
  assumes "evicts_half evict" "seen_inv (m_seen_messages s)"
  shows "seen_inv (m_seen_messages (see_message evict h s))"
proof -
  let ?S = "insert h (m_seen_messages s)"
  have S: "finite ?S" "card ?S \<le> Suc MAX_SEEN_MESSAGES"
    using assms(2) by (auto simp: seen_inv_def card_insert_if)
  have e: "evict ?S \<subseteq> ?S" "card (evict ?S) = card ?S div 2"
    using assms(1) S(1) unfolding evicts_half_def by blast+
  have "card (?S - evict ?S) = card ?S - card ?S div 2"
    using card_Diff_subset [OF finite_subset [OF e(1) S(1)] e(1)] e(2) by simp
  with S show ?thesis
    by (auto simp: seen_inv_def see_message_def Let_def MAX_SEEN_MESSAGES_def)
qed


section \<open>Preservation\<close>

lemma pbft_inv_new: "pbft_inv (new_pbft L rw rm n)"
  by (simp add: pbft_inv_def new_pbft_def rounds_inv_def votes_inv_def history_inv_def trust_inv_def
      rates_inv_def seen_inv_def reg_voters_def)

lemma pbft_inv_register: "pbft_inv s \<Longrightarrow> pbft_inv (register_peer_key L n p s)"
  by (simp add: pbft_inv_def register_peer_key_def keys_update)

lemma pbft_inv_prune: "pbft_inv s \<Longrightarrow> pbft_inv (prune_peer_locked n s)"
  by (simp add: pbft_inv_def prune_peer_locked_def trust_inv_remove history_inv_remove votes_inv_remove)

lemma pbft_inv_bans:
  "pbft_inv s \<Longrightarrow> pbft_inv (s\<lparr>m_banned_peers := B, m_recent_bans := R\<rparr>)"
  "pbft_inv s \<Longrightarrow> pbft_inv (s\<lparr>m_banned_peers := B\<rparr>)"
  "pbft_inv s \<Longrightarrow> pbft_inv (s\<lparr>m_recent_bans := R\<rparr>)"
  by (simp_all add: pbft_inv_def)

lemma trust_ok_failure:
  "trust_ok t \<Longrightarrow> trust_ok (t\<lparr>consecutive_failures := consecutive_failures t + 1,
      trust_score := max 0 (fsub (trust_score t) (fl d)), last_failure := now\<rparr>)" if "0 \<le> d"
  using that fl_le_one [of "trust_score t - fl d"] fl_nonneg [of d] by (auto simp: trust_ok_def)

lemma pbft_inv_record_failure:
  assumes "pbft_inv s" "n \<in> dom (m_peer_public_keys s)"
  shows "pbft_inv (record_failure now n s)"
proof -
  let ?t = "(trust_of s n)\<lparr>consecutive_failures := consecutive_failures (trust_of s n) + 1,
              trust_score := max 0 (fsub (trust_score (trust_of s n)) (fl (1 / 10))), last_failure := now\<rparr>"
  have "trust_ok ?t"
    using assms trust_ok_trust_of by (intro trust_ok_failure) (auto simp: pbft_inv_def)
  with assms have "pbft_inv (s\<lparr>m_node_trust := (m_node_trust s)(n \<mapsto> ?t)\<rparr>)"
    by (simp add: pbft_inv_def trust_inv_update)
  then show ?thesis
    using pbft_inv_bans [of "s\<lparr>m_node_trust := (m_node_trust s)(n \<mapsto> ?t)\<rparr>"]
    by (simp add: record_failure_def Let_def pbft_inv_prune)
qed

lemma pbft_inv_record_success:
  assumes "pbft_inv s" "n \<in> dom (m_peer_public_keys s)"
  shows "pbft_inv (record_success n s)"
proof -
  have "trust_ok (trust_of s n)" using assms trust_ok_trust_of by (auto simp: pbft_inv_def)
  then show ?thesis
    using assms fl_nonneg [of "trust_score (trust_of s n) + fl (5 / 100)"] fl_nonneg [of "5 / 100"]
    by (auto simp: pbft_inv_def record_success_def Let_def trust_ok_def intro!: trust_inv_update)
qed

lemma pbft_inv_record_equivocation:
  assumes "pbft_inv s" "n \<in> dom (m_peer_public_keys s)"
  shows "pbft_inv (record_equivocation now n s)"
proof -
  have "trust_ok (trust_of s n)" using assms trust_ok_trust_of by (auto simp: pbft_inv_def)
  then show ?thesis
    using assms fl_le_one [of "trust_score (trust_of s n) - fl (3 / 10)"] fl_nonneg [of "3 / 10"]
    by (auto simp: pbft_inv_def record_equivocation_def Let_def trust_ok_def intro!: trust_inv_update)
qed

lemma pbft_inv_verify_message: "pbft_inv s \<Longrightarrow> pbft_inv (snd (verify_message L now msg s))"
  by (auto simp: verify_message_def split: option.splits
      intro: pbft_inv_record_failure pbft_inv_record_success)

lemma pbft_inv_cleanup_loop: "pbft_inv s \<Longrightarrow> pbft_inv (cleanup_loop now rs s)"
  by (induction now rs s rule: cleanup_loop.induct)
     (auto simp: pbft_inv_def rounds_inv_erase votes_inv_erase_key)

lemma pbft_inv_check_rate_limit:
  assumes "pbft_inv s" "check_rate_limit now n s = (b, s')"
  shows "pbft_inv s'"
proof -
  let ?old = "case m_rate_limits s n of None \<Rightarrow> [] | Some ts \<Rightarrow> ts"
  let ?ts = "filter (\<lambda>ts. \<not> dsecs (now - ts) \<ge> m_rate_window_sec s) ?old"
  have rates: "rates_inv (m_rate_max s) (m_rate_limits s)" using assms by (simp add: pbft_inv_def)
  have "int (length ?old) \<le> cast_size_t (m_rate_max s)"
    using rates by (auto simp: rates_inv_def cast_size_t_def split: option.splits)
  moreover have "length ?ts \<le> length ?old" by (rule length_filter_le)
  ultimately have "int (length ?ts) \<le> cast_size_t (m_rate_max s)" by linarith
  with rates assms show ?thesis
    unfolding check_rate_limit_def Let_def
    by (auto simp: pbft_inv_def rates_inv_def split: if_splits)
qed

lemma record_equivocation_frame [simp]:
  "m_peer_public_keys (record_equivocation now n s) = m_peer_public_keys s"
  "m_message_history (record_equivocation now n s) = m_message_history s"
  "m_vote_registry (record_equivocation now n s) = m_vote_registry s"
  "m_rounds (record_equivocation now n s) = m_rounds s"
  "m_seen_messages (record_equivocation now n s) = m_seen_messages s"
  "m_banned_peers (record_equivocation now n s) = m_banned_peers s"
  "m_total_nodes (record_equivocation now n s) = m_total_nodes s"
  by (simp_all add: record_equivocation_def Let_def)

lemma pbft_inv_detect_equivocation:
  assumes "pbft_inv s" "sender_id msg \<in> dom (m_peer_public_keys s)"
  shows "pbft_inv (detect_equivocation now msg h s)"
proof -
  define hist where "hist = (case m_message_history s (sender_id msg) of None \<Rightarrow> [] | Some h \<Rightarrow> h)"
  define noted where "noted h' = record_equivocation now (sender_id msg)
      (s\<lparr>m_equivocation_history := omap_insert (sender_id msg)
          \<lparr>eq_node_id = sender_id msg, eq_sequence_number = sequence_number msg,
           eq_view = msg_view msg, hash1 = h', hash2 = h, detected_at = now\<rparr>
          (m_equivocation_history s)\<rparr>)" for h'
  define s1 where "s1 = (case omap_lookup hist (sequence_number msg) of None \<Rightarrow> s
      | Some h' \<Rightarrow> if h' \<noteq> h then noted h' else s)"
  have "omap_inv hist"
    using assms by (auto simp: hist_def pbft_inv_def history_inv_def split: option.splits)
  moreover have "pbft_inv (noted h')" for h'
    unfolding noted_def using assms by (intro pbft_inv_record_equivocation) (simp_all add: pbft_inv_def)
  then have "pbft_inv s1"
    using assms by (simp add: s1_def split: option.split)
  moreover have "m_peer_public_keys s1 = m_peer_public_keys s" "m_message_history s1 = m_message_history s"
    by (simp_all add: s1_def noted_def split: option.split)
  ultimately have "pbft_inv (s1\<lparr>m_message_history := (m_message_history s1)(sender_id msg \<mapsto>
      evict_history (omap_insert (sequence_number msg) h hist))\<rparr>)"
    using assms(2) by (auto simp: pbft_inv_def history_inv_def evict_history_def)
  then show ?thesis
    unfolding detect_equivocation_def Let_def s1_def hist_def noted_def .
qed


lemma pbft_inv_put_round: "pbft_inv s \<Longrightarrow> round_ok r \<Longrightarrow> pbft_inv (put_round k r s)"
  by (simp add: pbft_inv_def put_round_def rounds_inv_insert)

lemma pbft_inv_set_voters:
  "pbft_inv s \<Longrightarrow> finite v \<Longrightarrow> v \<subseteq> dom (m_peer_public_keys s) \<Longrightarrow> pbft_inv (set_voters k st v s)"
  by (simp add: pbft_inv_def votes_inv_set_voters)

lemma pbft_inv_voters:
  assumes "pbft_inv s"
  shows "finite (voters s k st)" "voters s k st \<subseteq> dom (m_peer_public_keys s)"
  using assms by (auto simp: pbft_inv_def votes_inv_def)

lemma pbft_inv_round_ok: "pbft_inv s \<Longrightarrow> round_ok (round_of s k)"
  by (simp add: pbft_inv_def round_ok_round_of)

lemma pbft_inv_count_vote: "pbft_inv s \<Longrightarrow> pbft_inv (snd (count_vote now key msg h s))"
  using pbft_inv_round_ok [of s key] pbft_inv_voters [of s key "stage_str msg"]
  by (auto simp: count_vote_def Let_def round_ok_def intro!: pbft_inv_put_round pbft_inv_set_voters)

lemma pbft_inv_register_vote:
  "pbft_inv s \<Longrightarrow> sender_id msg \<in> dom (m_peer_public_keys s) \<Longrightarrow>
   pbft_inv (snd (register_vote now key msg h s))"
  using pbft_inv_voters [of s key "stage_str msg"]
  by (auto simp: register_vote_def Let_def intro!: pbft_inv_count_vote pbft_inv_set_voters)

lemma see_message_frame [simp]:
  "m_peer_public_keys (see_message evict h s) = m_peer_public_keys s"
  "m_message_history (see_message evict h s) = m_message_history s"
  "m_vote_registry (see_message evict h s) = m_vote_registry s"
  "m_rounds (see_message evict h s) = m_rounds s"
  "m_banned_peers (see_message evict h s) = m_banned_peers s"
  "m_total_nodes (see_message evict h s) = m_total_nodes s"
  by (simp_all add: see_message_def Let_def)

lemma detect_equivocation_frame [simp]:
  "m_peer_public_keys (detect_equivocation now msg h s) = m_peer_public_keys s"
  "m_vote_registry (detect_equivocation now msg h s) = m_vote_registry s"
  "m_rounds (detect_equivocation now msg h s) = m_rounds s"
  "m_seen_messages (detect_equivocation now msg h s) = m_seen_messages s"
  "m_banned_peers (detect_equivocation now msg h s) = m_banned_peers s"
  "m_total_nodes (detect_equivocation now msg h s) = m_total_nodes s"
  by (simp_all add: detect_equivocation_def Let_def split: option.split)

lemma pbft_inv_see_message:
  "evicts_half evict \<Longrightarrow> pbft_inv s \<Longrightarrow> pbft_inv (see_message evict h s)"
  using seen_inv_see_message [of evict s h]
  by (simp add: pbft_inv_def) (simp add: see_message_def Let_def)

lemma pbft_inv_cleanup: "pbft_inv s \<Longrightarrow> pbft_inv (cleanup_stale_rounds now s)"
  by (simp add: cleanup_stale_rounds_def pbft_inv_cleanup_loop)

lemma pbft_inv_advance_state:
  assumes "evicts_half evict" "pbft_inv s"
  shows "pbft_inv (snd (advance_state L evict now msg s))"
proof (cases "m_peer_public_keys s (sender_id msg)")
  case (Some key)
  obtain ok s1 where rl: "check_rate_limit now (sender_id msg) (cleanup_stale_rounds now s) = (ok, s1)"
    by fastforce
  then have inv: "pbft_inv s1"
    using pbft_inv_check_rate_limit pbft_inv_cleanup [OF assms(2)] by blast
  have "m_peer_public_keys s1 = m_peer_public_keys s"
    using check_rate_limit_eq [OF rl] by (auto simp: cleanup_stale_rounds_def)
  then have "sender_id msg \<in> dom (m_peer_public_keys s1)"
    using Some by auto
  with inv assms rl Some show ?thesis
    by (simp add: advance_state_def Let_def pbft_inv_record_failure pbft_inv_register_vote
        pbft_inv_detect_equivocation pbft_inv_see_message)
qed (use assms in \<open>simp add: advance_state_def\<close>)

lemmas pbft_inv_ops =
  pbft_inv_register pbft_inv_verify_message pbft_inv_advance_state pbft_inv_prune pbft_inv_bans

lemma pbft_inv_apply:
  assumes "evicts_half evict" "pbft_inv s"
  shows "pbft_inv (pbft_apply L evict op s)"
proof (cases op)
  case (SetRoundCommitSig k sig)
  then show ?thesis
    using assms pbft_inv_round_ok [of s k]
    by (auto simp: set_round_commit_sig_def round_ok_def intro!: pbft_inv_put_round)
qed (use assms in \<open>simp_all add: pbft_inv_ops prune_peer_def ban_peer_local_def ban_peer_locked_def
       drain_recent_bans_def propose_ban_def try_increment_peers_def set_my_identity_def
       set_private_key_def set_peer_count_def increment_peers_def decrement_peers_def advance_view_def\<close>,
     (simp_all add: pbft_inv_def)?)

lemma pbft_inv_reach:
  assumes "evicts_half evict"
  shows "pbft_reach L evict s \<Longrightarrow> pbft_inv s"
  by (induction rule: pbft_reach.induct) (auto intro: pbft_inv_new pbft_inv_apply assms)

end
