(* ===== verification/PBFT_Demo.thy ===== *)
theory PBFT_Demo
  imports PBFT_Inv "HOL-Library.Code_Target_Numeral"
begin

text \<open>
  A four-node mesh on which the statements about the consensus machine are instantiated: the keys of
  the peers \<open>A\<close> to \<open>D\<close> are registered, and a proposal by \<open>A\<close> collects the votes
  that bring its round to the brink of execution.
\<close>

definition demo_peers :: pbft where
  "demo_peers = pbft_run demo_ssl evict_sorted
     [RegisterPeerKey ''A'' ''keyA'', RegisterPeerKey ''B'' ''keyB'',
      RegisterPeerKey ''C'' ''keyC'', RegisterPeerKey ''D'' ''keyD'']
     (new_pbft demo_ssl None None 4)"

definition demo_msg :: "string \<Rightarrow> node_id \<Rightarrow> uint64 \<Rightarrow> p2p_message" where
  "demo_msg stage sender seq =
     \<lparr>stage_str = stage, sender_id = sender, target_id = ''X'', evidence_json = ''e'',
      signature = [], prev_message_hash = [], sequence_number = seq, msg_view = 0\<rparr>"

definition demo_votes :: "pbft_op list" where
  "demo_votes =
     [AdvanceState 0 (demo_msg ''PRE_PREPARE'' ''A'' 1),
      AdvanceState 0 (demo_msg ''PREPARE'' ''A'' 2), AdvanceState 0 (demo_msg ''PREPARE'' ''B'' 1),
      AdvanceState 0 (demo_msg ''PREPARE'' ''C'' 1),
      AdvanceState 0 (demo_msg ''COMMIT'' ''A'' 3), AdvanceState 0 (demo_msg ''COMMIT'' ''B'' 2)]"

definition demo_brink :: pbft where
  "demo_brink = pbft_run demo_ssl evict_sorted demo_votes demo_peers"

text \<open>A node that stored the first message of \<open>A\<close> and lost the second one, and the third
  message of \<open>A\<close>, chained and signed as it should be.\<close>

definition demo_gap :: pbft where
  "demo_gap = demo_peers\<lparr>m_message_history := [''A'' \<mapsto> [(1, ''hash1'')]]\<rparr>"

definition demo_late :: p2p_message where
  "demo_late = (demo_msg ''PREPARE'' ''A'' 3)\<lparr>prev_message_hash := ''hash2'',
     signature := ''keyA#PREPARE|X|e|3|0|hash2''\<rparr>"

abbreviation demo_advance :: "p2p_message \<Rightarrow> pbft \<Rightarrow> pbft_stage \<times> pbft" where
  "demo_advance msg s \<equiv> advance_state demo_ssl evict_sorted 0 msg s"

lemma demo_peers_reach: "pbft_reach demo_ssl evict_sorted demo_peers"
  unfolding demo_peers_def by (intro pbft_reach_run pbft_reach.start)

lemma demo_inv [simp]: "pbft_inv demo_peers" "pbft_inv demo_brink"
  unfolding demo_brink_def
  by (rule pbft_inv_reach [OF evicts_half_sorted demo_peers_reach]
        pbft_inv_reach [OF evicts_half_sorted pbft_reach_run [OF demo_peers_reach]])+

lemma demo_peers_simps [simp]:
  "m_banned_peers demo_peers = {}"
  "m_peer_public_keys demo_peers =
     [''A'' \<mapsto> Some ''keyA'', ''B'' \<mapsto> Some ''keyB'', ''C'' \<mapsto> Some ''keyC'', ''D'' \<mapsto> Some ''keyD'']"
  "consecutive_failures (trust_of demo_peers ''A'') = 0"
  "m_message_history demo_peers = Map.empty"
  "m_total_nodes demo_peers = 4"
  by (simp_all add: demo_peers_def pbft_run_def register_peer_key_def new_pbft_def trust_of_def
      default_trust_def)

lemma demo_msg_simps [simp]:
  "stage_str (demo_msg st n i) = st" "sender_id (demo_msg st n i) = n"
  "target_id (demo_msg st n i) = ''X''" "evidence_json (demo_msg st n i) = ''e''"
  "signature (demo_msg st n i) = []" "prev_message_hash (demo_msg st n i) = []"
  "sequence_number (demo_msg st n i) = i" "msg_view (demo_msg st n i) = 0"
  by (simp_all add: demo_msg_def)

lemma demo_executes: "fst (demo_advance (demo_msg ''COMMIT'' ''C'' 2) demo_brink) = EXECUTED"
  unfolding demo_brink_def by code_simp

end
