(* ===== verification/Rate_Limit.thy ===== *)
theory Rate_Limit
  imports Prelude
begin

text \<open>
  The contract the rate limiters of the node share, as a locale: the consensus machine limits each
  sender, the peer manager each address, the control socket and the metrics endpoint their clients.
  Whatever the window scheme, a burst of calls at one instant gets at most as many acceptances as
  the cap allows.
\<close>

locale rate_limiter =
  fixes valid :: "'s \<Rightarrow> bool"
    and check :: "time \<Rightarrow> 's \<Rightarrow> bool \<times> 's"
    and used :: "'s \<Rightarrow> int"
    and cap :: "'s \<Rightarrow> int"
  assumes valid_check: "valid s \<Longrightarrow> valid (snd (check t s))"
    and cap_const: "valid s \<Longrightarrow> cap (snd (check t s)) = cap s"
    and used_nonneg: "0 \<le> used s"
    and within: "valid s \<Longrightarrow> used s \<le> cap s \<Longrightarrow> used (snd (check t s)) \<le> cap s"
    and accepted_counts: "valid s \<Longrightarrow> fst (check t s) \<Longrightarrow> 1 \<le> used (snd (check t s))"
    and again: "valid s \<Longrightarrow> used (snd (check t (snd (check t s)))) =
          (if fst (check t (snd (check t s))) then used (snd (check t s)) + 1 else used (snd (check t s)))"
begin

primrec burst :: "nat \<Rightarrow> time \<Rightarrow> 's \<Rightarrow> int \<times> 's" where
  "burst 0 t s = (0, s)"
| "burst (Suc k) t s =
     (let (a, s1) = burst k t s; (ok, s2) = check t s1 in (if ok then a + 1 else a, s2))"

lemma burst_valid: "valid s \<Longrightarrow> valid (snd (burst k t s))"
  by (induction k) (auto simp: Let_def split_beta valid_check)

lemma burst_cap: "valid s \<Longrightarrow> cap (snd (burst k t s)) = cap s"
  by (induction k) (auto simp: Let_def split_beta cap_const burst_valid)

lemma burst_within: "valid s \<Longrightarrow> used s \<le> cap s \<Longrightarrow> used (snd (burst k t s)) \<le> cap s"
proof (induction k)
  case (Suc k)
  then have "used (snd (burst k t s)) \<le> cap (snd (burst k t s))" by (simp add: burst_cap)
  from within [OF burst_valid this] Suc.prems(1) show ?case
    by (simp add: Let_def split_beta burst_cap)
qed simp

lemma burst_accepted:
  assumes "valid s"
  shows "fst (burst (Suc k) t s) \<le> used (snd (burst (Suc k) t s))"
proof (induction k)
  case 0
  show ?case using accepted_counts [OF assms, of t] used_nonneg by (simp add: Let_def split_beta)
next
  case (Suc k)
  have "snd (burst (Suc k) t s) = snd (check t (snd (burst k t s)))"
    by (simp add: Let_def split_beta)
  then show ?case
    using Suc again [OF burst_valid [OF assms], of t k t]
    by (simp only: burst.simps(2) [of "Suc k"] Let_def split_beta fst_conv snd_conv split: if_split) simp
qed

lemma burst_bounded:
  assumes "valid s" "used s \<le> cap s"
  shows "fst (burst k t s) \<le> cap s"
proof (cases k)
  case 0
  then show ?thesis using assms(2) used_nonneg [of s] by simp
next
  case (Suc j)
  then show ?thesis using burst_accepted [OF assms(1), of j t] burst_within [OF assms, of k t] by simp
qed

end

end
