(* ===== verification/PBFT_Rate.thy ===== *)
theory PBFT_Rate
  imports PBFT_Demo Rate_Limit
begin

text \<open>
  The sliding rate window of \<open>PBFTConsensus::check_rate_limit\<close>: it meets the contract of a
  rate limiter, and over any sequence of calls no window holds more than the configured number of
  accepted messages.
\<close>

definition rate_times :: "node_id \<Rightarrow> pbft \<Rightarrow> time list" where
  "rate_times n s = (case m_rate_limits s n of None \<Rightarrow> [] | Some ts \<Rightarrow> ts)"

definition rate_live :: "time \<Rightarrow> node_id \<Rightarrow> pbft \<Rightarrow> time list" where
  "rate_live now n s = filter (\<lambda>ts. dsecs (now - ts) < m_rate_window_sec s) (rate_times n s)"

text \<open>The calls of one sender's check at a sequence of times: the times accepted, and the state
  left.\<close>

primrec rate_run :: "node_id \<Rightarrow> time list \<Rightarrow> pbft \<Rightarrow> time list \<times> pbft" where
  "rate_run n [] s = ([], s)"
| "rate_run n (t # ts) s =
     (let (ok, s1) = check_rate_limit t n s; (acc, s2) = rate_run n ts s1
      in (if ok then t # acc else acc, s2))"

text \<open>The window of the given number of seconds that ends at a time.\<close>

definition in_window :: "int \<Rightarrow> time \<Rightarrow> time \<Rightarrow> bool" where
  "in_window secs t a \<longleftrightarrow> t - secs * 1000000000 < a \<and> a \<le> t"

lemma check_rate_limit_live:
  "check_rate_limit now n s =
     (if int (length (rate_live now n s)) \<ge> cast_size_t (m_rate_max s)
      then (False, s\<lparr>m_rate_limits := (m_rate_limits s)(n \<mapsto> rate_live now n s)\<rparr>)
      else (True, s\<lparr>m_rate_limits := (m_rate_limits s)(n \<mapsto> rate_live now n s @ [now])\<rparr>))"
  by (simp add: check_rate_limit_def rate_live_def rate_times_def Let_def not_le)

lemma rate_live_upd:
  "rate_live now n (s\<lparr>m_rate_limits := (m_rate_limits s)(n \<mapsto> ts)\<rparr>) =
     filter (\<lambda>ts. dsecs (now - ts) < m_rate_window_sec s) ts"
  by (simp add: rate_live_def rate_times_def)

lemma rate_live_idem:
  "filter (\<lambda>ts. dsecs (now - ts) < m_rate_window_sec s) (rate_live now n s) = rate_live now n s"
  by (simp add: rate_live_def)


interpretation pbft_rate: rate_limiter "\<lambda>s. 0 < m_rate_window_sec s" "\<lambda>t. check_rate_limit t n"
  "\<lambda>s. int (length (rate_times n s))" "\<lambda>s. cast_size_t (m_rate_max s)" for n
proof
  fix t s
  show "0 < m_rate_window_sec s \<Longrightarrow> 0 < m_rate_window_sec (snd (check_rate_limit t n s))"
    by (simp add: check_rate_limit_live)
  show "cast_size_t (m_rate_max (snd (check_rate_limit t n s))) = cast_size_t (m_rate_max s)"
    by (simp add: check_rate_limit_live)
  show "1 \<le> int (length (rate_times n (snd (check_rate_limit t n s))))" if "fst (check_rate_limit t n s)"
    using that by (simp add: check_rate_limit_live rate_times_def split: if_splits)
  have "length (rate_live t n s) \<le> length (rate_times n s)"
    by (simp add: rate_live_def)
  then show "int (length (rate_times n (snd (check_rate_limit t n s)))) \<le> cast_size_t (m_rate_max s)"
    if "int (length (rate_times n s)) \<le> cast_size_t (m_rate_max s)"
    using that by (simp add: check_rate_limit_live rate_times_def)
  assume w: "0 < m_rate_window_sec s"
  define s1 where "s1 = snd (check_rate_limit t n s)"
  have "rate_live t n s1 = rate_times n s1"
    using w unfolding s1_def check_rate_limit_live
    by (simp add: rate_live_upd rate_live_idem) (simp add: rate_times_def)
  then show "int (length (rate_times n (snd (check_rate_limit t n (snd (check_rate_limit t n s)))))) =
      (if fst (check_rate_limit t n (snd (check_rate_limit t n s)))
       then int (length (rate_times n (snd (check_rate_limit t n s)))) + 1
       else int (length (rate_times n (snd (check_rate_limit t n s)))))"
    unfolding s1_def [symmetric] check_rate_limit_live [of t n s1] by (simp add: rate_times_def)
qed simp


lemma not_in_window: "\<not> u \<le> t \<Longrightarrow> \<not> in_window w t u"
  by (simp add: in_window_def)

lemma rate_run_snoc:
  "rate_run n (ts @ [t]) s =
     (let (acc, s1) = rate_run n ts s; (ok, s2) = check_rate_limit t n s1
      in (if ok then acc @ [t] else acc, s2))"
  by (induction ts arbitrary: s) (auto simp: Let_def split_beta)

lemma rate_run_frame:
  "m_rate_window_sec (snd (rate_run n ts s)) = m_rate_window_sec s"
  "m_rate_max (snd (rate_run n ts s)) = m_rate_max s"
  by (induction ts arbitrary: s) (auto simp: Let_def split_beta check_rate_limit_live)

lemma rate_run_accepted_subset: "set (fst (rate_run n ts s)) \<subseteq> set ts"
  by (induction ts arbitrary: s) (auto simp: Let_def split_beta)

lemma rate_run_stored:
  assumes "sorted (ts @ [t])" "0 < m_rate_window_sec s" "m_rate_limits s n = None"
  shows "rate_live t n (snd (rate_run n ts s)) =
    filter (\<lambda>a. t - a < m_rate_window_sec s * 1000000000) (fst (rate_run n ts s))"
  using assms
proof (induction ts arbitrary: t rule: rev_induct)
  case Nil
  then show ?case by (simp add: rate_live_def rate_times_def)
next
  case (snoc u ts)
  let ?W = "m_rate_window_sec s * 1000000000"
  have IH: "rate_live u n (snd (rate_run n ts s)) = filter (\<lambda>a. u - a < ?W) (fst (rate_run n ts s))"
    using snoc by (intro snoc.IH) (auto simp: sorted_append)
  have "u \<le> t" using snoc.prems(1) by (auto simp: sorted_append)
  then have "filter (\<lambda>a. t - a < ?W) (filter (\<lambda>a. u - a < ?W) xs) = filter (\<lambda>a. t - a < ?W) xs" for xs
    by (auto intro: filter_cong)
  then show ?case
    using IH snoc.prems(2)
    by (simp add: rate_run_snoc Let_def split_beta check_rate_limit_live rate_live_upd rate_run_frame
        dsecs_less_iff)
qed

lemma rate_window_bound:
  assumes "sorted ts" "0 < m_rate_window_sec s" "m_rate_limits s n = None"
  shows "int (length (filter (in_window (m_rate_window_sec s) t) (fst (rate_run n ts s)))) \<le> cast_size_t (m_rate_max s)"
  using assms
proof (induction ts rule: rev_induct)
  case Nil
  then show ?case by (simp add: cast_size_t_def)
next
  case (snoc u ts)
  let ?W = "m_rate_window_sec s * 1000000000"
  define acc where "acc = fst (rate_run n ts s)"
  define s1 where "s1 = snd (rate_run n ts s)"
  have IH: "int (length (filter (in_window (m_rate_window_sec s) t) acc)) \<le> cast_size_t (m_rate_max s)"
    using snoc by (simp add: acc_def sorted_append)
  have live: "rate_live u n s1 = filter (\<lambda>a. u - a < ?W) acc"
    unfolding s1_def acc_def using snoc.prems by (rule rate_run_stored)
  show ?case
  proof (cases "fst (check_rate_limit u n s1) \<and> u \<le> t")
    case True
    then have free: "int (length (rate_live u n s1)) < cast_size_t (m_rate_max s)"
      by (simp add: check_rate_limit_live s1_def rate_run_frame split: if_splits)
    have "length (filter (in_window (m_rate_window_sec s) t) acc) \<le> length (rate_live u n s1)"
      unfolding live using True
      by (induction acc) (auto simp: in_window_def)
    with free IH show ?thesis
      using True by (simp add: rate_run_snoc Let_def split_beta flip: acc_def s1_def)
  next
    case False
    with IH show ?thesis
      by (auto simp: rate_run_snoc Let_def split_beta not_in_window simp flip: acc_def s1_def)
  qed
qed

text \<open>
  C21. The sliding window of the consensus machine: for a sender without stored times and a clock
  that does not go back, whatever the times at which its messages arrive, no window of the
  configured length holds more accepted messages than the configured maximum.
\<close>

theorem sliding_window:
  assumes "sorted ts" "0 < m_rate_window_sec s" "m_rate_limits s n = None"
  shows "int (length (filter (in_window (m_rate_window_sec s) t) (fst (rate_run n ts s))))
    \<le> cast_size_t (m_rate_max s)"
  using assms by (rule rate_window_bound)

theorem sliding_window_witness:
  "length (filter (in_window 10 3) (fst (rate_run ''A'' [0, 1, 1, 1, 2, 3, 3] (new_pbft demo_ssl None None 4)))) \<le> 5"
  using sliding_window [of "[0, 1, 1, 1, 2, 3, 3]" "new_pbft demo_ssl None None 4" "''A''" 3]
  by (simp add: new_pbft_def env_positive_def pbft_consts cast_size_t_def)

end
