(* ===== verification/Base64.thy ===== *)
theory Base64
  imports Cpp
begin

text \<open>
  \<open>common/Base64.hpp\<close>: the encoder and the decoder every wire message of the mesh uses for
  keys, evidence and signatures. The decoder keeps the source's accumulator: a 32-bit
  \<open>val\<close> that is shifted for ever and wraps, and the bit counter \<open>valb\<close>. Shown:
  decoding inverts encoding on every byte string, the length and the alphabet of the output, and
  exactly which inputs the decoder rejects and with which error.
\<close>

unbundle bit_operations_syntax


section \<open>Encoder\<close>

definition b64_chars :: string where
  "b64_chars = ''ABCDEFGHIJKLMNOPQRSTUVWXYZabcdefghijklmnopqrstuvwxyz0123456789+/''"

abbreviation b64_char :: "32 word \<Rightarrow> char" where
  "b64_char w \<equiv> b64_chars ! unat w"

fun base64_encode :: "string \<Rightarrow> string" where
  "base64_encode (a # b # c # rest) =
     b64_char (drop_bit 2 (byte a)) #
     b64_char (push_bit 4 (byte a AND 3) OR drop_bit 4 (byte b)) #
     b64_char (push_bit 2 (byte b AND 15) OR drop_bit 6 (byte c)) #
     b64_char (byte c AND 63) # base64_encode rest"
| "base64_encode [a, b] =
     [b64_char (drop_bit 2 (byte a)),
      b64_char (push_bit 4 (byte a AND 3) OR drop_bit 4 (byte b)),
      b64_char (push_bit 2 (byte b AND 15)),
      CHR ''='']"
| "base64_encode [a] =
     [b64_char (drop_bit 2 (byte a)),
      b64_char (push_bit 4 (byte a AND 3)),
      CHR ''='', CHR ''='']"
| "base64_encode [] = []"


section \<open>Decoder\<close>

datatype base64_error = NONE | INVALID_CHAR | INVALID_LENGTH

definition b64_lookup :: "int list" where
  "b64_lookup = [
    -1,-1,-1,-1,-1,-1,-1,-1,-1,-1,-1,-1,-1,-1,-1,-1,
    -1,-1,-1,-1,-1,-1,-1,-1,-1,-1,-1,-1,-1,-1,-1,-1,
    -1,-1,-1,-1,-1,-1,-1,-1,-1,-1,-1,62,-1,-1,-1,63,
    52,53,54,55,56,57,58,59,60,61,-1,-1,-1,-1,-1,-1,
    -1, 0, 1, 2, 3, 4, 5, 6, 7, 8, 9,10,11,12,13,14,
    15,16,17,18,19,20,21,22,23,24,25,-1,-1,-1,-1,-1,
    -1,26,27,28,29,30,31,32,33,34,35,36,37,38,39,40,
    41,42,43,44,45,46,47,48,49,50,51,-1,-1,-1,-1,-1]"

text \<open>\<open>static_cast<size_t>(c) >= 128\<close> holds of every byte from 128 on: the cast of a
  negative \<open>char\<close> is a huge number.\<close>

definition b64_bad_char :: "char \<Rightarrow> bool" where
  "b64_bad_char c \<longleftrightarrow> of_char c \<ge> (128::nat) \<or> b64_lookup ! of_char c = -1"

fun decode_loop :: "string \<Rightarrow> 32 word \<Rightarrow> int \<Rightarrow> string \<Rightarrow> base64_error + string" where
  "decode_loop [] val valb out = Inr out"
| "decode_loop (c # cs) val valb out =
     (if c = CHR ''='' then Inr out
      else if b64_bad_char c then Inl INVALID_CHAR
      else
        let val = push_bit 6 val + word_of_int (b64_lookup ! of_char c);
            valb = valb + 6
        in if valb \<ge> 0
           then decode_loop cs val (valb - 8)
                  (out @ [char_of (unat (signed_drop_bit (nat valb) val AND 255))])
           else decode_loop cs val valb out)"

definition base64_decode :: "string \<Rightarrow> base64_error + string" where
  "base64_decode data =
     (if data = [] then Inr []
      else if length data mod 4 \<noteq> 0 then Inl INVALID_LENGTH
      else decode_loop data 0 (-8) [])"

definition base64_decode_legacy :: "string \<Rightarrow> string" where
  "base64_decode_legacy data = (case base64_decode data of Inl _ \<Rightarrow> [] | Inr s \<Rightarrow> s)"

text \<open>The characters the loop of the decoder reads: those before the first padding
  character.\<close>

definition b64_payload :: "string \<Rightarrow> string" where
  "b64_payload data = takeWhile (\<lambda>c. c \<noteq> CHR ''='') data"


section \<open>The table\<close>

lemma b64_lookup_chars:
  "list_all2 (\<lambda>c i. b64_lookup ! of_char c = int i \<and> of_char c < (128::nat) \<and> c \<noteq> CHR ''='')
     b64_chars [0..<64]"
  by (simp add: b64_chars_def b64_lookup_def upt_rec)

lemma length_b64_chars [simp]: "length b64_chars = 64"
  by (simp add: b64_chars_def)

lemma b64_lookup_nth:
  assumes "s < 64"
  shows "b64_lookup ! of_char (b64_chars ! s) = int s" and "b64_chars ! s \<noteq> CHR ''=''"
    and "\<not> b64_bad_char (b64_chars ! s)"
  using list_all2_nthD [OF b64_lookup_chars, of s] assms by (auto simp: b64_bad_char_def)

lemma sextet_unat: "take_bit 6 w = w \<Longrightarrow> unat (w :: 32 word) < 64"
  using take_bit_nat_less_exp [of 6 "unat w"] by (simp flip: unsigned_take_bit_eq)


section \<open>One group of four characters\<close>

text \<open>The accumulator never carries from one sextet into the next, so the addition is a
  disjunction and the bits shifted out at the top never reach an output byte.\<close>

lemma push_plus_sextet: "take_bit 6 s = s \<Longrightarrow> push_bit 6 v + s = push_bit 6 v OR (s :: 32 word)"
  by (rule disjunctive_add) (metis bit_push_bit_iff bit_take_bit_iff not_le)

lemma Suc_Suc_diff [simp]: "2 \<le> n \<Longrightarrow> Suc (Suc (n - 2)) = n"
  by simp

lemma first_byte:
  fixes v x y :: "32 word"
  assumes "take_bit 8 y = y"
  shows "take_bit 8 (signed_drop_bit 4
           (push_bit 6 (push_bit 6 v OR drop_bit 2 x) OR (push_bit 4 (take_bit 2 x) OR drop_bit 4 y)))
         = take_bit 8 x"
  by (rule bit_word_eqI, subst assms [symmetric]) (auto simp: bit_simps not_less)

lemma second_byte:
  fixes v x y z :: "32 word"
  assumes "take_bit 8 z = z"
  shows "take_bit 8 (signed_drop_bit 2
           (push_bit 6 (push_bit 6 v OR (push_bit 4 x OR drop_bit 4 y)) OR
            (push_bit 2 (take_bit 4 y) OR drop_bit 6 z)))
         = take_bit 8 y"
  by (rule bit_word_eqI, subst assms [symmetric]) (auto simp: bit_simps not_less)

lemma push_drop_or_take [simp]: "push_bit 6 (drop_bit 6 x) OR take_bit 6 x = (x :: 32 word)"
  by (rule bit_word_eqI) (auto simp: bit_simps not_less)

lemma third_byte:
  fixes v x z :: "32 word"
  shows "take_bit 8 (push_bit 6 (push_bit 6 v OR (push_bit 2 x OR drop_bit 6 z)) OR take_bit 6 z)
         = take_bit 8 z"
  by (rule bit_word_eqI) (auto simp: bit_simps not_less)

lemma decode_loop_sextet:
  assumes "take_bit 6 w = w"
  shows "decode_loop (b64_char w # cs) v valb out =
    (let val = push_bit 6 v OR w; valb = valb + 6 in
      if valb \<ge> 0
      then decode_loop cs val (valb - 8) (out @ [char_of (unat (take_bit 8 (signed_drop_bit (nat valb) val)))])
      else decode_loop cs val valb out)"
  using b64_lookup_nth [OF sextet_unat [OF assms]]
  by (simp add: push_plus_sextet [OF assms] and_mask_take_bit Let_def)

lemma char_of_byte [simp]: "char_of (of_char c :: nat) = c"
  by simp

lemma decode_loop_pad: "decode_loop (CHR ''='' # cs) v valb out = Inr out"
  by simp

lemmas decode_group = decode_loop_sextet decode_loop_pad and_mask_take_bit take_bit_drop_bit take_bit_push_bit

lemma decode_loop_encode:
  "decode_loop (base64_encode xs) v (-8) out = Inr (out @ xs)"
proof (induction xs arbitrary: v out rule: base64_encode.induct)
  case (1 a b c rest)
  then show ?case
    using first_byte [of "byte b" v "byte a"]
      second_byte [of "byte c" "push_bit 6 v OR drop_bit 2 (byte a)" "take_bit 2 (byte a)" "byte b"]
    by (simp add: decode_group third_byte [simplified] del: decode_loop.simps)
next
  case (2 a b)
  then show ?case
    using first_byte [of "byte b" v "byte a"]
      second_byte [of 0 "push_bit 6 v OR drop_bit 2 (byte a)" "take_bit 2 (byte a)" "byte b"]
    by (simp add: decode_group del: decode_loop.simps)
next
  case (3 a)
  then show ?case
    using first_byte [of 0 v "byte a"]
    by (simp add: decode_group del: decode_loop.simps)
qed simp


section \<open>Which inputs decode\<close>

lemma b64_payload_simps [simp]:
  "b64_payload [] = []"
  "b64_payload (c # cs) = (if c = CHR ''='' then [] else c # b64_payload cs)"
  by (simp_all add: b64_payload_def)

lemma decode_loop_bad:
  "list_ex b64_bad_char (b64_payload cs) \<Longrightarrow> decode_loop cs v valb out = Inl INVALID_CHAR"
  by (induction cs v valb out rule: decode_loop.induct) (auto simp: Let_def split: if_splits)

lemma decode_loop_good:
  assumes "\<not> list_ex b64_bad_char (b64_payload cs)" and "-8 \<le> valb" "valb < 0"
  shows "\<exists>s. decode_loop cs v valb out = Inr s \<and>
    length s = length out + nat ((6 * int (length (b64_payload cs)) + valb + 8) div 8)"
  using assms
proof (induction cs arbitrary: v valb out)
  case (Cons c cs)
  show ?case
  proof (cases "c = CHR ''=''")
    case False
    then have ok: "\<not> b64_bad_char c" "\<not> list_ex b64_bad_char (b64_payload cs)"
      using Cons.prems by auto
    show ?thesis
    proof (cases "valb + 6 \<ge> 0")
      case True
      from Cons.IH [OF ok(2), of "valb + 6 - 8"] True Cons.prems False ok show ?thesis
        by (fastforce simp: Let_def)
    next
      case neg: False
      from Cons.IH [OF ok(2), of "valb + 6"] neg Cons.prems False ok show ?thesis
        by (fastforce simp: Let_def algebra_simps)
    qed
  qed (use Cons.prems in auto)
qed auto


section \<open>Properties of the codec\<close>

lemma next_group: "(5 + n) div 3 = Suc (Suc (Suc n) div 3)"
  using div_add_self1 [of 3 "Suc (Suc n)"] by simp

lemma length_base64_encode: "length (base64_encode s) = 4 * ((length s + 2) div 3)"
  by (induction s rule: base64_encode.induct) (simp_all add: next_group)

lemma b64_char_in [simp]: "take_bit 6 w = w \<Longrightarrow> b64_char w \<in> set b64_chars"
  by (simp add: sextet_unat)

lemma base64_encode_alphabet: "set (base64_encode s) \<subseteq> insert CHR ''='' (set b64_chars)"
  by (induction s rule: base64_encode.induct)
     (simp_all add: and_mask_take_bit take_bit_drop_bit take_bit_push_bit)

lemma base64_encode_no_bar [wire_safe]: "CHR ''|'' \<notin> set (base64_encode s)"
  using base64_encode_alphabet [of s] by (auto simp: b64_chars_def)

lemma base64_encode_Nil_iff [simp]: "base64_encode s = [] \<longleftrightarrow> s = []"
  by (cases s rule: base64_encode.cases) auto

lemma base64_decode_encode: "base64_decode (base64_encode s) = Inr s"
  using decode_loop_encode [of s 0 "[]"]
  by (simp add: base64_decode_def length_base64_encode)

lemma base64_decode_legacy_encode [simp]: "base64_decode_legacy (base64_encode s) = s"
  by (simp add: base64_decode_legacy_def base64_decode_encode)

text \<open>
  Base64 round trip: decoding what \<open>base64_encode\<close> produces gives back the original
  bytes, for every byte string of every length, although the 32-bit accumulator of the decoder is
  never masked and wraps. The encoded text has the length the code reserves and holds only
  characters of the alphabet and the padding character, so never the separator of the wire format.
\<close>

theorem base64_roundtrip:
  "base64_decode (base64_encode s) = Inr s
   \<and> length (base64_encode s) = ((length s + 2) div 3) * 4
   \<and> set (base64_encode s) \<subseteq> insert CHR ''='' (set b64_chars)
   \<and> CHR ''|'' \<notin> set (base64_encode s)"
  by (simp add: base64_decode_encode length_base64_encode base64_encode_alphabet base64_encode_no_bar)

text \<open>
  What \<open>base64_decode\<close> accepts: a length that is not a multiple of four is
  \<open>INVALID_LENGTH\<close>; otherwise a character outside the alphabet before the first padding
  character is \<open>INVALID_CHAR\<close>; otherwise the decoder succeeds and returns as many bytes as
  the bits of the characters before the padding fill. What follows the first padding character
  is not looked at.
\<close>

theorem base64_decode_cases:
  "(case base64_decode data of
      Inl INVALID_LENGTH \<Rightarrow> length data mod 4 \<noteq> 0
    | Inl INVALID_CHAR \<Rightarrow> length data mod 4 = 0 \<and> list_ex b64_bad_char (b64_payload data)
    | Inl NONE \<Rightarrow> False
    | Inr out \<Rightarrow> length data mod 4 = 0 \<and> \<not> list_ex b64_bad_char (b64_payload data)
        \<and> length out = 6 * length (b64_payload data) div 8)"
proof (cases "list_ex b64_bad_char (b64_payload data)")
  case True
  then show ?thesis
    using decode_loop_bad [OF True] by (auto simp: base64_decode_def)
next
  case False
  from decode_loop_good [OF False, of "-8" 0 "[]"] False show ?thesis
    by (auto simp: base64_decode_def nat_div_distrib nat_mult_distrib)
qed

end
