(* ===== verification/Net.thy ===== *)
theory Net
  imports Cpp
begin

text \<open>
  Numbers and addresses in text: \<open>std::stoi\<close>, \<open>std::stoll\<close> and
  \<open>std::stoull\<close>, the IPv4 forms of \<open>inet_pton\<close> and \<open>inet_ntop\<close>, and
  \<open>net/NetUtil.hpp\<close> on top of them. The name service is an argument.
\<close>


section \<open>\<open>std::stoi\<close> and its relatives\<close>

text \<open>White space, a sign and digits: the sign, the value and the unread rest; \<open>None\<close>
  stands for \<open>std::invalid_argument\<close>.\<close>

definition sto_parse :: "string \<Rightarrow> (bool \<times> nat \<times> string) option" where
  "sto_parse s =
     (let t = dropWhile is_space s;
          neg = (t \<noteq> [] \<and> hd t = CHR ''-'');
          u = (if t \<noteq> [] \<and> (hd t = CHR ''-'' \<or> hd t = CHR ''+'') then tl t else t);
          ds = takeWhile is_digit u
      in if ds = [] then None else Some (neg, digits_val 0 ds, dropWhile is_digit u))"

text \<open>A value out of range raises \<open>std::out_of_range\<close>; both exceptions are \<open>None\<close>.\<close>

definition sto_range :: "nat \<Rightarrow> string \<Rightarrow> (int \<times> string) option" where
  "sto_range w s =
     (case sto_parse s of None \<Rightarrow> None
      | Some (neg, v, rest) \<Rightarrow>
          let i = (if neg then - int v else int v) in
          if - (2 ^ (w - 1)) \<le> i \<and> i < 2 ^ (w - 1) then Some (i, rest) else None)"

definition stoi :: "string \<Rightarrow> (int \<times> string) option" where "stoi = sto_range 32"
definition stoll :: "string \<Rightarrow> (int \<times> string) option" where "stoll = sto_range 64"

text \<open>\<open>std::stoull\<close> accepts a minus sign and negates modulo \<open>2^64\<close>.\<close>

definition stoull :: "string \<Rightarrow> (uint64 \<times> string) option" where
  "stoull s =
     (case sto_parse s of None \<Rightarrow> None
      | Some (neg, v, rest) \<Rightarrow>
          if v < 2 ^ 64 then Some (if neg then - of_nat v else of_nat v, rest) else None)"


section \<open>IPv4 addresses\<close>

text \<open>The octets read so far and the one being read, if a digit of it has been seen; a leading zero
  is rejected.\<close>

fun pton4_loop :: "nat list \<Rightarrow> nat option \<Rightarrow> string \<Rightarrow> nat list option" where
  "pton4_loop octets None [] = None"
| "pton4_loop octets (Some v) [] = (if length octets = 3 then Some (octets @ [v]) else None)"
| "pton4_loop octets cur (c # cs) =
     (if is_digit c
      then (case cur of
              None \<Rightarrow> pton4_loop octets (Some (digit_val c)) cs
            | Some v \<Rightarrow> if v = 0 \<or> v * 10 + digit_val c > 255 then None
                        else pton4_loop octets (Some (v * 10 + digit_val c)) cs)
      else if c = CHR ''.''
      then (case cur of
              None \<Rightarrow> None
            | Some v \<Rightarrow> if length octets = 3 then None else pton4_loop (octets @ [v]) None cs)
      else None)"

definition inet_pton4 :: "string \<Rightarrow> nat list option" where
  "inet_pton4 s = pton4_loop [] None s"

definition inet_ntop4 :: "nat list \<Rightarrow> string" where
  "inet_ntop4 octets = join_fields (CHR ''.'') (map nat_str octets)"

text \<open>\<open>inet_pton\<close> for IPv6, as a loop over the text: the bytes written so far, the position of
  the double colon, the text from the start of the current group, the number of digits and the value
  of that group. A dotted IPv4 address may end the text.\<close>

definition hex_digit_value :: "char \<Rightarrow> nat option" where
  "hex_digit_value c =
     (let n = (of_char c :: nat) in
      if 48 \<le> n \<and> n \<le> 57 then Some (n - 48)
      else if 97 \<le> n \<and> n \<le> 102 then Some (n - 87)
      else if 65 \<le> n \<and> n \<le> 70 then Some (n - 55) else None)"

definition close_group :: "nat list \<Rightarrow> nat \<Rightarrow> nat list option" where
  "close_group bytes val = (if length bytes + 2 > 16 then None else Some (bytes @ [val div 256, val mod 256]))"

definition expand_colons :: "nat list \<Rightarrow> nat option \<Rightarrow> nat list option" where
  "expand_colons bytes colon =
     (case colon of
        None \<Rightarrow> if length bytes = 16 then Some bytes else None
      | Some i \<Rightarrow> if length bytes = 16 then None
                  else Some (take i bytes @ replicate (16 - length bytes) 0 @ drop i bytes))"

fun pton6_loop :: "nat list \<Rightarrow> nat option \<Rightarrow> string \<Rightarrow> nat \<Rightarrow> nat \<Rightarrow> string \<Rightarrow> nat list option" where
  "pton6_loop bytes colon curtok seen val [] =
     (if seen > 0
      then case close_group bytes val of None \<Rightarrow> None | Some bs \<Rightarrow> expand_colons bs colon
      else expand_colons bytes colon)"
| "pton6_loop bytes colon curtok seen val (c # cs) =
     (case hex_digit_value c of
        Some d \<Rightarrow> if seen = 4 then None else pton6_loop bytes colon curtok (seen + 1) (val * 16 + d) cs
      | None \<Rightarrow>
          if c = CHR '':''
          then if seen = 0
               then if colon \<noteq> None then None else pton6_loop bytes (Some (length bytes)) cs 0 val cs
               else if cs = [] then None
               else case close_group bytes val of None \<Rightarrow> None | Some bs \<Rightarrow> pton6_loop bs colon cs 0 0 cs
          else if c = CHR ''.'' \<and> length bytes + 4 \<le> 16
          then case inet_pton4 curtok of None \<Rightarrow> None | Some octets \<Rightarrow> expand_colons (bytes @ octets) colon
          else None)"

definition inet_pton6 :: "string \<Rightarrow> nat list option" where
  "inet_pton6 s =
     (case s of
        [] \<Rightarrow> None
      | c # cs \<Rightarrow>
          if c = CHR '':''
          then if cs = [] \<or> hd cs \<noteq> CHR '':'' then None else pton6_loop [] None cs 0 0 cs
          else pton6_loop [] None s 0 0 s)"

text \<open>\<open>getaddrinfo\<close> for IPv4 is the argument \<open>lookup\<close>: the first address it returns.\<close>

definition resolve_host :: "(string \<Rightarrow> nat list option) \<Rightarrow> string \<Rightarrow> string" where
  "resolve_host lookup host =
     (if inet_pton4 host \<noteq> None then host
      else case lookup host of Some octets \<Rightarrow> inet_ntop4 octets | None \<Rightarrow> host)"


section \<open>Printing and reading back\<close>

lemma sto_parse_nat_str:
  assumes "rest = [] \<or> \<not> is_digit (hd rest)"
  shows "sto_parse (nat_str n @ rest) = Some (False, n, rest)"
proof -
  obtain c cs where c: "nat_str n = c # cs" by (cases "nat_str n") auto
  have d: "\<forall>x \<in> set (nat_str n). is_digit x" using nat_str_digits by blast
  have "takeWhile is_digit (nat_str n @ rest) = nat_str n \<and> dropWhile is_digit (nat_str n @ rest) = rest"
    using d assms by (cases rest) (auto simp: takeWhile_append2 dropWhile_append2)
  moreover have "\<not> is_space c" "c \<noteq> CHR ''-''" "c \<noteq> CHR ''+''"
    using d c by (auto simp: is_digit_def is_space_def)
  moreover have "c # cs \<noteq> []" by simp
  ultimately show ?thesis using c digits_val_nat_str [of n]
    by (simp add: sto_parse_def Let_def)
qed

lemma sto_parse_int_str:
  assumes "rest = [] \<or> \<not> is_digit (hd rest)"
  shows "sto_parse (int_str i @ rest) = Some (i < 0, nat \<bar>i\<bar>, rest)"
proof (cases "i < 0")
  case True
  have d: "\<forall>x \<in> set (nat_str (nat (- i))). is_digit x" using nat_str_digits by blast
  have "takeWhile is_digit (nat_str (nat (- i)) @ rest) = nat_str (nat (- i))
      \<and> dropWhile is_digit (nat_str (nat (- i)) @ rest) = rest"
    using d assms by (cases rest) (auto simp: takeWhile_append2 dropWhile_append2)
  then show ?thesis using True
    by (simp add: sto_parse_def int_str_def Let_def is_space_def digits_val_nat_str)
qed (use sto_parse_nat_str [OF assms] in \<open>simp add: int_str_def\<close>)

lemma stoi_int_str: "- (2 ^ 31) \<le> i \<Longrightarrow> i < 2 ^ 31 \<Longrightarrow> stoi (int_str i) = Some (i, [])"
  using sto_parse_int_str [of "[]" i] by (simp add: stoi_def sto_range_def Let_def)

lemma stoll_int_str: "- (2 ^ 63) \<le> i \<Longrightarrow> i < 2 ^ 63 \<Longrightarrow> stoll (int_str i) = Some (i, [])"
  using sto_parse_int_str [of "[]" i] by (simp add: stoll_def sto_range_def Let_def)

lemma stoull_u64_str: "stoull (u64_str w) = Some (w, [])"
  using sto_parse_nat_str [of "[]" "unat w"] unsigned_less [of w]
  by (simp add: stoull_def u64_str_def)

lemma is_digit_dot [simp]: "\<not> is_digit (CHR ''.'')"
  by (simp add: is_digit_def)

lemma pton4_loop_digits:
  assumes "\<forall>c \<in> set ds. is_digit c" "digits_val v ds < 256" "0 < v"
  shows "pton4_loop octets (Some v) (ds @ rest) = pton4_loop octets (Some (digits_val v ds)) rest"
  using assms
proof (induction ds arbitrary: v)
  case (Cons c ds)
  have mono: "b \<le> digits_val b xs" for b xs
  proof (induction xs arbitrary: b)
    case (Cons x xs)
    from Cons [of "b * 10 + digit_val x"] show ?case by simp
  qed simp
  have "v * 10 + digit_val c < 256"
    using mono [of "v * 10 + digit_val c" ds] Cons.prems(2) by simp
  then show ?case using Cons.IH [of "v * 10 + digit_val c"] Cons.prems by simp
qed simp

lemma digits_val_pos: "0 < v \<Longrightarrow> 0 < digits_val v ds"
  by (induction ds arbitrary: v) auto

lemma nat_str_head: "0 < n \<Longrightarrow> \<exists>c cs. nat_str n = c # cs \<and> is_digit c \<and> 0 < digit_val c"
proof (induction n rule: nat_str.induct)
  case (1 n)
  show ?case
  proof (cases "n < 10")
    case False
    then have "0 < n div 10" by linarith
    then obtain c cs where "nat_str (n div 10) = c # cs" "is_digit c" "0 < digit_val c" using 1 False by blast
    then show ?thesis using False by (simp add: nat_str.simps [of n])
  qed (use 1 in \<open>simp add: nat_str.simps [of n]\<close>)
qed

lemma pton4_loop_octet:
  assumes "n < 256"
  shows "pton4_loop octets None (nat_str n @ rest) = pton4_loop octets (Some n) rest"
proof (cases "n = 0")
  case True
  then show ?thesis by (simp add: nat_str.simps)
next
  case False
  then obtain c cs where c: "nat_str n = c # cs" "is_digit c" "0 < digit_val c" using nat_str_head [of n] by auto
  have "digits_val (digit_val c) cs = n" using digits_val_nat_str [of n] c(1) by simp
  moreover have "\<forall>x \<in> set cs. is_digit x" using nat_str_digits [of _ n] c(1) by auto
  ultimately show ?thesis using pton4_loop_digits [of cs "digit_val c" octets rest] c assms by simp
qed

lemma pton4_ntop4:
  assumes "a < 256" "b < 256" "c < 256" "d < 256"
  shows "inet_pton4 (inet_ntop4 [a, b, c, d]) = Some [a, b, c, d]"
  using assms pton4_loop_octet [OF assms(4), of "[a, b, c]" "[]"]
  by (simp add: inet_pton4_def inet_ntop4_def pton4_loop_octet)

end
