(* ===== verification/MeshWire.thy ===== *)
theory MeshWire
  imports PBFT Base64 Net
begin

text \<open>
  The messages of \<open>consensus/MeshNode.cpp\<close> as text: how a node writes announcements,
  discovery beacons, telemetry gossip, votes and peer lists, and how it checks and reads them. The
  functions here are free of state; \<open>MeshNode\<close> has the handlers. Shown: what one node writes,
  another reads back, for votes, beacons and telemetry.
\<close>


section \<open>Helpers\<close>

definition split_string :: "string \<Rightarrow> char \<Rightarrow> string list" where
  "split_string str delimiter = getline_tokens delimiter str"

definition try_parse_int :: "string \<Rightarrow> int option" where
  "try_parse_int s = (case stoi s of None \<Rightarrow> None | Some (v, rest) \<Rightarrow> if rest \<noteq> [] then None else Some v)"

definition try_parse_long :: "string \<Rightarrow> int option" where
  "try_parse_long s = (case stoll s of None \<Rightarrow> None | Some (v, rest) \<Rightarrow> if rest \<noteq> [] then None else Some v)"

text \<open>\<open>char\<close> is signed, so bytes from 128 on compare as negative.\<close>

definition validate_message :: "string \<Rightarrow> bool" where
  "validate_message msg =
     (if msg = [] \<or> length msg > 65536 then False
      else if CHR 0x00 \<in> set msg then False
      else list_all (\<lambda>c. \<not> (signed_char c < 32 \<and> c \<noteq> CHR ''|'' \<and> c \<noteq> CHR 0x0A \<and> c \<noteq> CHR 0x0D)) msg)"

text \<open>\<open>get_udp_jitter\<close> and the evidence limit read environment variables.\<close>

definition env_nonneg :: "string option \<Rightarrow> int \<Rightarrow> int" where
  "env_nonneg env dflt =
     (case env of None \<Rightarrow> dflt
      | Some e \<Rightarrow> (let (v, rest) = strtol10 e in if rest = [] \<and> v \<ge> 0 then cast_int v else dflt))"

definition get_udp_jitter :: "string option \<Rightarrow> string option \<Rightarrow> int \<Rightarrow> int \<Rightarrow> int \<times> int" where
  "get_udp_jitter env_min env_max default_min default_max =
     (env_nonneg env_min default_min, env_nonneg env_max default_max)"

definition max_evidence_size :: "string option \<Rightarrow> nat" where
  "max_evidence_size env =
     (case env of None \<Rightarrow> 4096
      | Some e \<Rightarrow> (let (v, rest) = strtol10 e in if rest \<noteq> [] \<or> v \<le> 0 then 4096 else min (nat v) 65536))"


section \<open>Announcements\<close>

definition announce_blob :: "node_id \<Rightarrow> pem \<Rightarrow> string" where
  "announce_blob node_id pem = node_id @ ''|'' @ pem"

definition announce_payload :: "openssl \<Rightarrow> pkey \<Rightarrow> node_id \<Rightarrow> pem \<Rightarrow> string" where
  "announce_payload L key node_id pem =
     ''ANNOUNCE|'' @ node_id @ ''|'' @ pem @ ''|'' @ base64_encode (sign_payload L key (announce_blob node_id pem))"

text \<open>The checks of the \<open>ANNOUNCE\<close> branch up to the signature: the peer and its key.\<close>

definition read_announce :: "openssl \<Rightarrow> node_id \<Rightarrow> string list \<Rightarrow> (node_id \<times> pem) option" where
  "read_announce L my_id tokens =
     (if length tokens < 4 then None
      else
        let peer_id = tokens ! 1; peer_pem = tokens ! 2; sig_b64 = tokens ! 3 in
        if peer_id = [] \<or> length peer_id > 64 then None
        else if peer_pem = [] \<or> \<not> str_contains ''-----BEGIN PUBLIC KEY-----'' peer_pem then None
        else if peer_id = my_id then None
        else
          let decoded_sig = base64_decode_legacy sig_b64 in
          if decoded_sig = [] then None
          else case get_pubkey_from_pem L peer_pem of
                 None \<Rightarrow> None
               | Some k \<Rightarrow>
                   if \<not> verify_signature L (Some k) (announce_blob peer_id peer_pem) decoded_sig then None
                   else Some (peer_id, peer_pem))"


section \<open>Discovery beacons\<close>

record beacon =
  bc_peer_id :: node_id
  bc_tcp_port :: int
  bc_tls_port :: int
  bc_timestamp :: int
  bc_pem :: pem
  bc_fingerprint :: string
  bc_has_fingerprint :: bool
  bc_cert_b64 :: string
  bc_has_cert :: bool

definition beacon_blob :: "node_id \<Rightarrow> int \<Rightarrow> int \<Rightarrow> int \<Rightarrow> string \<Rightarrow> string \<Rightarrow> string" where
  "beacon_blob node_id tcp_port tls_port us fpr b64_cert =
     node_id @ ''|'' @ int_str tcp_port @ ''|'' @ int_str tls_port @ ''|'' @ int_str us @ ''|''
     @ fpr @ ''|'' @ b64_cert"

definition beacon_payload ::
  "openssl \<Rightarrow> pkey \<Rightarrow> node_id \<Rightarrow> int \<Rightarrow> int \<Rightarrow> int \<Rightarrow> string \<Rightarrow> string \<Rightarrow> string \<Rightarrow> string" where
  "beacon_payload L key node_id tcp_port tls_port us pubkey_b64 fpr cert_pem =
     (let b64_cert = base64_encode cert_pem;
          raw_sig = sign_payload L key (beacon_blob node_id tcp_port tls_port us fpr b64_cert)
      in ''DISCOVERY|'' @ node_id @ ''|'' @ int_str tcp_port @ ''|'' @ int_str tls_port @ ''|''
         @ int_str us @ ''|'' @ pubkey_b64 @ ''|'' @ fpr @ ''|'' @ b64_cert @ ''|'' @ base64_encode raw_sig)"

text \<open>The text whose signature is checked depends on the number of fields.\<close>

definition signed_beacon :: "nat \<Rightarrow> beacon \<Rightarrow> string" where
  "signed_beacon n b =
     (if n \<ge> 9 then beacon_blob (bc_peer_id b) (bc_tcp_port b) (bc_tls_port b) (bc_timestamp b)
                      (bc_fingerprint b) (bc_cert_b64 b)
      else if n \<ge> 8 then
        bc_peer_id b @ ''|'' @ int_str (bc_tcp_port b) @ ''|'' @ int_str (bc_tls_port b) @ ''|''
        @ int_str (bc_timestamp b) @ ''|'' @ bc_fingerprint b
      else if n \<ge> 7 then
        bc_peer_id b @ ''|'' @ int_str (bc_tcp_port b) @ ''|'' @ int_str (bc_tls_port b) @ ''|''
        @ int_str (bc_timestamp b)
      else bc_peer_id b @ ''|'' @ int_str (bc_timestamp b))"

text \<open>The fields of a beacon of at least six tokens and its encoded signature.\<close>

definition beacon_fields :: "string list \<Rightarrow> (beacon \<times> string) option" where
  "beacon_fields tokens =
     (let n = length tokens;
          has_tls_fingerprint = n \<ge> 7; has_signed_fpr = n \<ge> 8; has_cert_pem = n \<ge> 9
      in case try_parse_int (tokens ! 2) of None \<Rightarrow> None
      | Some tcp_port \<Rightarrow>
        (case (if has_tls_fingerprint then try_parse_int (tokens ! 3) else Some 0) of None \<Rightarrow> None
         | Some tls_port \<Rightarrow>
           (case try_parse_long (tokens ! (if has_tls_fingerprint then 4 else 3)) of None \<Rightarrow> None
            | Some timestamp \<Rightarrow>
                Some (\<lparr>bc_peer_id = tokens ! 1, bc_tcp_port = tcp_port, bc_tls_port = tls_port,
                       bc_timestamp = timestamp,
                       bc_pem = base64_decode_legacy (tokens ! (if has_tls_fingerprint then 5 else 4)),
                       bc_fingerprint = (if has_tls_fingerprint then tokens ! 6 else []),
                       bc_has_fingerprint = has_tls_fingerprint,
                       bc_cert_b64 = (if has_cert_pem then tokens ! 7 else []),
                       bc_has_cert = has_cert_pem\<rparr>,
                      (if has_cert_pem then tokens ! 8 else if has_signed_fpr then tokens ! 7 else [])))))"

text \<open>The checks of \<open>process_discovery_beacon\<close> up to the timestamp; \<open>now_us\<close> is the
  receiver's clock in microseconds.\<close>

definition read_beacon :: "openssl \<Rightarrow> node_id \<Rightarrow> int \<Rightarrow> string list \<Rightarrow> beacon option" where
  "read_beacon L my_id now_us tokens =
     (if length tokens < 6 then None
      else case beacon_fields tokens of None \<Rightarrow> None
      | Some (b, b64_sig) \<Rightarrow>
          if bc_peer_id b = my_id then None
          else if bc_pem b = [] then None
          else
            let raw_sig = base64_decode_legacy b64_sig in
            if raw_sig = [] then None
            else case get_pubkey_from_pem L (bc_pem b) of None \<Rightarrow> None
            | Some k \<Rightarrow>
                if \<not> verify_signature L (Some k) (signed_beacon (length tokens) b) raw_sig then None
                else let drift = trunc_div (now_us - bc_timestamp b) 1000000 in
                     if drift > 60 \<or> drift < -60 then None else Some b)"


section \<open>Telemetry gossip\<close>

definition telemetry_blob :: "node_id \<Rightarrow> string \<Rightarrow> string" where
  "telemetry_blob node_id json = ''TELEMETRY|'' @ node_id @ ''|'' @ json"

definition telemetry_payload :: "openssl \<Rightarrow> pkey \<Rightarrow> node_id \<Rightarrow> string \<Rightarrow> string" where
  "telemetry_payload L key node_id json =
     ''TELEMETRY|'' @ node_id @ ''|'' @ base64_encode (sign_payload L key (telemetry_blob node_id json))
     @ ''|'' @ json"

definition find_from :: "char \<Rightarrow> nat \<Rightarrow> string \<Rightarrow> nat option" where
  "find_from c i s = map_option (\<lambda>j. i + j) (str_find [c] (drop i s))"

definition substr :: "string \<Rightarrow> nat \<Rightarrow> nat \<Rightarrow> string" where
  "substr s i n = take n (drop i s)"

text \<open>The sender, the encoded signature, empty if there is none, and the telemetry.\<close>

definition telemetry_fields :: "node_id \<Rightarrow> string \<Rightarrow> (node_id \<times> string \<times> string) option" where
  "telemetry_fields my_id msg =
     (case find_from (CHR ''|'') 0 msg of None \<Rightarrow> None
      | Some first_delim \<Rightarrow>
        (case find_from (CHR ''|'') (first_delim + 1) msg of None \<Rightarrow> None
         | Some second_delim \<Rightarrow>
           let peer_id = substr msg (first_delim + 1) (second_delim - first_delim - 1) in
           if peer_id = [] \<or> peer_id = my_id then None
           else if length peer_id > 64 then None
           else case find_from (CHR ''|'') (second_delim + 1) msg of
                  None \<Rightarrow> Some (peer_id, [], drop (second_delim + 1) msg)
                | Some third_delim \<Rightarrow>
                    Some (peer_id, substr msg (second_delim + 1) (third_delim - second_delim - 1),
                          drop (third_delim + 1) msg)))"


section \<open>Votes\<close>

definition vote_payload :: "p2p_message \<Rightarrow> string" where
  "vote_payload msg =
     ''VOTE|'' @ stage_str msg @ ''|'' @ sender_id msg @ ''|'' @ u64_str (sequence_number msg) @ ''|''
     @ int_str (msg_view msg) @ ''|'' @ target_id msg @ ''|'' @ base64_encode (evidence_json msg) @ ''|''
     @ prev_message_hash msg @ ''|'' @ base64_encode (signature msg)"

text \<open>The checks of the \<open>VOTE\<close> branch up to the construction of the message; the evidence may
  have at most \<open>max_evidence\<close> bytes.\<close>

definition read_vote :: "nat \<Rightarrow> string list \<Rightarrow> p2p_message option" where
  "read_vote max_evidence tokens =
     (if length tokens < 9 then None
      else
        let stage = tokens ! 1; sender = tokens ! 2; target = tokens ! 5 in
        if stage = [] \<or> sender = [] \<or> target = [] then None
        else if length sender > 64 \<or> length target > 64 then None
        else if length (tokens ! 6) > max_evidence * 4 div 3 + 4 then None
        else
          let evidence_decoded = base64_decode_legacy (tokens ! 6) in
          if evidence_decoded = [] \<or> length evidence_decoded > max_evidence then None
          else if hd evidence_decoded \<noteq> CHR ''{'' then None
          else if stage \<noteq> ''PRE_PREPARE'' \<and> stage \<noteq> ''PREPARE'' \<and> stage \<noteq> ''COMMIT'' \<and> stage \<noteq> ''BAN_PEER'' then None
          else case stoull (tokens ! 3) of None \<Rightarrow> None
          | Some (seq, _) \<Rightarrow>
            (case stoi (tokens ! 4) of None \<Rightarrow> None
             | Some (view, _) \<Rightarrow>
               let decoded_sig = base64_decode_legacy (tokens ! 8) in
               if decoded_sig = [] then None
               else Some \<lparr>stage_str = stage, sender_id = sender, target_id = target,
                          evidence_json = evidence_decoded, signature = decoded_sig,
                          prev_message_hash = tokens ! 7, sequence_number = seq, msg_view = view\<rparr>))"


section \<open>Peer lists\<close>

definition pex_message :: "node_id \<Rightarrow> (node_id \<times> string \<times> int) list \<Rightarrow> string" where
  "pex_message node_id peers =
     ''PEX|'' @ node_id @ ''|'' @ nat_str (length peers) @ ''|''
     @ join_fields (CHR '','') (map (\<lambda>(i, ip, port). i @ '':'' @ ip @ '':'' @ int_str port) peers)"

text \<open>The peers a received list names, in order; entries with fewer than three parts or a bad port
  are skipped, and so is the receiver itself.\<close>

definition pex_entry :: "node_id \<Rightarrow> string \<Rightarrow> (node_id \<times> string \<times> int) option" where
  "pex_entry my_id entry =
     (let parts = split_string entry (CHR '':'') in
      if length parts < 3 then None
      else case try_parse_int (parts ! 2) of None \<Rightarrow> None
           | Some port \<Rightarrow> if parts ! 0 \<noteq> my_id then Some (parts ! 0, parts ! 1, port) else None)"

definition pex_peers :: "node_id \<Rightarrow> string \<Rightarrow> (node_id \<times> string \<times> int) list" where
  "pex_peers my_id peer_list =
     (if peer_list = [] \<or> peer_list = ''0'' then []
      else List.map_filter (pex_entry my_id) (split_string peer_list (CHR '','')))"


section \<open>Vocabulary of the statements\<close>

definition plain_field :: "string \<Rightarrow> bool" where
  "plain_field s \<longleftrightarrow> CHR ''|'' \<notin> set s"

text \<open>What a message must satisfy for its text to be accepted by the reader.\<close>

definition sendable :: "nat \<Rightarrow> p2p_message \<Rightarrow> bool" where
  "sendable max_evidence m \<longleftrightarrow>
     stage_str m \<in> {''PRE_PREPARE'', ''PREPARE'', ''COMMIT'', ''BAN_PEER''}
     \<and> sender_id m \<noteq> [] \<and> length (sender_id m) \<le> 64 \<and> plain_field (sender_id m)
     \<and> target_id m \<noteq> [] \<and> length (target_id m) \<le> 64 \<and> plain_field (target_id m)
     \<and> evidence_json m \<noteq> [] \<and> hd (evidence_json m) = CHR ''{'' \<and> length (evidence_json m) \<le> max_evidence
     \<and> plain_field (prev_message_hash m) \<and> signature m \<noteq> []
     \<and> - (2 ^ 31) \<le> msg_view m \<and> msg_view m < 2 ^ 31"

text \<open>A message for the witness.\<close>

definition demo_vote :: p2p_message where
  "demo_vote = \<lparr>stage_str = ''PREPARE'', sender_id = ''A'', target_id = ''X'',
     evidence_json = ''{\"pid\":7,\"x\":\"a|b\"}'', signature = ''sig|'', prev_message_hash = [],
     sequence_number = 18446744073709551615, msg_view = -1\<rparr>"


section \<open>Round trips\<close>

lemma is_digit_bar_int: "CHR ''|'' \<notin> set (int_str i)"
  by (rule int_str_no_sep) (simp_all add: is_digit_def)


lemma bar_notin [wire_safe]: "CHR ''|'' \<notin> set (u64_str w)" "CHR ''|'' \<notin> set (int_str i)"
  by (simp_all add: u64_str_no_sep is_digit_bar_int)

lemma split_string_join:
  "payload = join_fields d xs \<Longrightarrow> \<forall>x \<in> set xs. d \<notin> set x \<Longrightarrow> xs \<noteq> [] \<Longrightarrow> last xs \<noteq> [] \<Longrightarrow> split_string payload d = xs"
  by (simp add: split_string_def getline_tokens_join)

lemma vote_tokens:
  assumes "sendable max_evidence m"
  shows "split_string (vote_payload m) (CHR ''|'') =
    [''VOTE'', stage_str m, sender_id m, u64_str (sequence_number m), int_str (msg_view m), target_id m,
     base64_encode (evidence_json m), prev_message_hash m, base64_encode (signature m)]"
proof (rule split_string_join)
  have "CHR ''|'' \<notin> set (stage_str m)" using assms by (auto simp: sendable_def)
  then show "\<forall>x \<in> set [''VOTE'', stage_str m, sender_id m, u64_str (sequence_number m), int_str (msg_view m), target_id m,
     base64_encode (evidence_json m), prev_message_hash m, base64_encode (signature m)]. CHR ''|'' \<notin> set x"
    using assms bar_notin base64_encode_no_bar by (simp add: sendable_def plain_field_def)
qed (use assms in \<open>simp_all add: vote_payload_def sendable_def\<close>)

lemma evidence_fits: "n \<le> k \<Longrightarrow> 4 * ((n + 2) div 3) \<le> k * 4 div 3 + (4 :: nat)"
  using times_div_less_eq_dividend [of 3 "n + 2"] dividend_less_times_div [of 3 "k * 4"] by linarith




section \<open>Beacons and telemetry\<close>

lemma beacon_tokens:
  assumes "plain_field nid" "plain_field fpr" "plain_field pk64" "sign_payload L key
      (beacon_blob nid tcp tls us fpr (base64_encode cert)) \<noteq> []"
  shows "split_string (beacon_payload L key nid tcp tls us pk64 fpr cert) (CHR ''|'') =
    [''DISCOVERY'', nid, int_str tcp, int_str tls, int_str us, pk64, fpr, base64_encode cert,
     base64_encode (sign_payload L key (beacon_blob nid tcp tls us fpr (base64_encode cert)))]"
  by (rule split_string_join)
    (use assms bar_notin base64_encode_no_bar in \<open>simp_all add: beacon_payload_def Let_def plain_field_def\<close>)

lemma try_parse_int_str: "- (2 ^ 31) \<le> i \<Longrightarrow> i < 2 ^ 31 \<Longrightarrow> try_parse_int (int_str i) = Some i"
  by (simp add: try_parse_int_def stoi_int_str)

lemma try_parse_long_str: "- (2 ^ 63) \<le> i \<Longrightarrow> i < 2 ^ 63 \<Longrightarrow> try_parse_long (int_str i) = Some i"
  by (simp add: try_parse_long_def stoll_int_str)

text \<open>
  Beacons of honest nodes are accepted: when a node whose key pair works sends a beacon, every
  other node whose clock differs by less than 61 seconds reads back its identity, ports, key,
  fingerprint and certificate; one whose clock differs by at least 61 seconds rejects it.
\<close>

theorem beacon_wire_roundtrip:
  assumes "plain_field nid" "plain_field fpr" "nid \<noteq> my_id" "pem \<noteq> []"
    "- (2 ^ 31) \<le> tcp" "tcp < 2 ^ 31" "- (2 ^ 31) \<le> tls" "tls < 2 ^ 31" "- (2 ^ 63) \<le> us" "us < 2 ^ 63"
    and sig: "get_pubkey_from_pem L pem = Some pub" "sign_payload L key blob = sig" "sig \<noteq> []"
      "verify_signature L (Some pub) blob sig" "blob = beacon_blob nid tcp tls us fpr (base64_encode cert)"
  shows "read_beacon L my_id now_us
      (split_string (beacon_payload L key nid tcp tls us (base64_encode pem) fpr cert) (CHR ''|'')) =
    (if \<bar>now_us - us\<bar> < 61 * 1000000
     then Some \<lparr>bc_peer_id = nid, bc_tcp_port = tcp, bc_tls_port = tls, bc_timestamp = us, bc_pem = pem,
            bc_fingerprint = fpr, bc_has_fingerprint = True, bc_cert_b64 = base64_encode cert, bc_has_cert = True\<rparr>
     else None)"
proof -
  let ?toks = "[''DISCOVERY'', nid, int_str tcp, int_str tls, int_str us, base64_encode pem, fpr, base64_encode cert, base64_encode sig]"
  let ?b = "\<lparr>bc_peer_id = nid, bc_tcp_port = tcp, bc_tls_port = tls, bc_timestamp = us, bc_pem = pem,
      bc_fingerprint = fpr, bc_has_fingerprint = True, bc_cert_b64 = base64_encode cert, bc_has_cert = True\<rparr>"
  have "plain_field (base64_encode pem)" by (simp add: plain_field_def base64_encode_no_bar)
  then have toks: "split_string (beacon_payload L key nid tcp tls us (base64_encode pem) fpr cert) (CHR ''|'') = ?toks"
    using beacon_tokens [OF assms(1,2)] sig by simp
  have fields: "beacon_fields ?toks = Some (?b, base64_encode sig)"
    using assms(5-10) by (simp add: beacon_fields_def Let_def try_parse_int_str try_parse_long_str)
  have "signed_beacon (length ?toks) ?b = blob" using sig(5) by (simp add: signed_beacon_def)
  moreover have "(trunc_div d 1000000 > 60 \<or> trunc_div d 1000000 < -60) \<longleftrightarrow> \<not> \<bar>d\<bar> < 61 * 1000000" for d
    by (simp add: trunc_div_def) linarith
  ultimately show ?thesis
    unfolding toks read_beacon_def fields using assms(3,4) sig by (simp add: Let_def)
qed

theorem beacon_wire_roundtrip_witness:
  "read_beacon demo_ssl ''B'' 90000000
      (split_string (beacon_payload demo_ssl ''keyA'' ''A'' 10000 10500 60000000 (base64_encode ''keyA'') ''fpr'' ''cert'') (CHR ''|'')) =
    Some \<lparr>bc_peer_id = ''A'', bc_tcp_port = 10000, bc_tls_port = 10500, bc_timestamp = 60000000, bc_pem = ''keyA'',
      bc_fingerprint = ''fpr'', bc_has_fingerprint = True, bc_cert_b64 = base64_encode ''cert'', bc_has_cert = True\<rparr>"
  using beacon_wire_roundtrip [of "''A''" "''fpr''" "''B''" "''keyA''" 10000 10500 60000000 demo_ssl "''keyA''" "''keyA''",
      OF _ _ _ _ _ _ _ _ _ _ _ _ _ _ refl, of "''cert''" "''keyA#'' @ beacon_blob ''A'' 10000 10500 60000000 ''fpr'' (base64_encode ''cert'')" 90000000]
  by (simp add: plain_field_def)

lemma str_find_char: "c \<notin> set x \<Longrightarrow> str_find [c] (x @ c # y) = Some (length x)"
  by (induction x) (auto simp: starts_with_def)

lemma find_from_field: "c \<notin> set x \<Longrightarrow> find_from c (length p) (p @ x @ c # y) = Some (length p + length x)"
  by (simp add: find_from_def str_find_char)

text \<open>
  Telemetry travels unchanged: what a node gossips is read back by every other node as its
  identity, its encoded signature and the telemetry, whatever the telemetry contains, the separator
  included.
\<close>

theorem telemetry_wire_roundtrip:
  assumes "plain_field nid" "nid \<noteq> []" "length nid \<le> 64" "nid \<noteq> my_id"
  shows "telemetry_fields my_id (telemetry_payload L key nid json) =
    Some (nid, base64_encode (sign_payload L key (telemetry_blob nid json)), json)"
proof -
  define s where "s = base64_encode (sign_payload L key (telemetry_blob nid json))"
  have s: "CHR ''|'' \<notin> set s" by (simp add: s_def base64_encode_no_bar)
  obtain t where t: "''TELEMETRY'' = t" "length t = 9" "CHR ''|'' \<notin> set t" by simp
  have eq: "telemetry_payload L key nid json = t @ CHR ''|'' # nid @ CHR ''|'' # s @ CHR ''|'' # json"
    by (simp add: telemetry_payload_def s_def flip: t(1))
  have 1: "find_from (CHR ''|'') 0 (telemetry_payload L key nid json) = Some 9"
    using find_from_field [OF t(3), of "[]"] t(2) unfolding eq by simp
  have 2: "find_from (CHR ''|'') 10 (telemetry_payload L key nid json) = Some (10 + length nid)"
    using find_from_field [of "CHR ''|''" nid "t @ [CHR ''|'']"] assms(1) t(2) unfolding eq plain_field_def by simp
  have 3: "find_from (CHR ''|'') (11 + length nid) (telemetry_payload L key nid json) = Some (11 + length nid + length s)"
    using find_from_field [OF s, of "t @ CHR ''|'' # nid @ [CHR ''|'']" json] t(2) unfolding eq by simp
  have sub: "substr (telemetry_payload L key nid json) 10 (length nid) = nid"
    "substr (telemetry_payload L key nid json) (11 + length nid) (length s) = s"
    "drop (12 + (length nid + length s)) (telemetry_payload L key nid json) = json"
    using t(2) unfolding eq substr_def by (simp_all add: drop_Cons')
  show ?thesis unfolding telemetry_fields_def s_def [symmetric]
    using 1 2 3 sub assms(2-4) by (simp add: Let_def)
qed

theorem telemetry_wire_roundtrip_witness:
  "telemetry_fields ''B'' (telemetry_payload demo_ssl ''keyA'' ''A'' ''{\"a\":\"x|y\"}'') =
    Some (''A'', base64_encode (sign_payload demo_ssl ''keyA'' (telemetry_blob ''A'' ''{\"a\":\"x|y\"}'')), ''{\"a\":\"x|y\"}'')"
  by (rule telemetry_wire_roundtrip) (simp_all add: plain_field_def)

end
