(* ===== verification/PeerManager.thy ===== *)
theory PeerManager
  imports PBFT_Inv Rate_Limit
begin

text \<open>
  \<open>consensus/PeerManager.{hpp,cpp}\<close>: the registry of peers, trust on first use of keys and
  TLS certificates, the dual-path confirmation of keys, rate limiting by address, the consensus
  cool-down and the telemetry kept for gossip. The state is the record \<open>peer_manager\<close>. Where a
  loop visits an \<open>std::unordered_map\<close>, the order it is visited in is the argument
  \<open>ord\<close>, a list of its keys.
\<close>

unbundle bit_operations_syntax


section \<open>State\<close>

record peer_entry =
  pe_node_id :: node_id
  pe_ip :: string
  pe_tcp_port :: int
  pe_tls_port :: int
  pe_public_key_pem :: pem
  pe_last_heartbeat :: time
  pe_verified :: bool
  pe_tls_fd :: int
  pe_confirmed_paths :: "8 word"

definition PATH_BEACON :: "8 word" where "PATH_BEACON = 1"
definition PATH_ANNOUNCE :: "8 word" where "PATH_ANNOUNCE = 2"

definition RATE_LIMIT_PER_SEC :: nat where "RATE_LIMIT_PER_SEC = 100"
definition CONSENSUS_COOLDOWN_SEC :: int where "CONSENSUS_COOLDOWN_SEC = 30"
definition LIVENESS_SEC :: int where "LIVENESS_SEC = 30"
definition RATE_LIMIT_MAP_CAP :: nat where "RATE_LIMIT_MAP_CAP = 4096"
definition RATE_LIMIT_EVICT_SEC :: int where "RATE_LIMIT_EVICT_SEC = 30"

lemmas pm_consts = PATH_BEACON_def PATH_ANNOUNCE_def RATE_LIMIT_PER_SEC_def CONSENSUS_COOLDOWN_SEC_def
  LIVENESS_SEC_def RATE_LIMIT_MAP_CAP_def RATE_LIMIT_EVICT_SEC_def

record tofu_entry =
  pinned_tls_fingerprint :: string
  first_seen :: time

record rate_limit_state =
  rl_count :: nat
  rl_window_start :: time

record peer_manager =
  m_peers :: "node_id \<rightharpoonup> peer_entry"
  m_tofu_trust :: "node_id \<rightharpoonup> tofu_entry"
  m_pre_provisioned_keys :: "node_id \<rightharpoonup> pem"
  m_ip_limits :: "string \<rightharpoonup> rate_limit_state"
  m_last_consensus :: "string \<rightharpoonup> time"
  m_own_telemetry :: string
  m_peer_telemetry :: "node_id \<rightharpoonup> string"
  m_known_peer_ips :: "string set"

definition default_peer :: peer_entry where
  "default_peer = \<lparr>pe_node_id = [], pe_ip = [], pe_tcp_port = 0, pe_tls_port = 0, pe_public_key_pem = [],
     pe_last_heartbeat = 0, pe_verified = False, pe_tls_fd = -1, pe_confirmed_paths = 0\<rparr>"

definition new_peer_manager :: peer_manager where
  "new_peer_manager = \<lparr>m_peers = Map.empty, m_tofu_trust = Map.empty, m_pre_provisioned_keys = Map.empty,
     m_ip_limits = Map.empty, m_last_consensus = Map.empty, m_own_telemetry = [],
     m_peer_telemetry = Map.empty, m_known_peer_ips = {}\<rparr>"


section \<open>Registry\<close>

definition add_peer ::
  "time \<Rightarrow> node_id \<Rightarrow> string \<Rightarrow> int \<Rightarrow> int \<Rightarrow> pem \<Rightarrow> peer_manager \<Rightarrow> bool \<times> peer_manager" where
  "add_peer now peer_id ip tcp_port tls_port public_key_pem s =
     (if m_peers s peer_id \<noteq> None then (False, s)
      else (True, s\<lparr>m_peers := (m_peers s)(peer_id \<mapsto>
        default_peer\<lparr>pe_node_id := peer_id, pe_ip := ip, pe_tcp_port := tcp_port, pe_tls_port := tls_port,
          pe_public_key_pem := public_key_pem, pe_last_heartbeat := now,
          pe_verified := (public_key_pem \<noteq> [])\<rparr>)\<rparr>))"

definition update_peer_heartbeat ::
  "time \<Rightarrow> node_id \<Rightarrow> string \<Rightarrow> int \<Rightarrow> int \<Rightarrow> pem \<Rightarrow> peer_manager \<Rightarrow> bool \<times> peer_manager" where
  "update_peer_heartbeat now peer_id ip tcp_port tls_port public_key_pem s =
     (case m_peers s peer_id of
        None \<Rightarrow> (False, s)
      | Some e \<Rightarrow>
          let e = e\<lparr>pe_last_heartbeat := now, pe_ip := ip, pe_tcp_port := tcp_port, pe_tls_port := tls_port\<rparr>;
              e = (if public_key_pem \<noteq> [] \<and> pe_public_key_pem e = []
                   then e\<lparr>pe_public_key_pem := public_key_pem, pe_verified := True\<rparr> else e)
          in (True, s\<lparr>m_peers := (m_peers s)(peer_id \<mapsto> e)\<rparr>))"

definition pm_has_peer :: "peer_manager \<Rightarrow> node_id \<Rightarrow> bool" where
  "pm_has_peer s peer_id \<longleftrightarrow> m_peers s peer_id \<noteq> None"

definition get_peer :: "peer_manager \<Rightarrow> node_id \<Rightarrow> peer_entry" where
  "get_peer s peer_id = (case m_peers s peer_id of None \<Rightarrow> default_peer | Some e \<Rightarrow> e)"

definition get_all_peers :: "node_id list \<Rightarrow> peer_manager \<Rightarrow> peer_entry list" where
  "get_all_peers ord s = List.map_filter (m_peers s) ord"

definition get_all_peer_ids :: "node_id list \<Rightarrow> peer_manager \<Rightarrow> node_id list" where
  "get_all_peer_ids ord s = filter (\<lambda>n. m_peers s n \<noteq> None) ord"

definition pm_peer_count :: "peer_manager \<Rightarrow> int" where
  "pm_peer_count s = int (card (dom (m_peers s)))"

definition remove_peer :: "node_id \<Rightarrow> peer_manager \<Rightarrow> peer_manager" where
  "remove_peer peer_id s = s\<lparr>m_peers := (m_peers s)(peer_id := None)\<rparr>"

definition stale_peer :: "time \<Rightarrow> peer_manager \<Rightarrow> node_id \<Rightarrow> bool" where
  "stale_peer now s n =
     (case m_peers s n of None \<Rightarrow> False | Some e \<Rightarrow> dsecs (now - pe_last_heartbeat e) > LIVENESS_SEC)"

definition get_stale_peers :: "node_id list \<Rightarrow> time \<Rightarrow> peer_manager \<Rightarrow> node_id list" where
  "get_stale_peers ord now s = filter (stale_peer now s) ord"

definition get_peer_tls_fd :: "peer_manager \<Rightarrow> node_id \<Rightarrow> int option" where
  "get_peer_tls_fd s peer_id =
     (case m_peers s peer_id of None \<Rightarrow> None
      | Some e \<Rightarrow> if pe_tls_fd e < 0 then None else Some (pe_tls_fd e))"

definition set_peer_tls_fd :: "node_id \<Rightarrow> int \<Rightarrow> peer_manager \<Rightarrow> peer_manager" where
  "set_peer_tls_fd peer_id fd s =
     (case m_peers s peer_id of None \<Rightarrow> s
      | Some e \<Rightarrow> s\<lparr>m_peers := (m_peers s)(peer_id \<mapsto> e\<lparr>pe_tls_fd := fd\<rparr>)\<rparr>)"

definition get_peer_key :: "peer_manager \<Rightarrow> node_id \<Rightarrow> pem" where
  "get_peer_key s peer_id = (case m_peers s peer_id of None \<Rightarrow> [] | Some e \<Rightarrow> pe_public_key_pem e)"

definition is_peer_verified :: "peer_manager \<Rightarrow> node_id \<Rightarrow> bool" where
  "is_peer_verified s peer_id = (case m_peers s peer_id of None \<Rightarrow> False | Some e \<Rightarrow> pe_verified e)"


section \<open>Trust on first use\<close>

definition verify_tls_cert :: "peer_manager \<Rightarrow> node_id \<Rightarrow> string \<Rightarrow> bool" where
  "verify_tls_cert s peer_id fpr =
     (case m_tofu_trust s peer_id of None \<Rightarrow> True
      | Some e \<Rightarrow> if pinned_tls_fingerprint e = [] then True else pinned_tls_fingerprint e = fpr)"

definition unpin_peer_key :: "node_id \<Rightarrow> peer_manager \<Rightarrow> peer_manager" where
  "unpin_peer_key node_id s =
     s\<lparr>m_peers := (case m_peers s node_id of None \<Rightarrow> m_peers s
          | Some e \<Rightarrow> (m_peers s)(node_id \<mapsto> e\<lparr>pe_public_key_pem := [], pe_verified := False\<rparr>)),
       m_tofu_trust := (m_tofu_trust s)(node_id := None)\<rparr>"

definition pin_tls_fingerprint :: "time \<Rightarrow> node_id \<Rightarrow> string \<Rightarrow> peer_manager \<Rightarrow> peer_manager" where
  "pin_tls_fingerprint now peer_id fpr s =
     (let e = (case m_tofu_trust s peer_id of None \<Rightarrow> \<lparr>pinned_tls_fingerprint = [], first_seen = 0\<rparr> | Some e \<Rightarrow> e)
      in s\<lparr>m_tofu_trust := (m_tofu_trust s)(peer_id \<mapsto>
            e\<lparr>pinned_tls_fingerprint := fpr, first_seen := (if first_seen e = 0 then now else first_seen e)\<rparr>)\<rparr>)"

definition pre_provision_peer_key :: "node_id \<Rightarrow> pem \<Rightarrow> peer_manager \<Rightarrow> peer_manager" where
  "pre_provision_peer_key peer_id key s =
     s\<lparr>m_pre_provisioned_keys := (m_pre_provisioned_keys s)(peer_id \<mapsto> key)\<rparr>"

definition is_peer_pre_provisioned :: "peer_manager \<Rightarrow> node_id \<Rightarrow> bool" where
  "is_peer_pre_provisioned s peer_id \<longleftrightarrow> m_pre_provisioned_keys s peer_id \<noteq> None"


section \<open>Dual-path confirmation\<close>

record path_confirm_result =
  dual_confirmed :: bool
  key_mismatch :: bool

definition both_paths :: "8 word \<Rightarrow> bool" where
  "both_paths paths \<longleftrightarrow> paths AND (PATH_BEACON OR PATH_ANNOUNCE) = (PATH_BEACON OR PATH_ANNOUNCE)"

text \<open>The part both branches of \<open>confirm_path\<close> end with: the path is marked, and the key is
  kept if none was stored.\<close>

definition mark_path :: "8 word \<Rightarrow> pem \<Rightarrow> peer_entry \<Rightarrow> peer_entry" where
  "mark_path path_flag public_key_pem e =
     (let e = e\<lparr>pe_confirmed_paths := pe_confirmed_paths e OR path_flag\<rparr> in
      if public_key_pem \<noteq> [] \<and> pe_public_key_pem e = []
      then e\<lparr>pe_public_key_pem := public_key_pem, pe_verified := True\<rparr> else e)"

definition confirm_entry ::
  "pem option \<Rightarrow> 8 word \<Rightarrow> pem \<Rightarrow> peer_entry \<Rightarrow> path_confirm_result \<times> peer_entry" where
  "confirm_entry prov path_flag public_key_pem entry =
     (case prov of
        Some expected \<Rightarrow>
          if public_key_pem \<noteq> [] \<and> expected \<noteq> public_key_pem
          then (\<lparr>dual_confirmed = False, key_mismatch = True\<rparr>, entry)
          else let entry = mark_path path_flag public_key_pem entry in
               (\<lparr>dual_confirmed = both_paths (pe_confirmed_paths entry), key_mismatch = False\<rparr>, entry)
      | None \<Rightarrow>
          if pe_confirmed_paths entry AND path_flag \<noteq> 0
          then if public_key_pem \<noteq> [] \<and> pe_public_key_pem entry \<noteq> public_key_pem
               then (\<lparr>dual_confirmed = False, key_mismatch = True\<rparr>, entry)
               else (\<lparr>dual_confirmed = both_paths (pe_confirmed_paths entry), key_mismatch = False\<rparr>, entry)
          else if pe_confirmed_paths entry \<noteq> 0 \<and> pe_public_key_pem entry \<noteq> []
               \<and> public_key_pem \<noteq> [] \<and> pe_public_key_pem entry \<noteq> public_key_pem
          then (\<lparr>dual_confirmed = False, key_mismatch = True\<rparr>, entry)
          else let entry = mark_path path_flag public_key_pem entry in
               (\<lparr>dual_confirmed = both_paths (pe_confirmed_paths entry), key_mismatch = False\<rparr>, entry))"

definition confirm_path ::
  "node_id \<Rightarrow> 8 word \<Rightarrow> pem \<Rightarrow> peer_manager \<Rightarrow> path_confirm_result \<times> peer_manager" where
  "confirm_path peer_id path_flag public_key_pem s =
     (case m_peers s peer_id of
        None \<Rightarrow> (\<lparr>dual_confirmed = False, key_mismatch = False\<rparr>, s)
      | Some entry \<Rightarrow>
          let (r, entry) = confirm_entry (m_pre_provisioned_keys s peer_id) path_flag public_key_pem entry
          in (r, s\<lparr>m_peers := (m_peers s)(peer_id \<mapsto> entry)\<rparr>))"


section \<open>Rate limiting by address\<close>

definition sweep_limits :: "time \<Rightarrow> (string \<rightharpoonup> rate_limit_state) \<Rightarrow> (string \<rightharpoonup> rate_limit_state)" where
  "sweep_limits now m =
     (\<lambda>ip. case m ip of None \<Rightarrow> None
       | Some r \<Rightarrow> if dsecs (now - rl_window_start r) > RATE_LIMIT_EVICT_SEC then None else Some r)"

text \<open>The scan for the oldest entry keeps the first of several that started at the same time.\<close>

fun oldest_limit :: "(string \<rightharpoonup> rate_limit_state) \<Rightarrow> string list \<Rightarrow> string option \<Rightarrow> string option" where
  "oldest_limit m [] best = best"
| "oldest_limit m (k # ks) best =
     (case m k of None \<Rightarrow> oldest_limit m ks best
      | Some r \<Rightarrow>
          (case best of None \<Rightarrow> oldest_limit m ks (Some k)
           | Some b \<Rightarrow>
               (case m b of None \<Rightarrow> oldest_limit m ks (Some k)
                | Some rb \<Rightarrow> oldest_limit m ks
                    (if rl_window_start r < rl_window_start rb then Some k else Some b))))"

definition pm_check_rate_limit :: "string list \<Rightarrow> time \<Rightarrow> string \<Rightarrow> peer_manager \<Rightarrow> bool \<times> peer_manager" where
  "pm_check_rate_limit ord now ip s =
     (let rl = (case m_ip_limits s ip of None \<Rightarrow> \<lparr>rl_count = 0, rl_window_start = 0\<rparr> | Some r \<Rightarrow> r);
          rl = (if dmillis (now - rl_window_start rl) \<ge> 1000
                then rl\<lparr>rl_window_start := now, rl_count := 0\<rparr> else rl);
          rl = rl\<lparr>rl_count := rl_count rl + 1\<rparr>;
          limits = (m_ip_limits s)(ip \<mapsto> rl)
      in if rl_count rl > RATE_LIMIT_PER_SEC then (False, s\<lparr>m_ip_limits := limits\<rparr>)
         else if card (dom limits) > RATE_LIMIT_MAP_CAP
         then let limits = sweep_limits now limits in
              if card (dom limits) > RATE_LIMIT_MAP_CAP
              then (True, s\<lparr>m_ip_limits :=
                     (case oldest_limit limits ord None of None \<Rightarrow> limits | Some k \<Rightarrow> limits(k := None))\<rparr>)
              else (True, s\<lparr>m_ip_limits := limits\<rparr>)
         else (True, s\<lparr>m_ip_limits := limits\<rparr>))"

definition reset_rate_limit :: "string \<Rightarrow> peer_manager \<Rightarrow> peer_manager" where
  "reset_rate_limit ip s = s\<lparr>m_ip_limits := (m_ip_limits s)(ip := None)\<rparr>"


section \<open>Cool-down, telemetry, known addresses\<close>

definition is_on_cooldown :: "time \<Rightarrow> peer_manager \<Rightarrow> string \<Rightarrow> bool" where
  "is_on_cooldown now s target =
     (case m_last_consensus s target of None \<Rightarrow> False | Some t \<Rightarrow> dsecs (now - t) < CONSENSUS_COOLDOWN_SEC)"

definition set_cooldown :: "time \<Rightarrow> string \<Rightarrow> peer_manager \<Rightarrow> peer_manager" where
  "set_cooldown now target s = s\<lparr>m_last_consensus := (m_last_consensus s)(target \<mapsto> now)\<rparr>"

definition set_own_telemetry :: "string \<Rightarrow> peer_manager \<Rightarrow> peer_manager" where
  "set_own_telemetry json s = s\<lparr>m_own_telemetry := json\<rparr>"

definition get_own_telemetry :: "peer_manager \<Rightarrow> string" where
  "get_own_telemetry s = m_own_telemetry s"

definition set_peer_telemetry :: "node_id \<Rightarrow> string \<Rightarrow> peer_manager \<Rightarrow> peer_manager" where
  "set_peer_telemetry peer_id json s = s\<lparr>m_peer_telemetry := (m_peer_telemetry s)(peer_id \<mapsto> json)\<rparr>"

definition get_all_telemetry :: "node_id list \<Rightarrow> peer_manager \<Rightarrow> string" where
  "get_all_telemetry ord s =
     (let own = (if m_own_telemetry s \<noteq> [] then [m_own_telemetry s] else [])
      in ''['' @ join_fields (CHR '','') (own @ List.map_filter (m_peer_telemetry s) ord) @ '']'')"

definition is_known_ip :: "peer_manager \<Rightarrow> string \<Rightarrow> bool" where
  "is_known_ip s ip \<longleftrightarrow> ip \<in> m_known_peer_ips s"

definition add_known_ip :: "string \<Rightarrow> peer_manager \<Rightarrow> peer_manager" where
  "add_known_ip ip s = s\<lparr>m_known_peer_ips := insert ip (m_known_peer_ips s)\<rparr>"


section \<open>Registration with the consensus machine\<close>

definition register_one_with_pbft :: "openssl \<Rightarrow> peer_manager \<Rightarrow> node_id \<Rightarrow> pbft \<Rightarrow> pbft" where
  "register_one_with_pbft L s peer_id p =
     (case m_peers s peer_id of None \<Rightarrow> p
      | Some e \<Rightarrow> if pe_public_key_pem e \<noteq> [] then register_peer_key L peer_id (pe_public_key_pem e) p else p)"

definition register_all_with_pbft :: "openssl \<Rightarrow> node_id list \<Rightarrow> peer_manager \<Rightarrow> pbft \<Rightarrow> pbft" where
  "register_all_with_pbft L ord s p = fold (register_one_with_pbft L s) ord p"


section \<open>Vocabulary of the statements\<close>

text \<open>The confirmations one entry goes through: for each call the path, the key it carried and the
  result, and the entry left.\<close>

primrec confirm_run ::
  "pem option \<Rightarrow> (8 word \<times> pem) list \<Rightarrow> peer_entry \<Rightarrow> (8 word \<times> pem \<times> path_confirm_result) list \<times> peer_entry" where
  "confirm_run prov [] e = ([], e)"
| "confirm_run prov (x # xs) e =
     (let (r, e1) = confirm_entry prov (fst x) (snd x) e; (rs, e2) = confirm_run prov xs e1
      in ((fst x, snd x, r) # rs, e2))"

definition path_flag_ok :: "8 word \<Rightarrow> bool" where
  "path_flag_ok f \<longleftrightarrow> f = PATH_BEACON \<or> f = PATH_ANNOUNCE"

text \<open>Every confirmed path of the entry was confirmed by a call with the stored key.\<close>

definition paths_inv :: "(8 word \<times> pem \<times> path_confirm_result) list \<Rightarrow> peer_entry \<Rightarrow> bool" where
  "paths_inv acc e \<longleftrightarrow>
     pe_confirmed_paths e \<in> {0, 1, 2, 3} \<and> (pe_confirmed_paths e \<noteq> 0 \<longrightarrow> pe_public_key_pem e \<noteq> [])
     \<and> (\<forall>f. path_flag_ok f \<and> pe_confirmed_paths e AND f \<noteq> 0 \<longrightarrow>
           (\<exists>r. (f, pe_public_key_pem e, r) \<in> set acc \<and> \<not> key_mismatch r))"


text \<open>The rate checks of one address at a sequence of times: how many were accepted, and the state
  left.\<close>

primrec pm_rate_run :: "string list \<Rightarrow> string \<Rightarrow> time list \<Rightarrow> peer_manager \<Rightarrow> nat \<times> peer_manager" where
  "pm_rate_run ord ip [] s = (0, s)"
| "pm_rate_run ord ip (t # ts) s =
     (let (ok, s1) = pm_check_rate_limit ord t ip s; (n, s2) = pm_rate_run ord ip ts s1
      in (if ok then Suc n else n, s2))"

definition limit_of :: "string \<Rightarrow> peer_manager \<Rightarrow> rate_limit_state" where
  "limit_of ip s = (case m_ip_limits s ip of None \<Rightarrow> \<lparr>rl_count = 0, rl_window_start = 0\<rparr> | Some r \<Rightarrow> r)"

definition next_limit :: "time \<Rightarrow> rate_limit_state \<Rightarrow> rate_limit_state" where
  "next_limit now rl =
     (if dmillis (now - rl_window_start rl) \<ge> 1000 then \<lparr>rl_count = 1, rl_window_start = now\<rparr>
      else rl\<lparr>rl_count := rl_count rl + 1\<rparr>)"

definition limits_room :: "string \<Rightarrow> peer_manager \<Rightarrow> bool" where
  "limits_room ip s \<longleftrightarrow> finite (dom (m_ip_limits s)) \<and> card (insert ip (dom (m_ip_limits s))) \<le> RATE_LIMIT_MAP_CAP"


section \<open>Sequences of confirmations\<close>

lemma both_paths_iff: "p \<in> {0, 1, 2, 3} \<Longrightarrow> both_paths p \<longleftrightarrow> p = 3"
  by (auto simp: both_paths_def pm_consts)

lemma both_paths_bit: "both_paths p \<Longrightarrow> path_flag_ok f \<Longrightarrow> p AND f \<noteq> 0"
proof -
  have "p AND 1 = (p AND 3) AND 1" "p AND 2 = (p AND 3) AND 2" by (simp_all add: and.assoc)
  then show "both_paths p \<Longrightarrow> path_flag_ok f \<Longrightarrow> p AND f \<noteq> 0"
    by (auto simp: both_paths_def path_flag_ok_def pm_consts)
qed

lemma path_bits:
  "p \<in> {0, 1, 2, 3} \<Longrightarrow> path_flag_ok f \<Longrightarrow> p OR f \<in> {0, 1, 2, 3} \<and> (p OR f) \<noteq> 0 \<and> (p OR f) AND f \<noteq> 0"
  by (auto simp: path_flag_ok_def pm_consts)

lemma path_bits_or:
  "p \<in> {0, 1, 2, 3} \<Longrightarrow> path_flag_ok f \<Longrightarrow> path_flag_ok g \<Longrightarrow> (p OR f) AND g \<noteq> 0 \<Longrightarrow> g = f \<or> p AND g \<noteq> 0"
  by (auto simp: path_flag_ok_def pm_consts)

lemma confirm_entry_inv:
  assumes "paths_inv acc e" "path_flag_ok f" "k \<noteq> []"
    and "pe_confirmed_paths e = 0 \<Longrightarrow> pe_public_key_pem e = [] \<or> pe_public_key_pem e = k"
    and "confirm_entry None f k e = (r, e')"
  shows "paths_inv (acc @ [(f, k, r)]) e' \<and> (dual_confirmed r \<longrightarrow> both_paths (pe_confirmed_paths e') \<and> pe_public_key_pem e' = k)
    \<and> (\<not> key_mismatch r \<longrightarrow> pe_confirmed_paths e' \<noteq> 0)"
proof (cases "key_mismatch r")
  case True
  with assms(5) have "e' = e" "\<not> dual_confirmed r"
    by (auto simp: confirm_entry_def Let_def split: if_splits)
  with assms(1) True show ?thesis by (fastforce simp: paths_inv_def)
next
  case ok: False
  note p = assms(1) [unfolded paths_inv_def]
  show ?thesis
  proof (cases "pe_confirmed_paths e AND f = 0")
    case False
    with assms(3,5) ok have "e' = e" "pe_public_key_pem e = k" "dual_confirmed r = both_paths (pe_confirmed_paths e)"
      by (auto simp: confirm_entry_def Let_def split: if_splits)
    with p False show ?thesis by (fastforce simp: paths_inv_def)
  next
    case True
    with assms(3-5) ok p have e': "e' = mark_path f k e" "dual_confirmed r = both_paths (pe_confirmed_paths e')"
      and key: "pe_public_key_pem e = [] \<or> pe_public_key_pem e = k"
      by (auto simp: confirm_entry_def Let_def split: if_splits)
    then have k': "pe_public_key_pem e' = k" "pe_confirmed_paths e' = pe_confirmed_paths e OR f"
      using assms(3) by (auto simp: mark_path_def Let_def)
    have "\<exists>r'. (g, k, r') \<in> set (acc @ [(f, k, r)]) \<and> \<not> key_mismatch r'"
      if g: "path_flag_ok g" "(pe_confirmed_paths e OR f) AND g \<noteq> 0" for g
      using path_bits_or [of "pe_confirmed_paths e" f g] p assms(2) g key ok by fastforce
    then show ?thesis
      using path_bits [of "pe_confirmed_paths e" f] p assms(2,3) k' e'(2) by (auto simp: paths_inv_def)
  qed
qed


lemma confirm_entry_fresh: "pe_confirmed_paths e = 0 \<Longrightarrow> confirm_entry None f k e = (r, e') \<Longrightarrow> \<not> key_mismatch r"
  by (auto simp: confirm_entry_def Let_def split: if_splits)

lemma confirm_run_agree:
  assumes "paths_inv acc e"
    and "pe_confirmed_paths e = 0 \<Longrightarrow> pe_public_key_pem e = [] \<or> pe_public_key_pem e = snd (hd xs)"
    and "\<forall>x \<in> set xs. path_flag_ok (fst x) \<and> snd x \<noteq> []"
    and "(f, k, r) \<in> set (fst (confirm_run None xs e))" "dual_confirmed r" "path_flag_ok g"
  shows "\<exists>r'. (g, k, r') \<in> set (acc @ fst (confirm_run None xs e)) \<and> \<not> key_mismatch r'"
  using assms
proof (induction xs arbitrary: acc e)
  case (Cons x xs)
  obtain r1 e1 where c: "confirm_entry None (fst x) (snd x) e = (r1, e1)" by fastforce
  have x: "path_flag_ok (fst x)" "snd x \<noteq> []" using Cons.prems(3) by auto
  note step = confirm_entry_inv [OF Cons.prems(1) x _ c]
  have inv: "paths_inv (acc @ [(fst x, snd x, r1)]) e1" using step Cons.prems(2) by simp
  have e1: "pe_confirmed_paths e1 \<noteq> 0"
  proof (cases "pe_confirmed_paths e = 0")
    case True
    with confirm_entry_fresh [OF True c] step Cons.prems(2) show ?thesis by simp
  next
    case False
    then show ?thesis
      using c step Cons.prems(2) by (cases "key_mismatch r1") (auto simp: confirm_entry_def Let_def split: if_splits)
  qed
  show ?case
  proof (cases "(f, k, r) = (fst x, snd x, r1)")
    case True
    with step Cons.prems(2,5) have "both_paths (pe_confirmed_paths e1)" "pe_public_key_pem e1 = k" by simp_all
    moreover have "pe_confirmed_paths e1 \<in> {0, 1, 2, 3}" using inv by (simp add: paths_inv_def)
    ultimately have "pe_confirmed_paths e1 AND g \<noteq> 0"
      using Cons.prems(6) by (auto simp: both_paths_iff path_flag_ok_def pm_consts)
    with inv Cons.prems(6) \<open>pe_public_key_pem e1 = k\<close> show ?thesis
      by (fastforce simp: paths_inv_def c Let_def split_beta)
  next
    case False
    then have "(f, k, r) \<in> set (fst (confirm_run None xs e1))"
      using Cons.prems(4) by (auto simp: c Let_def split_beta)
    from Cons.IH [OF inv _ _ this Cons.prems(5,6)] e1 Cons.prems(3) show ?thesis
      by (fastforce simp: c Let_def split_beta)
  qed
qed simp

text \<open>
  Dual-path agreement: take an entry for which no path is confirmed, whose key is empty or is
  the key of the first confirmation, and any sequence of confirmations with non-empty keys and no
  pre-provisioned key. Whenever one of them reports that both paths are confirmed, the sequence
  holds a confirmation by beacon and one by announcement that carried exactly its key and were not
  reported as a mismatch.
\<close>

theorem dual_path_agreement:
  assumes "pe_confirmed_paths e = 0" "pe_public_key_pem e = [] \<or> pe_public_key_pem e = snd (hd xs)"
    and "\<forall>x \<in> set xs. (fst x = PATH_BEACON \<or> fst x = PATH_ANNOUNCE) \<and> snd x \<noteq> []"
    and "(f, k, r) \<in> set (fst (confirm_run None xs e))" "dual_confirmed r"
  shows "(\<exists>r1. (PATH_BEACON, k, r1) \<in> set (fst (confirm_run None xs e)) \<and> \<not> key_mismatch r1)
    \<and> (\<exists>r2. (PATH_ANNOUNCE, k, r2) \<in> set (fst (confirm_run None xs e)) \<and> \<not> key_mismatch r2)"
proof -
  have "paths_inv [] e" using assms(1) by (simp add: paths_inv_def)
  from confirm_run_agree [OF this _ _ assms(4,5), of PATH_BEACON]
    confirm_run_agree [OF this _ _ assms(4,5), of PATH_ANNOUNCE] assms(2,3)
  show ?thesis by (simp add: path_flag_ok_def)
qed

theorem dual_path_agreement_witness:
  "\<exists>r1. (PATH_BEACON, ''key'', r1) \<in>
     set (fst (confirm_run None [(PATH_BEACON, ''key''), (PATH_ANNOUNCE, ''key'')] default_peer)) \<and> \<not> key_mismatch r1"
  using dual_path_agreement [of default_peer "[(PATH_BEACON, ''key''), (PATH_ANNOUNCE, ''key'')]" PATH_ANNOUNCE "''key''"
      "\<lparr>dual_confirmed = True, key_mismatch = False\<rparr>"]
  by (simp add: default_peer_def confirm_entry_def mark_path_def both_paths_def Let_def pm_consts)

text \<open>
  The agreement depends on adding and confirming a key in one step: when the announcement is
  processed between the beacon's \<open>add_peer\<close> and its \<open>confirm_path\<close>, the announced key
  is not compared with the stored one, and the beacon's key is then reported as confirmed on both
  paths although the announcement carried another key.
\<close>

theorem dual_path_race:
  "let s1 = snd (add_peer 0 ''B'' ''10.0.0.2'' 1 2 ''beacon-key'' new_peer_manager);
       s2 = snd (add_peer 0 ''B'' ''10.0.0.9'' 0 0 ''announced-key'' s1);
       (r1, s3) = confirm_path ''B'' PATH_ANNOUNCE ''announced-key'' s2;
       (r2, s4) = confirm_path ''B'' PATH_BEACON ''beacon-key'' s3
   in \<not> key_mismatch r1 \<and> \<not> key_mismatch r2 \<and> dual_confirmed r2 \<and> get_peer_key s4 ''B'' = ''beacon-key''"
  by (simp add: add_peer_def confirm_path_def confirm_entry_def mark_path_def both_paths_def new_peer_manager_def
      default_peer_def get_peer_key_def Let_def pm_consts)

text \<open>
  Unpinning a key does not reset the confirmed paths. A peer that was confirmed on both paths
  is then reported as a mismatch for every new key on either path, and the entry never changes, so
  the peer cannot come back with a rotated key. A peer that was confirmed on one path only is
  confirmed on both by a single message on the other path, whatever key it carries.
\<close>

theorem unpin_breaks_confirmation:
  assumes "m_peers s n = Some e" "m_pre_provisioned_keys s n = None" "k \<noteq> []" "path_flag_ok f"
  shows "(both_paths (pe_confirmed_paths e) \<longrightarrow>
      confirm_path n f k (unpin_peer_key n s) = (\<lparr>dual_confirmed = False, key_mismatch = True\<rparr>, unpin_peer_key n s))
    \<and> (pe_confirmed_paths e = PATH_BEACON \<longrightarrow>
        dual_confirmed (fst (confirm_path n PATH_ANNOUNCE k (unpin_peer_key n s)))
        \<and> get_peer_key (snd (confirm_path n PATH_ANNOUNCE k (unpin_peer_key n s))) n = k)"
proof (intro conjI impI)
  assume "both_paths (pe_confirmed_paths e)"
  then have "pe_confirmed_paths e AND f \<noteq> 0" using assms(4) by (rule both_paths_bit)
  then show "confirm_path n f k (unpin_peer_key n s) = (\<lparr>dual_confirmed = False, key_mismatch = True\<rparr>, unpin_peer_key n s)"
    using assms(1-3) by (simp add: confirm_path_def unpin_peer_key_def confirm_entry_def)
qed (use assms(1-3) in \<open>simp_all add: confirm_path_def unpin_peer_key_def confirm_entry_def mark_path_def
      both_paths_def get_peer_key_def Let_def pm_consts\<close>)


theorem unpin_breaks_confirmation_witness:
  "key_mismatch (fst (confirm_path ''B'' PATH_BEACON ''rotated'' (unpin_peer_key ''B''
     (new_peer_manager\<lparr>m_peers := [''B'' \<mapsto> default_peer\<lparr>pe_public_key_pem := ''old'', pe_confirmed_paths := 3\<rparr>]\<rparr>))))"
  using unpin_breaks_confirmation [of "new_peer_manager\<lparr>m_peers := [''B'' \<mapsto> default_peer\<lparr>pe_public_key_pem := ''old'', pe_confirmed_paths := 3\<rparr>]\<rparr>"
      "''B''" "default_peer\<lparr>pe_public_key_pem := ''old'', pe_confirmed_paths := 3\<rparr>" "''rotated''" PATH_BEACON]
  by (simp add: new_peer_manager_def both_paths_def path_flag_ok_def pm_consts)

text \<open>
  Pre-provisioned keys are enforced: when a key is pre-provisioned for a peer, a confirmation
  that carries another key is reported as a mismatch, confirms nothing and leaves the registry as
  it is, on either path and in every state; one that carries that key is never reported as a
  mismatch.
\<close>

theorem pre_provisioned_enforced:
  assumes "m_pre_provisioned_keys s n = Some k" "pm_has_peer s n" "k' \<noteq> []"
  shows "if k' = k then \<not> key_mismatch (fst (confirm_path n f k' s))
         else confirm_path n f k' s = (\<lparr>dual_confirmed = False, key_mismatch = True\<rparr>, s)"
  using assms by (auto simp: pm_has_peer_def confirm_path_def confirm_entry_def Let_def map_upd_triv)

theorem pre_provisioned_enforced_witness:
  "fst (confirm_path ''B'' PATH_BEACON ''forged''
     (pre_provision_peer_key ''B'' ''real'' (snd (add_peer 0 ''B'' ''ip'' 1 2 [] new_peer_manager))))
   = \<lparr>dual_confirmed = False, key_mismatch = True\<rparr>"
  using pre_provisioned_enforced [of "pre_provision_peer_key ''B'' ''real''
      (snd (add_peer 0 ''B'' ''ip'' 1 2 [] new_peer_manager))" "''B''" "''real''" "''forged''" PATH_BEACON]
  by (simp add: pre_provision_peer_key_def pm_has_peer_def add_peer_def new_peer_manager_def)


section \<open>Rate limiting\<close>

lemma next_limit_eq:
  "(let rl = (if dmillis (now - rl_window_start rl) \<ge> 1000 then rl\<lparr>rl_window_start := now, rl_count := 0\<rparr> else rl)
    in rl\<lparr>rl_count := rl_count rl + 1\<rparr>) = next_limit now rl"
  by (cases rl) (simp add: next_limit_def)

lemma pm_check_rate_limit_room:
  assumes "limits_room ip s"
  shows "pm_check_rate_limit ord now ip s =
    (rl_count (next_limit now (limit_of ip s)) \<le> RATE_LIMIT_PER_SEC,
     s\<lparr>m_ip_limits := (m_ip_limits s)(ip \<mapsto> next_limit now (limit_of ip s))\<rparr>)"
proof -
  have "\<not> RATE_LIMIT_MAP_CAP < card (dom ((m_ip_limits s)(ip \<mapsto> r)))" for r
    using assms by (simp add: limits_room_def)
  then show ?thesis
    unfolding pm_check_rate_limit_def limit_of_def [symmetric] next_limit_eq [symmetric] Let_def by auto
qed

lemma limits_room_upd [simp]:
  "limits_room ip s \<Longrightarrow> limits_room ip (s\<lparr>m_ip_limits := (m_ip_limits s)(ip \<mapsto> r)\<rparr>)"
  by (simp add: limits_room_def)

lemma limit_of_upd [simp]: "limit_of ip (s\<lparr>m_ip_limits := (m_ip_limits s)(ip \<mapsto> r)\<rparr>) = r"
  by (simp add: limit_of_def)

lemma dmillis_zero [simp]: "dmillis 0 = 0"
  by (simp add: dmillis_def trunc_div_def)

lemma next_limit_again: "dmillis (t - rl_window_start (next_limit t rl)) < 1000"
  by (simp add: next_limit_def)

interpretation pm_rate: rate_limiter "limits_room ip" "\<lambda>t. pm_check_rate_limit ord t ip"
  "\<lambda>s. int (min RATE_LIMIT_PER_SEC (rl_count (limit_of ip s)))" "\<lambda>s. int RATE_LIMIT_PER_SEC" for ip ord
  by unfold_locales
    (use next_limit_again in \<open>auto simp: pm_check_rate_limit_room RATE_LIMIT_PER_SEC_def min_def next_limit_def
       split: if_splits\<close>)

text \<open>Within less than a second the window starts afresh at most once: what was accepted before
  and after is bounded by the counter in each part.\<close>

lemma dmillis_less_iff: "dmillis d < 1000 \<longleftrightarrow> d < 1000000000"
  using trunc_div_nonpos [of d 1000000] int_div_less_iff [of 1000000 d 1000]
  by (cases "0 \<le> d") (auto simp: dmillis_def trunc_div_def)

lemma pm_rate_run_fresh:
  assumes "limits_room ip s" "\<forall>t \<in> set ts. t - rl_window_start (limit_of ip s) < 1000000000"
  shows "fst (pm_rate_run ord ip ts s) + min RATE_LIMIT_PER_SEC (rl_count (limit_of ip s)) \<le> RATE_LIMIT_PER_SEC"
  using assms
proof (induction ts arbitrary: s)
  case (Cons t ts)
  let ?r = "next_limit t (limit_of ip s)"
  let ?s1 = "s\<lparr>m_ip_limits := (m_ip_limits s)(ip \<mapsto> ?r)\<rparr>"
  have r: "?r = (limit_of ip s)\<lparr>rl_count := rl_count (limit_of ip s) + 1\<rparr>"
    using Cons.prems(2) dmillis_less_iff [of "t - rl_window_start (limit_of ip s)"]
    by (simp add: next_limit_def)
  have "fst (pm_rate_run ord ip ts ?s1) + min RATE_LIMIT_PER_SEC (rl_count (limit_of ip ?s1)) \<le> RATE_LIMIT_PER_SEC"
    using Cons.prems r by (intro Cons.IH) auto
  then show ?case
    using r by (auto simp: pm_check_rate_limit_room [OF Cons.prems(1)] Let_def split_beta)
qed simp

lemma pm_rate_run_second:
  assumes "limits_room ip s" "\<forall>t \<in> set ts. t0 \<le> t \<and> t - t0 < 1000000000"
  shows "fst (pm_rate_run ord ip ts s) + min RATE_LIMIT_PER_SEC (rl_count (limit_of ip s)) \<le> 2 * RATE_LIMIT_PER_SEC"
  using assms
proof (induction ts arbitrary: s)
  case (Cons t ts)
  let ?r = "next_limit t (limit_of ip s)"
  let ?s1 = "s\<lparr>m_ip_limits := (m_ip_limits s)(ip \<mapsto> ?r)\<rparr>"
  have room: "limits_room ip ?s1" using Cons.prems(1) by simp
  show ?case
  proof (cases "dmillis (t - rl_window_start (limit_of ip s)) \<ge> 1000")
    case True
    then have "rl_window_start (limit_of ip ?s1) = t" "rl_count (limit_of ip ?s1) = 1"
      by (simp_all add: next_limit_def)
    moreover have "t' - t < 1000000000" if "t' \<in> set ts" for t'
      using Cons.prems(2) that by force
    ultimately have "fst (pm_rate_run ord ip ts ?s1) + 1 \<le> RATE_LIMIT_PER_SEC"
      using pm_rate_run_fresh [OF room, of ts ord] by (simp add: RATE_LIMIT_PER_SEC_def)
    then show ?thesis
      by (auto simp: pm_check_rate_limit_room [OF Cons.prems(1)] Let_def split_beta min_def)
  next
    case False
    then have "?r = (limit_of ip s)\<lparr>rl_count := rl_count (limit_of ip s) + 1\<rparr>" by (simp add: next_limit_def)
    with Cons.IH [OF room] Cons.prems(2) show ?thesis
      by (auto simp: pm_check_rate_limit_room [OF Cons.prems(1)] Let_def split_beta)
  qed
qed simp

lemma pm_rate_run_snoc:
  "pm_rate_run ord ip (ts @ [t]) s =
     (let (n, s1) = pm_rate_run ord ip ts s; (ok, s2) = pm_check_rate_limit ord t ip s1
      in (if ok then Suc n else n, s2))"
  by (induction ts arbitrary: s) (auto simp: Let_def split_beta)

lemma pm_rate_run_burst:
  "int (fst (pm_rate_run ord ip (replicate k t) s)) = fst (pm_rate.burst ord ip k t s)
   \<and> snd (pm_rate_run ord ip (replicate k t) s) = snd (pm_rate.burst ord ip k t s)"
proof (induction k)
  case (Suc k)
  then show ?case
    by (simp only: replicate_Suc replicate_append_same [symmetric] pm_rate_run_snoc pm_rate.burst.simps
        Let_def split_beta) simp
qed simp

text \<open>
  Flood protection by address: as long as the table of addresses has room, of the messages of
  one address that arrive within one second, however many there are, at most 200 pass the check;
  of those that arrive at one instant at most 100 do.
\<close>

theorem address_rate_bounded:
  assumes "limits_room ip s" "\<forall>t \<in> set ts. t0 \<le> t \<and> t - t0 < 1000000000"
  shows "fst (pm_rate_run ord ip ts s) \<le> 200 \<and> fst (pm_rate_run ord ip (replicate k t) s) \<le> 100"
  using pm_rate_run_second [OF assms, of ord] pm_rate.burst_bounded [OF assms(1), of ord k t]
    pm_rate_run_burst [of ord ip k t s]
  by (simp add: RATE_LIMIT_PER_SEC_def)

theorem address_rate_bounded_witness:
  "fst (pm_rate_run [] ''10.0.0.9'' (replicate 500 7) new_peer_manager) \<le> 100"
proof -
  have "limits_room ''10.0.0.9'' new_peer_manager"
    by (simp add: limits_room_def new_peer_manager_def RATE_LIMIT_MAP_CAP_def)
  from address_rate_bounded [OF this, of "[]" 0 "[]" 500 7] show ?thesis by simp
qed


lemma oldest_limit_some:
  assumes "best \<noteq> None \<Longrightarrow> the best \<in> dom m" "best \<noteq> None \<or> dom m \<inter> set ks \<noteq> {}"
  shows "\<exists>k. oldest_limit m ks best = Some k \<and> k \<in> dom m"
  using assms
proof (induction ks arbitrary: best)
  case (Cons k ks)
  from Cons.prems Cons.IH [of best] Cons.IH [of "Some k"] show ?case
    by (cases "m k"; cases best; cases "m (the best)") (auto simp: domIff)
qed auto

lemma sweep_limits_dom: "dom (sweep_limits now m) \<subseteq> dom m"
  by (auto simp: sweep_limits_def split: option.splits if_splits)

text \<open>
  The table of addresses is bounded: from a table of at most 4096 entries a rate check, accepted
  or refused, leads to a table of at most 4096 entries, whatever the number of distinct addresses
  that send, provided the scan for the oldest entry visits the entries of the table.
\<close>

theorem address_table_bounded:
  assumes "finite (dom (m_ip_limits s))" "card (dom (m_ip_limits s)) \<le> RATE_LIMIT_MAP_CAP"
    and "insert ip (dom (m_ip_limits s)) \<subseteq> set ord"
  shows "card (dom (m_ip_limits (snd (pm_check_rate_limit ord now ip s)))) \<le> RATE_LIMIT_MAP_CAP"
proof -
  define rl where "rl = next_limit now (limit_of ip s)"
  define lim where "lim = (m_ip_limits s)(ip \<mapsto> rl)"
  define swp where "swp = sweep_limits now lim"
  have eq: "m_ip_limits (snd (pm_check_rate_limit ord now ip s)) =
      (if rl_count rl > RATE_LIMIT_PER_SEC then lim
       else if card (dom lim) > RATE_LIMIT_MAP_CAP
       then if card (dom swp) > RATE_LIMIT_MAP_CAP
            then (case oldest_limit swp ord None of None \<Rightarrow> swp | Some k \<Rightarrow> swp(k := None))
            else swp
       else lim)"
    unfolding pm_check_rate_limit_def limit_of_def [symmetric] rl_def lim_def swp_def next_limit_eq [symmetric] Let_def
    by simp
  have fin: "finite (dom lim)" "finite (dom swp)"
    using assms(1) finite_subset [OF sweep_limits_dom [of now lim]] by (auto simp: lim_def swp_def)
  have small: "card (dom lim) \<le> Suc RATE_LIMIT_MAP_CAP"
    using assms(1,2) by (simp add: lim_def card_insert_if)
  have old: "card (dom lim) \<le> RATE_LIMIT_MAP_CAP" if "rl_count rl > RATE_LIMIT_PER_SEC"
  proof -
    have "m_ip_limits s ip \<noteq> None"
      using that by (auto simp: rl_def next_limit_def limit_of_def RATE_LIMIT_PER_SEC_def split: if_splits option.splits)
    then show ?thesis using assms(2) by (simp add: lim_def insert_absorb domIff)
  qed
  have evict: "card (dom (swp(k := None))) \<le> RATE_LIMIT_MAP_CAP" if "k \<in> dom swp" for k
    using that small card_mono [OF fin(1) sweep_limits_dom [of now lim]] fin(2)
    by (simp add: swp_def card_Diff_singleton)
  have "\<exists>k. oldest_limit swp ord None = Some k \<and> k \<in> dom swp" if "card (dom swp) > RATE_LIMIT_MAP_CAP"
  proof (rule oldest_limit_some)
    have "dom swp \<noteq> {}" using that by auto
    moreover have "dom swp \<subseteq> set ord" using sweep_limits_dom [of now lim] assms(3) by (auto simp: swp_def lim_def)
    ultimately show "None \<noteq> None \<or> dom swp \<inter> set ord \<noteq> {}" by auto
  qed simp
  with eq old evict show ?thesis by (auto split: option.splits)
qed

theorem address_table_bounded_witness:
  "card (dom (m_ip_limits (snd (pm_check_rate_limit [''10.0.0.9''] 5 ''10.0.0.9'' new_peer_manager)))) \<le> 4096"
  using address_table_bounded [of new_peer_manager "''10.0.0.9''" "[''10.0.0.9'']" 5]
  by (simp add: RATE_LIMIT_MAP_CAP_def) (simp add: new_peer_manager_def)

end
