(* ===== verification/ProofChain.thy ===== *)
theory ProofChain
  imports Crypto "HOL-Library.Code_Target_Numeral"
begin

text \<open>
  \<open>crypto/ProofChain.hpp\<close>: the hash-linked log of consensus events and its Merkle tree. The
  state is the record \<open>proof_chain\<close>; the tree is recomputed layer by layer as the code does,
  with the cached root and its dirty flag. Shown: the links stay chained, numbered and bounded, the
  cached root is always the root of the current links, a link cannot be changed without a SHA-256
  collision, and which membership proofs verify.
\<close>


section \<open>Links\<close>

datatype proof_event_type =
    ANOMALY_DETECTED | PBFT_PRE_PREPARE | PBFT_PREPARE | PBFT_COMMIT
  | CONSENSUS_REACHED | ISOLATION_EXECUTED | TELEMETRY_GOSSIP | RECORDING_FRAME

fun event_code :: "proof_event_type \<Rightarrow> nat" where
  "event_code ANOMALY_DETECTED = 0"
| "event_code PBFT_PRE_PREPARE = 1"
| "event_code PBFT_PREPARE = 2"
| "event_code PBFT_COMMIT = 3"
| "event_code CONSENSUS_REACHED = 4"
| "event_code ISOLATION_EXECUTED = 5"
| "event_code TELEMETRY_GOSSIP = 6"
| "event_code RECORDING_FRAME = 7"

record proof_link =
  pl_sequence :: uint64
  pl_event_type :: proof_event_type
  pl_node_id :: node_id
  pl_target_id :: string
  pl_data_hash :: string
  pl_parent_hash :: string
  pl_link_hash :: string
  pl_timestamp_us :: int
  pl_signature_hex :: string

definition link_to_string :: "proof_link \<Rightarrow> string" where
  "link_to_string l = u64_str (pl_sequence l) @ ''|'' @ nat_str (event_code (pl_event_type l)) @ ''|''
     @ pl_node_id l @ ''|'' @ pl_target_id l @ ''|'' @ pl_data_hash l @ ''|'' @ pl_parent_hash l"


section \<open>Merkle layers\<close>

fun merkle_layer :: "openssl \<Rightarrow> string list \<Rightarrow> string list" where
  "merkle_layer L (a # b # rest) = sha256_hex L (a @ b) # merkle_layer L rest"
| "merkle_layer L [a] = [sha256_hex L a]"
| "merkle_layer L [] = []"

lemma length_merkle_layer [simp]: "length (merkle_layer L xs) = (length xs + 1) div 2"
  by (induction L xs rule: merkle_layer.induct) auto

function merkle_root :: "openssl \<Rightarrow> string list \<Rightarrow> string" where
  "merkle_root L layer =
     (if length layer > 1 then merkle_root L (merkle_layer L layer)
      else case layer of [] \<Rightarrow> [] | h # _ \<Rightarrow> h)"
  by pat_completeness auto

termination merkle_root
  by (relation "measure (\<lambda>(L, layer). length layer)") auto

declare merkle_root.simps [simp del]

text \<open>The inner loop over one layer, from position \<open>i\<close> on: the siblings it records, the next
  layer, and the tracked index, which it halves on the way.\<close>

fun sibling_scan :: "openssl \<Rightarrow> nat \<Rightarrow> string list \<Rightarrow> nat \<Rightarrow> string list \<times> string list \<times> nat" where
  "sibling_scan L i (a # b # rest) idx =
     (let sib = (if i = idx then [CHR ''R'' # b] else if i + 1 = idx then [CHR ''L'' # a] else []);
          (sibs, nxt, idx') = sibling_scan L (i + 2) rest (if i \<le> idx \<and> idx < i + 2 then i div 2 else idx)
      in (sib @ sibs, sha256_hex L (a @ b) # nxt, idx'))"
| "sibling_scan L i [a] idx =
     ([], [sha256_hex L a], if i \<le> idx \<and> idx < i + 2 then i div 2 else idx)"
| "sibling_scan L i [] idx = ([], [], idx)"

lemma sibling_scan_next: "fst (snd (sibling_scan L i layer idx)) = merkle_layer L layer"
  by (induction L i layer idx rule: sibling_scan.induct) (auto simp: Let_def split_beta)

function compute_sibling_path :: "openssl \<Rightarrow> string list \<Rightarrow> nat \<Rightarrow> string list" where
  "compute_sibling_path L layer idx =
     (if length layer > 1
      then let scan = sibling_scan L 0 layer idx
           in fst scan @ compute_sibling_path L (fst (snd scan)) (snd (snd scan))
      else [])"
  by pat_completeness auto

termination compute_sibling_path
  by (relation "measure (\<lambda>(L, layer, idx). length layer)") (auto simp: sibling_scan_next)

declare compute_sibling_path.simps [simp del]

definition proof_step :: "openssl \<Rightarrow> string \<Rightarrow> string \<Rightarrow> string" where
  "proof_step L s cur =
     (if s \<noteq> [] \<and> hd s = CHR ''L'' then sha256_hex L (tl s @ cur)
      else if s \<noteq> [] \<and> hd s = CHR ''R'' then sha256_hex L (cur @ tl s)
      else sha256_hex L (cur @ s))"

definition verify_proof :: "openssl \<Rightarrow> string \<Rightarrow> string \<Rightarrow> string list \<Rightarrow> bool" where
  "verify_proof L root_hash leaf_hash siblings \<longleftrightarrow> fold (proof_step L) siblings leaf_hash = root_hash"


section \<open>The chain\<close>

record proof_chain =
  pc_node_id :: node_id
  pc_links :: "proof_link list"
  pc_seq :: uint64
  pc_merkle_dirty :: bool
  pc_merkle_root :: string

definition MAX_CHAIN :: nat where "MAX_CHAIN = 4096"

definition new_proof_chain :: "node_id \<Rightarrow> proof_chain" where
  "new_proof_chain node_id = \<lparr>pc_node_id = node_id, pc_links = [], pc_seq = 0,
     pc_merkle_dirty = False, pc_merkle_root = []\<rparr>"

definition proof_append ::
  "openssl \<Rightarrow> int \<Rightarrow> proof_event_type \<Rightarrow> string \<Rightarrow> string \<Rightarrow> string \<Rightarrow> proof_chain \<Rightarrow> proof_chain" where
  "proof_append L now_us ty target data sig_hex c =
     (let ph = (if pc_links c \<noteq> [] then pl_link_hash (last (pc_links c)) else []);
          link = \<lparr>pl_sequence = pc_seq c, pl_event_type = ty, pl_node_id = pc_node_id c,
                  pl_target_id = target, pl_data_hash = sha256_hex L data, pl_parent_hash = ph,
                  pl_link_hash = [], pl_timestamp_us = now_us, pl_signature_hex = sig_hex\<rparr>;
          link = link\<lparr>pl_link_hash := sha256_hex L (link_to_string link)\<rparr>;
          links = pc_links c @ [link]
      in c\<lparr>pc_links := (if length links > MAX_CHAIN then tl links else links),
           pc_seq := pc_seq c + 1, pc_merkle_dirty := True\<rparr>)"

definition rebuild_merkle :: "openssl \<Rightarrow> proof_chain \<Rightarrow> proof_chain" where
  "rebuild_merkle L c =
     (if \<not> pc_merkle_dirty c \<or> pc_links c = [] then c
      else c\<lparr>pc_merkle_root := merkle_root L (map pl_link_hash (pc_links c)), pc_merkle_dirty := False\<rparr>)"

definition get_root_hash :: "openssl \<Rightarrow> proof_chain \<Rightarrow> string \<times> proof_chain" where
  "get_root_hash L c =
     (if pc_links c = [] then ([], c)
      else let c = rebuild_merkle L c in (pc_merkle_root c, c))"

definition get_proof_path :: "openssl \<Rightarrow> uint64 \<Rightarrow> proof_chain \<Rightarrow> string list \<times> proof_chain" where
  "get_proof_path L seq c =
     (if unat seq \<ge> length (pc_links c) then ([], c)
      else let c = rebuild_merkle L c in
           (compute_sibling_path L (map pl_link_hash (pc_links c)) (unat seq), c))"

definition latest_link_hash :: "proof_chain \<Rightarrow> string" where
  "latest_link_hash c = (if pc_links c = [] then [] else pl_link_hash (last (pc_links c)))"


section \<open>Rendering\<close>

definition link_json :: "proof_link \<Rightarrow> string" where
  "link_json l = ''{\"seq\":'' @ u64_str (pl_sequence l)
     @ '',\"event\":'' @ nat_str (event_code (pl_event_type l))
     @ '',\"node\":\"'' @ pl_node_id l @ ''\",\"target\":\"'' @ pl_target_id l
     @ ''\",\"data_hash\":\"'' @ pl_data_hash l @ ''\",\"link_hash\":\"'' @ pl_link_hash l
     @ ''\",\"parent_hash\":\"'' @ pl_parent_hash l @ ''\",\"sig\":\"'' @ pl_signature_hex l
     @ ''\",\"ts_us\":'' @ int_str (pl_timestamp_us l) @ ''}''"

definition get_latest_json :: "proof_chain \<Rightarrow> string" where
  "get_latest_json c = (if pc_links c = [] then ''{}'' else link_json (last (pc_links c)))"


text \<open>A file is opened or not, which is the argument \<open>opened\<close>; the result is the return value
  and the path and contents written.\<close>

definition chain_path_prefix :: string where
  "chain_path_prefix = ''/tmp/neuro_proof_''"

definition export_proof_to_file ::
  "openssl \<Rightarrow> bool \<Rightarrow> uint64 \<Rightarrow> proof_chain \<Rightarrow> bool \<times> (string \<times> string) option \<times> proof_chain" where
  "export_proof_to_file L opened seq c =
     (if unat seq \<ge> length (pc_links c) then (False, None, c)
      else
        let c = rebuild_merkle L c;
            siblings = compute_sibling_path L (map pl_link_hash (pc_links c)) (unat seq);
            path = chain_path_prefix @ pc_node_id c @ ''_proof_'' @ u64_str seq @ ''.json''
        in if \<not> opened then (False, None, c)
           else (True, Some (path,
             ''{\"node_id\":\"'' @ pc_node_id c @ ''\",\"seq\":'' @ u64_str seq
             @ '',\"leaf_hash\":\"'' @ pl_link_hash (pc_links c ! unat seq)
             @ ''\",\"root_hash\":\"'' @ pc_merkle_root c @ ''\",\"siblings\":[''
             @ join_fields (CHR '','') (map (\<lambda>s. ''\"'' @ s @ ''\"'') siblings) @ '']}'' @ [CHR 0x0A]), c))"

definition export_file :: "bool \<Rightarrow> proof_chain \<Rightarrow> bool \<times> (string \<times> string) option" where
  "export_file opened c =
     (if \<not> opened then (False, None)
      else (True, Some (chain_path_prefix @ pc_node_id c @ ''.proof'',
        ''{'' @ [CHR 0x0A] @ ''  \"node_id\": \"'' @ pc_node_id c @ ''\",'' @ [CHR 0x0A]
        @ ''  \"links\": ['' @ [CHR 0x0A]
        @ concat (map (\<lambda>i. ''    '' @ link_json (pc_links c ! i)
            @ (if i < length (pc_links c) - 1 then '','' else []) @ [CHR 0x0A]) [0..<length (pc_links c)])
        @ ''  ]'' @ [CHR 0x0A] @ ''}'' @ [CHR 0x0A])))"


section \<open>Vocabulary of the statements\<close>

text \<open>The appends a chain goes through.\<close>

record append_args =
  aa_now :: int
  aa_type :: proof_event_type
  aa_target :: string
  aa_data :: string
  aa_sig :: string

definition append_all :: "openssl \<Rightarrow> append_args list \<Rightarrow> proof_chain \<Rightarrow> proof_chain" where
  "append_all L xs c = fold (\<lambda>x. proof_append L (aa_now x) (aa_type x) (aa_target x) (aa_data x) (aa_sig x)) xs c"

text \<open>Links that follow one another: each names the hash of its predecessor, carries the hash of
  its own canonical text and the next sequence number.\<close>

fun linked :: "openssl \<Rightarrow> proof_link list \<Rightarrow> bool" where
  "linked L [] \<longleftrightarrow> True"
| "linked L [l] \<longleftrightarrow> pl_link_hash l = sha256_hex L (link_to_string l)"
| "linked L (l # l' # ls) \<longleftrightarrow>
     pl_link_hash l = sha256_hex L (link_to_string l) \<and> pl_parent_hash l' = pl_link_hash l
     \<and> pl_sequence l' = pl_sequence l + 1 \<and> linked L (l' # ls)"

definition chain_inv :: "openssl \<Rightarrow> proof_chain \<Rightarrow> bool" where
  "chain_inv L c \<longleftrightarrow>
     linked L (pc_links c) \<and> length (pc_links c) \<le> MAX_CHAIN
     \<and> (\<forall>l \<in> set (pc_links c). pl_node_id l = pc_node_id c)
     \<and> (pc_links c \<noteq> [] \<longrightarrow> pc_seq c = pl_sequence (last (pc_links c)) + 1)
     \<and> (\<not> pc_merkle_dirty c \<longrightarrow> pc_merkle_root c = merkle_root L (map pl_link_hash (pc_links c)))"

text \<open>Whether a leaf has a partner in every layer on the way to the root.\<close>

function paired :: "nat \<Rightarrow> nat \<Rightarrow> bool" where
  "paired idx n =
     (if n \<le> 1 then True
      else if even idx \<and> idx + 1 = n then False
      else paired (idx div 2) ((n + 1) div 2))"
  by pat_completeness auto

termination paired
  by (relation "measure snd") auto

declare paired.simps [simp del]

text \<open>The strings \<open>verify_proof\<close> hashes one after the other.\<close>

definition step_input :: "string \<Rightarrow> string \<Rightarrow> string" where
  "step_input s cur =
     (if s \<noteq> [] \<and> hd s = CHR ''L'' then tl s @ cur
      else if s \<noteq> [] \<and> hd s = CHR ''R'' then cur @ tl s
      else cur @ s)"

fun proof_inputs :: "openssl \<Rightarrow> string \<Rightarrow> string list \<Rightarrow> string list" where
  "proof_inputs L cur [] = []"
| "proof_inputs L cur (s # ss) = step_input s cur # proof_inputs L (proof_step L s cur) ss"

text \<open>Two lists of hashed strings that differ at some position and have the same digest there.\<close>

definition collides :: "openssl \<Rightarrow> string list \<Rightarrow> string list \<Rightarrow> bool" where
  "collides L xs ys \<longleftrightarrow> (\<exists>i < min (length xs) (length ys). xs ! i \<noteq> ys ! i \<and> evp_sha256 L (xs ! i) = evp_sha256 L (ys ! i))"

text \<open>The separator of the canonical text does not occur in the fields before the last.\<close>

definition clean_link :: "proof_link \<Rightarrow> bool" where
  "clean_link l \<longleftrightarrow> CHR ''|'' \<notin> set (pl_node_id l) \<and> CHR ''|'' \<notin> set (pl_target_id l) \<and> CHR ''|'' \<notin> set (pl_data_hash l)"

text \<open>The fields of a link its hash covers.\<close>

definition link_core :: "proof_link \<Rightarrow> uint64 \<times> nat \<times> node_id \<times> string \<times> string \<times> string \<times> string" where
  "link_core l = (pl_sequence l, event_code (pl_event_type l), pl_node_id l, pl_target_id l,
     pl_data_hash l, pl_parent_hash l, pl_link_hash l)"

text \<open>A chain of three links for the witnesses, whose last link is made at a given time.\<close>

definition demo_chain :: "int \<Rightarrow> proof_chain" where
  "demo_chain now = append_all demo_ssl
     [\<lparr>aa_now = 1, aa_type = PBFT_PREPARE, aa_target = ''T'', aa_data = ''d'', aa_sig = []\<rparr>,
      \<lparr>aa_now = 2, aa_type = PBFT_COMMIT, aa_target = ''T'', aa_data = ''e'', aa_sig = []\<rparr>,
      \<lparr>aa_now = now, aa_type = ISOLATION_EXECUTED, aa_target = ''T'', aa_data = ''f'', aa_sig = []\<rparr>]
     (new_proof_chain ''A'')"

definition siblings_at :: "string list \<Rightarrow> nat \<Rightarrow> string list" where
  "siblings_at layer j =
     (if odd j then [CHR ''L'' # layer ! (j - 1)]
      else if j + 1 < length layer then [CHR ''R'' # layer ! (j + 1)] else [])"


section \<open>Chaining\<close>

lemma linked_snoc:
  "linked L (ls @ [l]) \<longleftrightarrow> linked L ls \<and> pl_link_hash l = sha256_hex L (link_to_string l)
     \<and> (ls \<noteq> [] \<longrightarrow> pl_parent_hash l = pl_link_hash (last ls) \<and> pl_sequence l = pl_sequence (last ls) + 1)"
  by (induction L ls rule: linked.induct) auto

lemma linked_tl: "linked L ls \<Longrightarrow> linked L (tl ls)"
  by (induction L ls rule: linked.induct) auto

lemma link_to_string_hash [simp]: "link_to_string (l\<lparr>pl_link_hash := h\<rparr>) = link_to_string l"
  by (simp add: link_to_string_def)

lemma chain_inv_new: "chain_inv L (new_proof_chain n)"
  by (simp add: chain_inv_def new_proof_chain_def merkle_root.simps)

lemma chain_inv_append:
  assumes "chain_inv L c"
  shows "chain_inv L (proof_append L now ty target data sig c)"
proof -
  define ph where "ph = (if pc_links c \<noteq> [] then pl_link_hash (last (pc_links c)) else [])"
  define l0 where "l0 = \<lparr>pl_sequence = pc_seq c, pl_event_type = ty, pl_node_id = pc_node_id c,
      pl_target_id = target, pl_data_hash = sha256_hex L data, pl_parent_hash = ph,
      pl_link_hash = [], pl_timestamp_us = now, pl_signature_hex = sig\<rparr>"
  define l where "l = l0\<lparr>pl_link_hash := sha256_hex L (link_to_string l0)\<rparr>"
  define ls where "ls = (if length (pc_links c @ [l]) > MAX_CHAIN then tl (pc_links c @ [l]) else pc_links c @ [l])"
  have eq: "proof_append L now ty target data sig c = c\<lparr>pc_links := ls, pc_seq := pc_seq c + 1, pc_merkle_dirty := True\<rparr>"
    by (simp add: proof_append_def Let_def ls_def l_def l0_def ph_def)
  have l: "pl_link_hash l = sha256_hex L (link_to_string l)" "pl_parent_hash l = ph" "pl_sequence l = pc_seq c"
      "pl_node_id l = pc_node_id c"
    unfolding l_def by (simp_all only: link_to_string_hash) (simp_all add: l0_def)
  have "linked L (pc_links c @ [l])"
    unfolding linked_snoc using assms l by (simp add: chain_inv_def ph_def)
  then have "linked L ls" by (simp add: ls_def linked_tl)
  moreover have "length ls \<le> MAX_CHAIN" using assms by (auto simp: ls_def chain_inv_def)
  moreover have "set ls \<subseteq> set (pc_links c @ [l])" by (cases "pc_links c") (auto simp: ls_def)
  moreover have "ls \<noteq> []" "last ls = l"
    by (cases "pc_links c"; auto simp: ls_def MAX_CHAIN_def)+
  ultimately show ?thesis
    using assms l unfolding eq by (auto simp: chain_inv_def)
qed

lemma chain_inv_rebuild: "chain_inv L c \<Longrightarrow> chain_inv L (rebuild_merkle L c)"
  by (simp add: chain_inv_def rebuild_merkle_def)

lemma chain_inv_append_all: "chain_inv L c \<Longrightarrow> chain_inv L (append_all L xs c)"
  unfolding append_all_def by (induction xs arbitrary: c) (simp_all add: chain_inv_append)

lemma rebuild_root:
  "chain_inv L c \<Longrightarrow> pc_links c \<noteq> [] \<Longrightarrow> pc_merkle_root (rebuild_merkle L c) = merkle_root L (map pl_link_hash (pc_links c))"
  by (auto simp: rebuild_merkle_def chain_inv_def)

text \<open>
  The chain invariant: after any number of appends to a new chain, the links are linked by
  hash, numbered consecutively, all carry the identity of the node, number at most 4096, and the
  root that \<open>get_root_hash\<close> returns is the Merkle root of the links present, whether it was
  cached or not; asking for it or for a proof keeps the invariant.
\<close>

theorem proof_chain_invariant:
  "let c = append_all L xs (new_proof_chain n) in
     chain_inv L c \<and> chain_inv L (snd (get_root_hash L c)) \<and> chain_inv L (snd (get_proof_path L seq c))
     \<and> fst (get_root_hash L c) = merkle_root L (map pl_link_hash (pc_links c))
     \<and> fst (get_root_hash L (snd (get_root_hash L c))) = fst (get_root_hash L c)"
proof -
  define c where "c = append_all L xs (new_proof_chain n)"
  have inv: "chain_inv L c" unfolding c_def by (intro chain_inv_append_all chain_inv_new)
  have "fst (get_root_hash L d) = merkle_root L (map pl_link_hash (pc_links d))" if "chain_inv L d" for d
    using rebuild_root [OF that] by (auto simp: get_root_hash_def Let_def merkle_root.simps)
  moreover have "chain_inv L (snd (get_root_hash L c))" "pc_links (snd (get_root_hash L c)) = pc_links c"
    using chain_inv_rebuild [OF inv] inv by (auto simp: get_root_hash_def Let_def rebuild_merkle_def)
  moreover have "chain_inv L (snd (get_proof_path L seq c))"
    using chain_inv_rebuild [OF inv] inv by (auto simp: get_proof_path_def Let_def)
  ultimately show ?thesis using inv unfolding c_def [symmetric] by (simp add: Let_def)
qed


section \<open>Tamper evidence\<close>

lemma collides_iff:
  "collides L xs ys \<longleftrightarrow> (\<exists>(x, y) \<in> set (zip xs ys). x \<noteq> y \<and> evp_sha256 L x = evp_sha256 L y)"
  unfolding collides_def by (force simp: set_zip)

lemma collides_Cons [simp]:
  "collides L (x # xs) (y # ys) \<longleftrightarrow> x \<noteq> y \<and> evp_sha256 L x = evp_sha256 L y \<or> collides L xs ys"
  by (simp add: collides_iff)

lemma collides_snoc:
  "length xs = length ys \<Longrightarrow> collides L (xs @ [x]) (ys @ [y]) \<longleftrightarrow> collides L xs ys \<or> x \<noteq> y \<and> evp_sha256 L x = evp_sha256 L y"
  by (auto simp: collides_iff)

lemma sha256_hex_eq:
  assumes "sha256_total L" "sha256_hex L x = sha256_hex L y"
  shows "evp_sha256 L x = evp_sha256 L y"
  using assms length_sha256_hex [OF assms(1), of x] by (intro sha256_hex_collision) auto

lemma link_to_string_inj:
  assumes "clean_link l" "clean_link l'" "link_to_string l = link_to_string l'"
  shows "pl_sequence l = pl_sequence l' \<and> event_code (pl_event_type l) = event_code (pl_event_type l')
    \<and> pl_node_id l = pl_node_id l' \<and> pl_target_id l = pl_target_id l'
    \<and> pl_data_hash l = pl_data_hash l' \<and> pl_parent_hash l = pl_parent_hash l'"
proof -
  note c = assms(1,2)[unfolded clean_link_def]
  note s = u64_str_no_sep [OF is_digit_bar] nat_str_no_sep [OF is_digit_bar]
  note 1 = field_left_sep [OF assms(3) [unfolded link_to_string_def] s(1) s(1)]
  note 2 = field_left_sep [OF conjunct2 [OF 1] s(2) s(2)]
  note 3 = field_left_sep [OF conjunct2 [OF 2] conjunct1 [OF c(1)] conjunct1 [OF c(2)]]
  from c have t: "CHR ''|'' \<notin> set (pl_target_id l)" "CHR ''|'' \<notin> set (pl_target_id l')"
    "CHR ''|'' \<notin> set (pl_data_hash l)" "CHR ''|'' \<notin> set (pl_data_hash l')" by blast+
  note 4 = field_left_sep [OF conjunct2 [OF 3] t(1,2)]
  note 5 = field_left_sep [OF conjunct2 [OF 4] t(3,4)]
  from conjunct1 [OF 1] conjunct1 [OF 2] conjunct1 [OF 3] conjunct1 [OF 4] 5 show ?thesis
    unfolding u64_str_inj nat_str_inj by blast
qed

lemma chain_determined:
  assumes "length ls = length ls'" "sha256_total L" "linked L ls" "linked L ls'"
    "ls \<noteq> [] \<Longrightarrow> pl_link_hash (last ls) = pl_link_hash (last ls')"
    "\<forall>l \<in> set ls \<union> set ls'. clean_link l"
  shows "map link_core ls = map link_core ls' \<or> collides L (map link_to_string ls) (map link_to_string ls')"
  using assms
proof (induction ls arbitrary: ls' rule: rev_induct)
  case (snoc x xs)
  obtain ys y where ls': "ls' = ys @ [y]" using snoc.prems(1) by (cases ls' rule: rev_cases) auto
  have len: "length xs = length ys" using snoc.prems(1) ls' by simp
  have h: "pl_link_hash x = sha256_hex L (link_to_string x)" "pl_link_hash y = sha256_hex L (link_to_string y)"
    and lk: "linked L xs" "linked L ys"
    and p: "xs \<noteq> [] \<longrightarrow> pl_parent_hash x = pl_link_hash (last xs)" "ys \<noteq> [] \<longrightarrow> pl_parent_hash y = pl_link_hash (last ys)"
    using snoc.prems(3,4) unfolding ls' linked_snoc by blast+
  have eq: "pl_link_hash x = pl_link_hash y" using snoc.prems(5) by (simp add: ls')
  then have evp: "evp_sha256 L (link_to_string x) = evp_sha256 L (link_to_string y)"
    by (intro sha256_hex_eq [OF snoc.prems(2)]) (simp flip: h)
  show ?case
  proof (cases "link_to_string x = link_to_string y")
    case True
    have "clean_link x" "clean_link y" using snoc.prems(6) by (simp_all add: ls')
    note inj = link_to_string_inj [OF this True]
    have "pl_link_hash (last xs) = pl_link_hash (last ys)" if "xs \<noteq> []"
      using that p inj len by (cases "ys = []") simp_all
    moreover have "\<forall>l \<in> set xs \<union> set ys. clean_link l" using snoc.prems(6) by (simp add: ls' ball_Un)
    ultimately have "map link_core xs = map link_core ys \<or> collides L (map link_to_string xs) (map link_to_string ys)"
      using snoc.IH [OF len snoc.prems(2) lk] by blast
    moreover have "link_core x = link_core y" using inj eq by (simp add: link_core_def)
    ultimately show ?thesis using len by (simp add: ls' collides_snoc) blast
  qed (use evp len in \<open>simp add: ls' collides_snoc\<close>)
qed simp

text \<open>
  Tamper evidence: two linked histories of equal length whose last links carry the same hash
  agree in every field the hashes cover, of every link, or SHA-256 maps two distinct canonical texts
  of links at the same position to one digest. The timestamp and the signature of a link are not
  covered.
\<close>

theorem chain_tamper_evident:
  assumes "sha256_total L" "linked L (pc_links c)" "linked L (pc_links c')"
    "length (pc_links c) = length (pc_links c')" "latest_link_hash c = latest_link_hash c'"
    "\<forall>l \<in> set (pc_links c) \<union> set (pc_links c'). clean_link l"
  shows "map link_core (pc_links c) = map link_core (pc_links c')
    \<or> collides L (map link_to_string (pc_links c)) (map link_to_string (pc_links c'))"
proof (rule chain_determined [OF assms(4,1,2,3) _ assms(6)])
  assume "pc_links c \<noteq> []"
  then show "pl_link_hash (last (pc_links c)) = pl_link_hash (last (pc_links c'))"
    using assms(4,5) by (cases "pc_links c' = []") (simp_all add: latest_link_hash_def)
qed


lemma demo_chain_inv: "chain_inv demo_ssl (demo_chain now)"
  unfolding demo_chain_def by (intro chain_inv_append_all chain_inv_new)

lemma demo_chain_length [simp]: "length (pc_links (demo_chain now)) = 3"
  by (simp add: demo_chain_def append_all_def proof_append_def Let_def new_proof_chain_def MAX_CHAIN_def)

lemma demo_chain_clean: "l \<in> set (pc_links (demo_chain now)) \<Longrightarrow> clean_link l"
  by (auto simp: demo_chain_def append_all_def proof_append_def Let_def new_proof_chain_def MAX_CHAIN_def
      clean_link_def sha256_hex_no_bar)

theorem chain_tamper_evident_witness:
  "pc_links (demo_chain 3) \<noteq> pc_links (demo_chain 4)
   \<and> (map link_core (pc_links (demo_chain 3)) = map link_core (pc_links (demo_chain 4))
      \<or> collides demo_ssl (map link_to_string (pc_links (demo_chain 3))) (map link_to_string (pc_links (demo_chain 4))))"
proof (intro conjI chain_tamper_evident)
  show "pc_links (demo_chain 3) \<noteq> pc_links (demo_chain 4)" "latest_link_hash (demo_chain 3) = latest_link_hash (demo_chain 4)"
    by (simp_all add: demo_chain_def append_all_def proof_append_def Let_def new_proof_chain_def MAX_CHAIN_def
      latest_link_hash_def link_to_string_def)
qed (use demo_chain_inv demo_chain_clean demo_ssl_total in \<open>auto simp: chain_inv_def\<close>)


section \<open>Membership proofs\<close>

lemma sibling_scan_past: "idx < i \<Longrightarrow> sibling_scan L i layer idx = ([], merkle_layer L layer, idx)"
  by (induction L i layer idx rule: sibling_scan.induct) (auto simp: Let_def)

lemma sibling_scan_at:
  "even i \<Longrightarrow> j < length layer \<Longrightarrow>
   sibling_scan L i layer (i + j) = (siblings_at layer j, merkle_layer L layer, (i + j) div 2)"
proof (induction layer arbitrary: i j rule: induct_list012)
  case (3 a b rest)
  show ?case
  proof (cases "j < 2")
    case True
    then have "j = 0 \<or> j = 1" by linarith
    then show ?thesis using 3(3) by (auto simp: sibling_scan_past siblings_at_def Let_def)
  next
    case False
    then obtain k where k: "j = k + 2" by (metis add.commute le_add_diff_inverse not_less)
    have "sibling_scan L (i + 2) rest (i + 2 + k) = (siblings_at rest k, merkle_layer L rest, (i + 2 + k) div 2)"
      using 3(1) [of "i + 2" k] 3(3,4) k by simp
    then show ?thesis by (simp add: k Let_def siblings_at_def) (cases k; simp)
  qed
qed (auto simp: siblings_at_def)

lemma merkle_layer_nth:
  "j < length layer \<Longrightarrow> merkle_layer L layer ! (j div 2) =
     (if odd j then sha256_hex L (layer ! (j - 1) @ layer ! j)
      else if j + 1 < length layer then sha256_hex L (layer ! j @ layer ! (j + 1))
      else sha256_hex L (layer ! j))"
proof (induction layer arbitrary: j rule: induct_list012)
  case (3 a b rest)
  show ?case
  proof (cases "j < 2")
    case True
    then have "j = 0 \<or> j = 1" by linarith
    then show ?thesis by auto
  next
    case False
    then obtain k where k: "j = k + 2" by (metis add.commute le_add_diff_inverse not_less)
    then show ?thesis using 3(1) [of k] 3(3) by (cases k) auto
  qed
qed auto

lemma compute_sibling_path_step:
  "j < length layer \<Longrightarrow> length layer > 1 \<Longrightarrow>
   compute_sibling_path L layer j = siblings_at layer j @ compute_sibling_path L (merkle_layer L layer) (j div 2)"
  using sibling_scan_at [of 0 j layer L] by (subst compute_sibling_path.simps) (simp add: Let_def)

lemma proof_step_siblings:
  assumes "j < length layer" "length layer > 1" "\<not> (even j \<and> j + 1 = length layer)"
  shows "fold (proof_step L) (siblings_at layer j) (layer ! j) = merkle_layer L layer ! (j div 2)"
  using assms by (auto simp: siblings_at_def merkle_layer_nth proof_step_def)

lemma proof_path_complete:
  "j < length layer \<Longrightarrow> paired j (length layer) \<Longrightarrow>
   fold (proof_step L) (compute_sibling_path L layer j) (layer ! j) = merkle_root L layer"
proof (induction L layer arbitrary: j rule: merkle_root.induct)
  case (1 L layer)
  show ?case
  proof (cases "length layer > 1")
    case True
    then have p: "\<not> (even j \<and> j + 1 = length layer)" "paired (j div 2) ((length layer + 1) div 2)"
      using 1(3) by (auto simp: paired.simps [of j] split: if_splits)
    moreover have "j div 2 < (length layer + 1) div 2" using 1(2) by linarith
    ultimately show ?thesis
      using 1(1) [OF True, of "j div 2"] 1(2) True
      by (simp add: compute_sibling_path_step proof_step_siblings merkle_root.simps [of L layer])
  next
    case False
    then have "length layer = 1" using 1(2) by linarith
    then obtain h where "layer = [h]" by (cases layer) auto
    then show ?thesis using 1(2) by (simp add: compute_sibling_path.simps merkle_root.simps)
  qed
qed

lemma proof_step_input: "proof_step L s cur = sha256_hex L (step_input s cur)"
  by (simp add: proof_step_def step_input_def)

lemma step_input_inj: "step_input s x = step_input s y \<Longrightarrow> x = y"
  by (auto simp: step_input_def split: if_splits)

lemma proof_binding:
  assumes "sha256_total L" "fold (proof_step L) sibs x = fold (proof_step L) sibs y"
  shows "x = y \<or> collides L (proof_inputs L x sibs) (proof_inputs L y sibs)"
  using assms(2)
proof (induction sibs arbitrary: x y)
  case (Cons s ss)
  then consider "proof_step L s x = proof_step L s y"
    | "collides L (proof_inputs L (proof_step L s x) ss) (proof_inputs L (proof_step L s y) ss)" by fastforce
  then show ?case
  proof cases
    case 1
    from sha256_hex_eq [OF assms(1) this [unfolded proof_step_input]] step_input_inj [of s x y]
    show ?thesis by (auto simp: proof_step_input)
  qed simp
qed simp

lemma fst_get_proof_path:
  "unat seq < length (pc_links c) \<Longrightarrow>
   fst (get_proof_path L seq c) = compute_sibling_path L (map pl_link_hash (pc_links c)) (unat seq)"
  by (simp add: get_proof_path_def Let_def rebuild_merkle_def)

lemma fst_get_root_hash:
  "chain_inv L c \<Longrightarrow> fst (get_root_hash L c) = merkle_root L (map pl_link_hash (pc_links c))"
  by (cases "pc_links c = []") (simp_all add: get_root_hash_def Let_def rebuild_root merkle_root.simps [of L "[]"])

text \<open>
  C25. Membership proofs are complete and binding: the siblings \<open>get_proof_path\<close> returns for
  a link that has a partner in every layer verify against the root the chain reports; and whatever
  other leaf verifies against that root with those siblings, is that link's hash, or the two
  verifications hash two distinct strings to one digest at the same step.
\<close>

theorem membership_proof_sound_complete:
  assumes "chain_inv L c" "unat seq < length (pc_links c)" "paired (unat seq) (length (pc_links c))" "sha256_total L"
  defines "leaf \<equiv> pl_link_hash (pc_links c ! unat seq)"
    and "siblings \<equiv> fst (get_proof_path L seq c)"
    and "root_hash \<equiv> fst (get_root_hash L c)"
  shows "verify_proof L root_hash leaf siblings
    \<and> (verify_proof L root_hash other siblings \<longrightarrow>
        other = leaf \<or> collides L (proof_inputs L other siblings) (proof_inputs L leaf siblings))"
proof -
  have v: "fold (proof_step L) siblings leaf = root_hash"
    unfolding siblings_def leaf_def root_hash_def
    using proof_path_complete [of "unat seq" "map pl_link_hash (pc_links c)" L] assms(1-3)
    by (simp add: fst_get_proof_path fst_get_root_hash)
  moreover from proof_binding [OF assms(4), of siblings other leaf] v
  have "other = leaf \<or> collides L (proof_inputs L other siblings) (proof_inputs L leaf siblings)"
    if "fold (proof_step L) siblings other = root_hash" using that by blast
  ultimately show ?thesis unfolding verify_proof_def by blast
qed

theorem membership_proof_sound_complete_witness:
  "verify_proof demo_ssl (fst (get_root_hash demo_ssl (demo_chain 3)))
     (pl_link_hash (pc_links (demo_chain 3) ! 1)) (fst (get_proof_path demo_ssl 1 (demo_chain 3)))"
  using membership_proof_sound_complete [OF demo_chain_inv _ _ demo_ssl_total, of 1 3]
  by (simp add: paired.simps)

text \<open>
  The last link of a chain of odd length of at least three, whose hash has no partner in the
  lowest layer and has one in all the others, cannot be proved: the code re-hashes the lone node and
  records no sibling for it, so the path it returns for the link is rejected, unless the link's hash
  is its own SHA-256 digest or the verification exhibits two strings with one digest.
\<close>

theorem lone_link_unprovable:
  assumes "chain_inv L c" "sha256_total L" "odd (length (pc_links c))" "1 < length (pc_links c)"
    "unat seq = length (pc_links c) - 1" "paired (unat seq div 2) ((length (pc_links c) + 1) div 2)"
    "leaf = pl_link_hash (last (pc_links c))" "siblings = fst (get_proof_path L seq c)"
    "leaf \<noteq> sha256_hex L leaf"
    "\<not> collides L (proof_inputs L leaf siblings) (proof_inputs L (sha256_hex L leaf) siblings)"
  shows "\<not> verify_proof L (fst (get_root_hash L c)) leaf siblings"
proof
  define layer where "layer = map pl_link_hash (pc_links c)"
  define n where "n = unat seq"
  have n: "n < length layer" "1 < length layer" "even n" "n + 1 = length layer"
    using assms(3,4,5) unfolding n_def layer_def by auto
  have leaf: "leaf = layer ! n"
    using assms(4,5,7) by (cases "pc_links c = []") (auto simp: layer_def n_def last_conv_nth)
  have sib: "siblings = compute_sibling_path L (merkle_layer L layer) (n div 2)"
    using n compute_sibling_path_step [of n layer L] fst_get_proof_path [of seq c L]
    unfolding assms(8) layer_def n_def by (simp add: siblings_at_def)
  have "merkle_layer L layer ! (n div 2) = sha256_hex L leaf"
    using n by (simp add: merkle_layer_nth leaf)
  moreover have "n div 2 < length (merkle_layer L layer)" using n by simp
  moreover have "paired (n div 2) (length (merkle_layer L layer))"
    using assms(6) by (simp add: n_def layer_def)
  ultimately have "fold (proof_step L) siblings (sha256_hex L leaf) = merkle_root L layer"
    using proof_path_complete [of "n div 2" "merkle_layer L layer" L] n(2) sib
    by (simp add: merkle_root.simps [of L layer])
  moreover assume "verify_proof L (fst (get_root_hash L c)) leaf siblings"
  ultimately have "fold (proof_step L) siblings leaf = fold (proof_step L) siblings (sha256_hex L leaf)"
    using assms(1) by (simp add: verify_proof_def fst_get_root_hash layer_def)
  from proof_binding [OF assms(2) this] assms(9,10) show False by blast
qed

lemma collides_list [code]:
  "collides L xs ys \<longleftrightarrow> list_ex (\<lambda>(x, y). x \<noteq> y \<and> evp_sha256 L x = evp_sha256 L y) (zip xs ys)"
  by (auto simp: collides_iff list_ex_iff)

lemma demo_lone_distinct:
  "pl_link_hash (last (pc_links (demo_chain 3))) \<noteq> sha256_hex demo_ssl (pl_link_hash (last (pc_links (demo_chain 3))))
   \<and> \<not> collides demo_ssl (proof_inputs demo_ssl (pl_link_hash (last (pc_links (demo_chain 3)))) (fst (get_proof_path demo_ssl 2 (demo_chain 3))))
        (proof_inputs demo_ssl (sha256_hex demo_ssl (pl_link_hash (last (pc_links (demo_chain 3))))) (fst (get_proof_path demo_ssl 2 (demo_chain 3))))"
  by code_simp

theorem lone_link_unprovable_witness:
  "\<not> verify_proof demo_ssl (fst (get_root_hash demo_ssl (demo_chain 3)))
     (pl_link_hash (last (pc_links (demo_chain 3)))) (fst (get_proof_path demo_ssl 2 (demo_chain 3)))"
  by (rule lone_link_unprovable [OF demo_chain_inv demo_ssl_total _ _ _ _ refl refl
        conjunct1 [OF demo_lone_distinct] conjunct2 [OF demo_lone_distinct]])
    (simp_all add: paired.simps)

end
