(* ===== verification/Json.thy ===== *)
theory Json
  imports Cpp
begin

text \<open>
  JSON string escaping, which three components implement: \<open>StateJournal::append\<close>,
  \<open>json_escape\<close> of \<open>telemetry/AuditLogger.cpp\<close> and \<open>escape_json\<close> of
  \<open>telemetry/Observability.cpp\<close>. The interface \<open>escaper\<close> states what a character's
  escape promises; the reader \<open>read_string\<close> is the grammar of a JSON string body, against
  which the escapes are judged.
\<close>


section \<open>Reading a string body\<close>

definition hex_val :: "char \<Rightarrow> nat" where
  "hex_val c = (if is_digit c then digit_val c else of_char c - 87)"

text \<open>The character a body starts with and what follows it; \<open>None\<close> on a malformed escape.\<close>

fun unesc1 :: "string \<Rightarrow> (char \<times> string) option" where
  "unesc1 [] = None"
| "unesc1 (c # cs) =
     (if c \<noteq> CHR 0x5C then Some (c, cs)
      else case cs of
        [] \<Rightarrow> None
      | d # ds \<Rightarrow>
          if d = CHR 0x22 \<or> d = CHR 0x5C then Some (d, ds)
          else if d = CHR ''n'' then Some (CHR 0x0A, ds)
          else if d = CHR ''r'' then Some (CHR 0x0D, ds)
          else if d = CHR ''t'' then Some (CHR 0x09, ds)
          else if d = CHR ''u'' then
            (case ds of
               a # b # x # y # rest \<Rightarrow> Some (char_of (((hex_val a * 16 + hex_val b) * 16 + hex_val x) * 16 + hex_val y), rest)
             | _ \<Rightarrow> None)
          else None)"

lemma unesc1_shorter: "unesc1 s = Some (c, r) \<Longrightarrow> length r < length s"
  by (cases s) (auto split: if_splits list.splits)

text \<open>The string up to the closing quote, and the text behind it.\<close>

function read_string :: "string \<Rightarrow> (string \<times> string) option" where
  "read_string s =
     (if s = [] then None
      else if hd s = CHR 0x22 then Some ([], tl s)
      else case unesc1 s of
        None \<Rightarrow> None
      | Some (c, r) \<Rightarrow> map_option (\<lambda>(t, u). (c # t, u)) (read_string r))"
  by pat_completeness auto

termination read_string
  by (relation "measure length") (auto dest: unesc1_shorter)

declare read_string.simps [simp del]


section \<open>What an escape promises\<close>

locale escaper =
  fixes esc :: "char \<Rightarrow> string"
  assumes decodes: "unesc1 (esc c @ rest) = Some (c, rest)"
    and starts: "esc c \<noteq> [] \<and> hd (esc c) \<noteq> CHR 0x22"
    and printable: "x \<in> set (esc c) \<Longrightarrow> 32 \<le> (of_char x :: nat)"
begin

lemma reads_back: "read_string (concat (map esc s) @ CHR 0x22 # rest) = Some (s, rest)"
proof (induction s)
  case (Cons c s)
  obtain x xs where esc: "esc c = x # xs" "x \<noteq> CHR 0x22" using starts [of c] by (cases "esc c") auto
  have "unesc1 (x # xs @ concat (map esc s) @ CHR 0x22 # rest) = Some (c, concat (map esc s) @ CHR 0x22 # rest)"
    using decodes [of c "concat (map esc s) @ CHR 0x22 # rest"] esc(1) by simp
  then show ?case using Cons esc by (subst read_string.simps) (simp del: unesc1.simps)
qed (simp add: read_string.simps)

lemma escape_inj:
  assumes "concat (map esc s) = concat (map esc t)"
  shows "s = t"
proof -
  have "Some (s, []) = Some (t, [])"
    using reads_back [of s "[]", unfolded assms] reads_back [of t "[]"] by simp
  then show ?thesis by simp
qed

lemma escape_printable: "x \<in> set (concat (map esc s)) \<Longrightarrow> 32 \<le> (of_char x :: nat)"
  using printable by auto

lemma escape_no_control: "(of_char x :: nat) < 32 \<Longrightarrow> x \<notin> set (concat (map esc s))"
  using escape_printable [of x s] by linarith

end


section \<open>The escape \<open>\<backslash>u%04x\<close>\<close>

text \<open>\<open>snprintf\<close> with \<open>"\<backslash>u%04x"\<close> on a character below 0x20.\<close>

definition u_escape :: "char \<Rightarrow> string" where
  "u_escape c = [CHR 0x5C, CHR ''u'', CHR ''0'', CHR ''0''] @ hex_byte c"

lemma hex_val_hex_digit [simp]: "n < 16 \<Longrightarrow> hex_val (hex_digit n) = n"
  by (simp add: hex_val_def is_digit_def digit_val_def)

lemma unesc1_u_escape [simp]: "unesc1 (u_escape c @ rest) = Some (c, rest)"
proof -
  have "hex_val CHR ''0'' = 0" by (simp add: hex_val_def is_digit_def digit_val_def)
  moreover have "(of_char c :: nat) div 16 * 16 + of_char c mod 16 = of_char c" by (rule div_mult_mod_eq)
  ultimately show ?thesis by (simp add: u_escape_def hex_byte_def)
qed

lemma u_escape_printable: "x \<in> set (u_escape c) \<Longrightarrow> 32 \<le> (of_char x :: nat)"
  by (auto simp: u_escape_def hex_byte_def)

lemma u_escape_starts: "u_escape c \<noteq> [] \<and> hd (u_escape c) \<noteq> CHR 0x22"
  by (simp add: u_escape_def)

lemma length_u_escape [simp]: "length (u_escape c) = 6"
  by (simp add: u_escape_def hex_byte_def)

end
