(* ===== verification/StateJournal.thy ===== *)
theory StateJournal
  imports Crypto Json
begin

text \<open>
  \<open>common/StateJournal.hpp\<close>: the append-only journal of consensus events. The state
  \<open>journal\<close> holds the members of the class and the contents of the journal file and of its
  backup; the outcomes of the system calls of one \<open>append\<close> are the record
  \<open>journal_io\<close>. Shown: the in-place escaping loop computes a character-wise escape that a
  JSON reader inverts, a written line gives back its sequence number, a restart resumes after the
  last number written, and what rotation preserves.
\<close>


section \<open>Escaping and lines\<close>

text \<open>The loop edits the string in place: it looks at position \<open>i\<close>, replaces the character
  there and moves behind the replacement.\<close>

function escape_loop :: "nat \<Rightarrow> string \<Rightarrow> string" where
  "escape_loop i s =
     (if i < length s
      then let c = s ! i in
        if c = CHR 0x22 \<or> c = CHR 0x5C then escape_loop (i + 2) (take i s @ [CHR 0x5C] @ drop i s)
        else if c = CHR 0x0A then escape_loop (i + 2) (take i s @ [CHR 0x5C, CHR ''n''] @ drop (i + 1) s)
        else if c = CHR 0x09 then escape_loop (i + 2) (take i s @ [CHR 0x5C, CHR ''t''] @ drop (i + 1) s)
        else if (of_char c :: nat) < 0x20
          then escape_loop (i + length (u_escape c)) (take i s @ u_escape c @ drop (i + 1) s)
        else escape_loop (i + 1) s
      else s)"
  by pat_completeness auto

termination escape_loop
  by (relation "measure (\<lambda>(i, s). length s - i)") auto

declare escape_loop.simps [simp del]

definition journal_hash :: "openssl \<Rightarrow> string \<Rightarrow> string" where
  "journal_hash L evidence =
     (let hash = sha256_hex L evidence in if hash = [] then replicate 64 (CHR ''0'') else hash)"

definition journal_line :: "openssl \<Rightarrow> uint64 \<Rightarrow> int \<Rightarrow> string \<Rightarrow> string \<Rightarrow> string \<Rightarrow> string" where
  "journal_line L seq now_ms stage target evidence =
     ''{\"seq\":'' @ u64_str seq @ '',\"ts\":'' @ int_str now_ms
     @ '',\"stage\":\"'' @ stage @ ''\"'' @ '',\"target\":\"'' @ target @ ''\"''
     @ '',\"evidence\":\"'' @ escape_loop 0 evidence @ ''\"''
     @ '',\"hash\":\"'' @ journal_hash L evidence @ ''\"}'' @ [CHR 0x0A]"


section \<open>Reading sequence numbers back\<close>

fun seq_digits :: "uint64 \<Rightarrow> string \<Rightarrow> uint64" where
  "seq_digits val [] = val"
| "seq_digits val (c # cs) =
     (if is_digit c
      then let digit = of_nat (digit_val c) in
           if val > (- 1 - digit) div 10 then 0 else seq_digits (val * 10 + digit) cs
      else val)"

definition extract_seq :: "string \<Rightarrow> uint64" where
  "extract_seq line =
     (case str_find ''\"seq\":'' line of None \<Rightarrow> 0 | Some pos \<Rightarrow> seq_digits 0 (drop (pos + 6) line))"


section \<open>State and system calls\<close>

record journal =
  jn_seq :: uint64
  jn_open :: bool
  jn_file :: string
  jn_backup :: "string option"
  jn_failure_logged :: bool

text \<open>The outcome of each system call \<open>append\<close> may make: whether reopening the file, taking
  the lock, \<open>fstat\<close>, opening the backup, \<open>lseek\<close> and \<open>ftruncate\<close> succeed; whether
  the \<open>i\<close>-th read of the copy loop succeeds and how many bytes its write accepts; how many bytes
  of the line the final write accepts, \<open>None\<close> if it fails.\<close>

record journal_io =
  io_reopen :: bool
  io_lock :: bool
  io_fstat :: bool
  io_backup_open :: bool
  io_lseek :: bool
  io_read :: "nat \<Rightarrow> bool"
  io_backup_write :: "nat \<Rightarrow> nat option"
  io_truncate :: bool
  io_write :: "nat option"

definition ROTATE_BYTES :: nat where "ROTATE_BYTES = 10 * 1024 * 1024"
definition COPY_CHUNK :: nat where "COPY_CHUNK = 65536"

text \<open>The copy loop from the \<open>i\<close>-th read on: a failed read returns a negative count and ends
  the loop like the end of the file does; a short or failed write clears \<open>copy_ok\<close>.\<close>

function copy_loop :: "journal_io \<Rightarrow> nat \<Rightarrow> string \<Rightarrow> string \<Rightarrow> bool \<times> string" where
  "copy_loop io i rest backup =
     (if \<not> io_read io i then (True, backup)
      else if rest = [] then (True, backup)
      else let buf = take COPY_CHUNK rest in
           case io_backup_write io i of
             None \<Rightarrow> (False, backup)
           | Some w \<Rightarrow>
               if w < length buf then (False, backup @ take w buf)
               else copy_loop io (i + 1) (drop COPY_CHUNK rest) (backup @ buf))"
  by pat_completeness auto

termination copy_loop
  by (relation "measure (\<lambda>(io, i, rest, backup). length rest)") (auto simp: COPY_CHUNK_def)

declare copy_loop.simps [simp del]

definition journal_rotate :: "journal_io \<Rightarrow> journal \<Rightarrow> journal" where
  "journal_rotate io j =
     (if io_fstat io \<and> length (jn_file j) > ROTATE_BYTES
      then if io_backup_open io
           then if \<not> io_lseek io then j\<lparr>jn_backup := Some []\<rparr>
                else let (copy_ok, backup) = copy_loop io 0 (jn_file j) [];
                         j = j\<lparr>jn_backup := Some backup\<rparr>
                     in if copy_ok \<and> io_truncate io then j\<lparr>jn_file := []\<rparr> else j
           else j
      else j)"

definition write_line :: "journal_io \<Rightarrow> string \<Rightarrow> journal \<Rightarrow> journal" where
  "write_line io line j =
     (case io_write io of
        None \<Rightarrow> j\<lparr>jn_failure_logged := True\<rparr>
      | Some w \<Rightarrow> j\<lparr>jn_file := jn_file j @ take w line, jn_failure_logged := False\<rparr>)"

definition journal_append ::
  "openssl \<Rightarrow> journal_io \<Rightarrow> int \<Rightarrow> string \<Rightarrow> string \<Rightarrow> string \<Rightarrow> journal \<Rightarrow> uint64 \<times> journal" where
  "journal_append L io now_ms stage target evidence j =
     (let seq = jn_seq j + 1;
          j = j\<lparr>jn_seq := seq\<rparr>;
          line = journal_line L seq now_ms stage target evidence;
          j = (if \<not> jn_open j \<and> io_reopen io then j\<lparr>jn_open := True\<rparr> else j)
      in if \<not> jn_open j then (seq, j)
         else let j = (if io_lock io then journal_rotate io j else j)
              in (seq, write_line io line j))"

definition last_seq :: "journal \<Rightarrow> uint64" where
  "last_seq j = jn_seq j"

text \<open>The constructor reads the file if it can be opened for reading; the file is then opened for
  appending, which creates it if it does not exist.\<close>

definition recover_seq :: "string \<Rightarrow> uint64" where
  "recover_seq contents =
     fold (\<lambda>line m. if line = [] then m else let seq = extract_seq line in if seq > m then seq else m)
       (getline_tokens (CHR 0x0A) contents) 0"

definition new_journal :: "string option \<Rightarrow> bool \<Rightarrow> string option \<Rightarrow> journal" where
  "new_journal readable opened backup =
     \<lparr>jn_seq = (case readable of None \<Rightarrow> 0 | Some contents \<Rightarrow> recover_seq contents), jn_open = opened,
      jn_file = (case readable of None \<Rightarrow> [] | Some contents \<Rightarrow> contents), jn_backup = backup,
      jn_failure_logged = False\<rparr>"


section \<open>Vocabulary of the statements\<close>

text \<open>The escape of one character, as the loop replaces it.\<close>

definition journal_esc :: "char \<Rightarrow> string" where
  "journal_esc c =
     (if c = CHR 0x22 \<or> c = CHR 0x5C then [CHR 0x5C, c]
      else if c = CHR 0x0A then [CHR 0x5C, CHR ''n'']
      else if c = CHR 0x09 then [CHR 0x5C, CHR ''t'']
      else if (of_char c :: nat) < 0x20 then u_escape c
      else [c])"

definition plain_text :: "string \<Rightarrow> bool" where
  "plain_text s \<longleftrightarrow> CHR 0x0A \<notin> set s"

text \<open>A journal on disk that a restart would read back.\<close>

definition journal_inv :: "journal \<Rightarrow> bool" where
  "journal_inv j \<longleftrightarrow> (jn_file j = [] \<or> last (jn_file j) = CHR 0x0A) \<and> recover_seq (jn_file j) \<le> jn_seq j"

text \<open>System calls that all succeed, and a journal on them, for the witnesses.\<close>

definition good_io :: journal_io where
  "good_io = \<lparr>io_reopen = True, io_lock = True, io_fstat = True, io_backup_open = True, io_lseek = True,
     io_read = (\<lambda>_. True), io_backup_write = (\<lambda>_. Some COPY_CHUNK), io_truncate = True, io_write = Some 100000\<rparr>"


section \<open>Escaping\<close>

lemma escape_loop_from: "escape_loop (length p) (p @ s) = p @ concat (map journal_esc s)"
proof (induction s arbitrary: p)
  case (Cons c s)
  have step: "escape_loop (length p) (p @ c # s) = escape_loop (length (p @ journal_esc c)) ((p @ journal_esc c) @ s)"
    by (subst escape_loop.simps) (simp add: journal_esc_def Let_def)
  show ?case unfolding step Cons.IH [of "p @ journal_esc c"] by simp
qed (simp add: escape_loop.simps)

lemma escape_loop_eq: "escape_loop 0 s = concat (map journal_esc s)"
  using escape_loop_from [of "[]" s] by simp

interpretation journal_json: escaper journal_esc
proof
  fix c x :: char and rest
  show "unesc1 (journal_esc c @ rest) = Some (c, rest)"
    by (auto simp: journal_esc_def)
  show "journal_esc c \<noteq> [] \<and> hd (journal_esc c) \<noteq> CHR 0x22"
    by (auto simp: journal_esc_def u_escape_starts)
  show "32 \<le> (of_char x :: nat)" if "x \<in> set (journal_esc c)"
    using that by (auto simp: journal_esc_def u_escape_printable split: if_splits)
qed

text \<open>
  The in-place escaping loop of the journal ends, and what it leaves between two quotes is read
  back by a JSON reader as exactly the evidence, followed by the text behind the closing quote,
  whatever bytes the evidence holds; it contains no control character, so no newline.
\<close>

theorem journal_escape_reads_back:
  "read_string (escape_loop 0 evidence @ CHR 0x22 # rest) = Some (evidence, rest)
   \<and> list_all (\<lambda>c. 32 \<le> (of_char c :: nat)) (escape_loop 0 evidence)"
  unfolding escape_loop_eq list_all_iff
  using journal_json.reads_back journal_json.escape_printable by blast


section \<open>Sequence numbers\<close>

lemma seq_step_ok:
  fixes a d :: nat
  assumes "a * 10 + d < 2 ^ 64" "d < 10"
  shows "\<not> (of_nat a :: uint64) > (- 1 - of_nat d) div 10"
proof -
  have d: "unat (of_nat d :: uint64) = d" and a: "unat (of_nat a :: uint64) = a"
    using assms by (simp_all add: unat_of_nat take_bit_eq_mod)
  have "unat (- 1 - of_nat d :: uint64) = 2 ^ 64 - 1 - d"
    using assms(2) d by (subst unat_sub) (simp_all add: word_le_nat_alt unsigned_minus_1_eq_mask mask_eq_exp_minus_1)
  then have "unat ((- 1 - of_nat d :: uint64) div 10) = (2 ^ 64 - 1 - d) div 10"
    by (simp add: unat_div)
  moreover have "a \<le> (2 ^ 64 - 1 - d) div 10"
    using assms by linarith
  ultimately show ?thesis using a by (simp add: word_less_nat_alt not_less)
qed

lemma seq_digits_eq:
  assumes "\<forall>c \<in> set ds. is_digit c" "digits_val a ds < 2 ^ 64" "rest = [] \<or> \<not> is_digit (hd rest)"
  shows "seq_digits (of_nat a) (ds @ rest) = of_nat (digits_val a ds)"
  using assms
proof (induction ds arbitrary: a)
  case Nil
  then show ?case by (cases rest) simp_all
next
  case (Cons c ds)
  have mono: "b \<le> digits_val b xs" for b xs
  proof (induction xs arbitrary: b)
    case (Cons x xs)
    from Cons [of "b * 10 + digit_val x"] show ?case by simp
  qed simp
  have "digit_val c < 10" using Cons.prems(1) by (auto simp: is_digit_def digit_val_def)
  moreover have "a * 10 + digit_val c < 2 ^ 64"
    using mono [of "a * 10 + digit_val c" ds] Cons.prems(2) by simp
  ultimately have "\<not> (of_nat a :: uint64) > (- 1 - of_nat (digit_val c)) div 10"
    by (rule seq_step_ok [rotated])
  moreover have "of_nat a * 10 + of_nat (digit_val c) = (of_nat (a * 10 + digit_val c) :: uint64)" by simp
  ultimately show ?case using Cons.IH [of "a * 10 + digit_val c"] Cons.prems
    by (simp add: Let_def del: of_nat_add of_nat_mult)
qed

lemma seq_digits_u64:
  assumes "rest = [] \<or> \<not> is_digit (hd rest)"
  shows "seq_digits 0 (u64_str w @ rest) = w"
proof -
  have "unat w < 2 ^ 64" using unsigned_less [of w] by simp
  then show ?thesis
    using seq_digits_eq [of "u64_str w" 0 rest] nat_str_digits assms
    by (simp add: u64_str_def digits_val_nat_str)
qed

lemma extract_seq_line: "extract_seq (''{\"seq\":'' @ u64_str w @ CHR '','' # rest) = w"
  using seq_digits_u64 [of "CHR '','' # rest" w]
  by (simp add: extract_seq_def starts_with_def is_digit_def)


section \<open>Recovery\<close>

lemma getline_tokens_line:
  "CHR 0x0A \<notin> set line \<Longrightarrow> getline_tokens (CHR 0x0A) (line @ [CHR 0x0A]) = [line]"
  by (simp add: getline_tokens_def getline_from_field)

lemma getline_from_append_line:
  assumes "s = [] \<or> last s = d"
  shows "getline_from d acc (s @ x) = (if s = [] then getline_from d acc x else getline_from d acc s @ getline_from d [] x)"
  using assms by (induction s arbitrary: acc) (auto split: if_splits)

lemma recover_seq_line:
  assumes "contents = [] \<or> last contents = CHR 0x0A" "CHR 0x0A \<notin> set line" "line \<noteq> []"
  shows "recover_seq (contents @ line @ [CHR 0x0A]) = max (recover_seq contents) (extract_seq line)"
  using assms getline_from_append_line [OF assms(1), of "[]" "line @ [CHR 0x0A]"]
  by (auto simp: recover_seq_def getline_tokens_def getline_from_field Let_def max_def word_greater_zero_iff)

lemma journal_line_split:
  assumes "plain_text stage" "plain_text target"
  obtains line where "journal_line L seq now stage target ev = line @ [CHR 0x0A]" "CHR 0x0A \<notin> set line"
    "line \<noteq> []" "extract_seq line = seq"
proof -
  define rest where "rest = ''\"ts\":'' @ int_str now @ '',\"stage\":\"'' @ stage @ ''\"'' @ '',\"target\":\"'' @ target @ ''\"''
     @ '',\"evidence\":\"'' @ escape_loop 0 ev @ ''\"'' @ '',\"hash\":\"'' @ journal_hash L ev @ ''\"}''"
  have nl: "\<not> is_digit (CHR 0x0A)" by (simp add: is_digit_def)
  have "CHR 0x0A \<notin> set (journal_hash L ev)"
    using sha256_hex_is_hex [of "CHR 0x0A" L ev] by (auto simp: journal_hash_def Let_def is_hex_def is_digit_def)
  moreover have "CHR 0x0A \<notin> set (escape_loop 0 ev)"
    unfolding escape_loop_eq by (rule journal_json.escape_no_control) simp
  ultimately have "CHR 0x0A \<notin> set rest"
    using assms int_str_no_sep [OF nl, of now] by (simp add: rest_def plain_text_def)
  then have "CHR 0x0A \<notin> set (''{\"seq\":'' @ u64_str seq @ CHR '','' # rest)"
    using u64_str_no_sep [OF nl, of seq] by simp
  moreover have "journal_line L seq now stage target ev = (''{\"seq\":'' @ u64_str seq @ CHR '','' # rest) @ [CHR 0x0A]"
    by (simp add: journal_line_def rest_def)
  ultimately show thesis using that extract_seq_line [of seq rest] by simp
qed

lemma journal_rotate_file: "jn_file (journal_rotate io j) \<in> {jn_file j, []}" "jn_seq (journal_rotate io j) = jn_seq j" "jn_open (journal_rotate io j) = jn_open j"
  by (auto simp: journal_rotate_def Let_def split: prod.splits)

lemma recover_seq_Nil [simp]: "recover_seq [] = 0"
  by (simp add: recover_seq_def)





section \<open>Rotation\<close>

lemma copy_loop_complete:
  "\<forall>i. io_read io i \<Longrightarrow> fst (copy_loop io i rest backup) \<Longrightarrow> snd (copy_loop io i rest backup) = backup @ rest"
proof (induction io i rest backup rule: copy_loop.induct)
  case (1 io i rest backup)
  then show ?case
    by (cases "rest = []"; cases "io_backup_write io i")
      (simp_all add: copy_loop.simps [of io i rest backup] copy_loop.simps [of io i "[]"] Let_def split: if_splits)
qed

lemma journal_rotate_truncated:
  assumes "jn_file j \<noteq> []" "jn_file (journal_rotate io j) = []"
  shows "fst (copy_loop io 0 (jn_file j) []) \<and> jn_backup (journal_rotate io j) = Some (snd (copy_loop io 0 (jn_file j) []))"
  using assms by (auto simp: journal_rotate_def Let_def split_beta split: if_splits)

text \<open>
  Rotation: when the journal is emptied by a rotation and no read of the copy loop failed, the
  backup holds the whole former journal, so a failed or short write to the backup never loses data.
  A read error is not noticed: if the first read fails, the journal is emptied all the same and the
  backup is empty.
\<close>

theorem rotation_keeps_data_unless_read_fails:
  assumes "jn_file j \<noteq> []" "jn_file (journal_rotate io j) = []"
  shows "((\<forall>i. io_read io i) \<longrightarrow> jn_backup (journal_rotate io j) = Some (jn_file j))
    \<and> (\<not> io_read io 0 \<longrightarrow> jn_backup (journal_rotate io j) = Some [])"
  using journal_rotate_truncated [OF assms] copy_loop_complete [of io 0 "jn_file j" "[]"]
  by (auto simp: copy_loop.simps [of io 0 "jn_file j" "[]"])

theorem rotation_keeps_data_unless_read_fails_witness:
  "jn_backup (journal_rotate (good_io\<lparr>io_read := (\<lambda>_. False)\<rparr>)
      (new_journal (Some (replicate (ROTATE_BYTES + 1) (CHR ''x''))) True None)) = Some []"
  using rotation_keeps_data_unless_read_fails
    [of "new_journal (Some (replicate (ROTATE_BYTES + 1) (CHR ''x''))) True None" "good_io\<lparr>io_read := (\<lambda>_. False)\<rparr>"]
  by (simp add: journal_rotate_def new_journal_def good_io_def Let_def copy_loop.simps)

end
