(* ===== verification/PBFT_Rounds.thy ===== *)
theory PBFT_Rounds
  imports PBFT_Inv
begin

text \<open>
  The abstract stage machine a round refines, the contract of a quorum size as a locale with its
  interpretation on the code's formula, and the case analysis of \<open>advance_state\<close> the
  safety proofs rest on.
\<close>


section \<open>Abstract stage machine\<close>

text \<open>What a round promises: it starts idle and moves through the stages one at a time and never
  back.\<close>

inductive stage_step :: "pbft_stage \<Rightarrow> pbft_stage \<Rightarrow> bool" where
  proposed: "stage_step IDLE PREPARE"
| prepared: "stage_step PREPARE COMMIT"
| committed: "stage_step COMMIT EXECUTED"

inductive_simps stage_step_simps [simp]:
  "stage_step IDLE x" "stage_step PREPARE x" "stage_step COMMIT x" "stage_step EXECUTED x"

fun stage_rank :: "pbft_stage \<Rightarrow> nat" where
  "stage_rank IDLE = 0"
| "stage_rank PREPARE = 1"
| "stage_rank COMMIT = 2"
| "stage_rank EXECUTED = 3"
| "stage_rank _ = 0"

text \<open>The abstraction of the state: the stage each round key is in.\<close>

definition abs_stage :: "pbft \<Rightarrow> string \<Rightarrow> pbft_stage" where
  "abs_stage s key = round_state (round_of s key)"

text \<open>A round that the next clean-up removes.\<close>

definition stale_key :: "time \<Rightarrow> pbft \<Rightarrow> string \<Rightarrow> bool" where
  "stale_key now s k \<longleftrightarrow> (\<exists>r. omap_lookup (m_rounds s) k = Some r \<and> round_stale now r)"

lemma stage_step_rank: "stage_step x y \<Longrightarrow> stage_rank y = Suc (stage_rank x)"
  by (induction rule: stage_step.induct) auto


section \<open>Quorum systems\<close>

text \<open>The contract of a quorum size: among \<open>n\<close> members of which \<open>f\<close> may fail, any two
  quorums share a member that does not fail, and the members that do not fail form a quorum.\<close>

locale quorum_system =
  fixes n q f :: nat
  assumes overlap: "n + f < 2 * q"
    and available: "q + f \<le> n"
begin

lemma common_correct_member:
  assumes "finite N" "card N \<le> n" "A \<subseteq> N" "B \<subseteq> N" "q \<le> card A" "q \<le> card B" "card F \<le> f" "finite F"
  shows "\<exists>x \<in> A \<inter> B. x \<notin> F"
proof (rule ccontr)
  assume "\<not> ?thesis"
  then have "A \<inter> B \<subseteq> F" by auto
  then have "card (A \<inter> B) \<le> f" using card_mono [OF assms(8)] assms(7) by (metis le_trans)
  moreover have "card A + card B = card (A \<union> B) + card (A \<inter> B)"
    using assms by (intro card_Un_Int finite_subset [OF _ assms(1)])
  moreover have "card (A \<union> B) \<le> n"
    using assms card_mono [of N "A \<union> B"] by auto
  ultimately show False using assms overlap by linarith
qed

lemma correct_members_suffice:
  assumes "finite N" "card N = n" "card F \<le> f" "F \<subseteq> N"
  shows "q \<le> card (N - F)"
proof -
  have "card (N - F) = n - card F"
    using card_Diff_subset [OF finite_subset [OF assms(4,1)] assms(4)] assms(2) by simp
  with assms(3) available show ?thesis by linarith
qed

lemma quorum_positive: "0 < q"
  using overlap by linarith

end

lemma quorum_of_3f1: "quorum_of (int (3 * f + 1)) = int (2 * f + 1)"
  by (simp add: quorum_of_def)

interpretation pbft_quorum: quorum_system "3 * f + 1" "nat (quorum_of (int (3 * f + 1)))" f for f
  by unfold_locales (simp_all only: quorum_of_3f1 nat_int, simp_all)

lemma quorum_of_pos: "1 \<le> quorum_of n"
  unfolding quorum_of_def by (simp add: pos_imp_zdiv_nonneg_iff)

lemma quorum_of_le: "1 \<le> n \<Longrightarrow> quorum_of n \<le> n"
  unfolding quorum_of_def by (simp add: max_def)

lemma quorum_of_mono: "m \<le> n \<Longrightarrow> quorum_of m \<le> quorum_of n"
  unfolding quorum_of_def using zdiv_mono1 [of "max 1 m - 1" "max 1 n - 1" 3] by simp


section \<open>The steps of advance_state\<close>

lemma cleanup_loop_lookup:
  "omap_lookup (m_rounds (cleanup_loop now rs s)) k =
     (if \<exists>r. (k, r) \<in> set rs \<and> round_stale now r then None else omap_lookup (m_rounds s) k)"
  "m_vote_registry (cleanup_loop now rs s) k =
     (if \<exists>r. (k, r) \<in> set rs \<and> round_stale now r then None else m_vote_registry s k)"
  by (induction now rs s rule: cleanup_loop.induct) auto

lemma omap_inv_distinct: "omap_inv m \<Longrightarrow> distinct (map fst m)"
  by (auto simp: omap_inv_def strict_sorted_iff)

lemma omap_lookup_iff: "omap_inv m \<Longrightarrow> (k, v) \<in> set m \<longleftrightarrow> omap_lookup m k = Some v"
  by (simp add: omap_inv_distinct)

lemma cleanup_lookup:
  assumes "omap_inv (m_rounds s)"
  shows "round_of (cleanup_stale_rounds now s) k = (if stale_key now s k then default_round else round_of s k)"
    and "voters (cleanup_stale_rounds now s) k st = (if stale_key now s k then {} else voters s k st)"
  using assms
  by (auto simp: cleanup_stale_rounds_def round_of_def reg_voters_def cleanup_loop_lookup stale_key_def
      omap_lookup_iff)

lemma cleanup_frame [simp]:
  "m_peer_public_keys (cleanup_stale_rounds now s) = m_peer_public_keys s"
  "m_banned_peers (cleanup_stale_rounds now s) = m_banned_peers s"
  "m_seen_messages (cleanup_stale_rounds now s) = m_seen_messages s"
  "m_total_nodes (cleanup_stale_rounds now s) = m_total_nodes s"
  "m_message_history (cleanup_stale_rounds now s) = m_message_history s"
  "m_rate_limits (cleanup_stale_rounds now s) = m_rate_limits s"
  by (simp_all add: cleanup_stale_rounds_def)


text \<open>What a call of \<open>advance_state\<close> amounts to: nothing; a clean-up and perhaps a failure
  mark; or a clean-up followed by the registration of a vote on a state whose rounds and votes are
  the cleaned-up ones.\<close>

lemma advance_state_cases [consumes 1, case_names ignored dropped voted]:
  assumes "advance_state L evict now msg s = (st, s')"
  obtains "st = IDLE" "s' = s" "sender_id msg \<in> m_banned_peers s \<or> m_peer_public_keys s (sender_id msg) = None"
  | s1 where "st = IDLE" "s' = s1 \<or> s' = record_failure now (sender_id msg) s1"
      "\<exists>ts. s1 = (cleanup_stale_rounds now s)\<lparr>m_rate_limits := ts\<rparr>"
      "sender_id msg \<notin> m_banned_peers s" "m_peer_public_keys s (sender_id msg) \<noteq> None"
  | s2 where "(st, s') = register_vote now (round_key_of L (evidence_json msg) (target_id msg)) msg
        (compute_message_hash L msg) s2"
      "m_rounds s2 = m_rounds (cleanup_stale_rounds now s)"
      "m_vote_registry s2 = m_vote_registry (cleanup_stale_rounds now s)"
      "m_peer_public_keys s2 = m_peer_public_keys s" "m_banned_peers s2 = m_banned_peers s"
      "m_total_nodes s2 = m_total_nodes s"
      "sender_id msg \<notin> m_banned_peers s" "m_peer_public_keys s (sender_id msg) \<noteq> None"
      "compute_message_hash L msg \<notin> m_seen_messages s"
      "m_seen_messages s2 = m_seen_messages (see_message evict (compute_message_hash L msg) s)"
proof -
  obtain ok s1 where rl: "check_rate_limit now (sender_id msg) (cleanup_stale_rounds now s) = (ok, s1)"
    by fastforce
  then obtain ts where s1: "s1 = (cleanup_stale_rounds now s)\<lparr>m_rate_limits := ts\<rparr>"
    using check_rate_limit_eq by blast
  show thesis
  proof (cases "sender_id msg \<in> m_banned_peers s \<or> m_peer_public_keys s (sender_id msg) = None")
    case True
    then have "(st, s') = (IDLE, s)" using assms by (simp add: advance_state_def split: if_splits)
    then show thesis using True that(1) by simp
  next
    case False
    let ?h = "compute_message_hash L msg"
    have seen: "m_seen_messages s1 = m_seen_messages s" by (simp add: s1)
    obtain key where F: "sender_id msg \<notin> m_banned_peers s" "m_peer_public_keys s (sender_id msg) = Some key"
      using False by blast
    have eq: "advance_state L evict now msg s =
      (if \<not> ok then (IDLE, record_failure now (sender_id msg) s1)
       else if ?h \<in> m_seen_messages s1 then (IDLE, s1)
       else register_vote now (round_key_of L (evidence_json msg) (target_id msg)) msg ?h
              (detect_equivocation now msg ?h (see_message evict ?h s1)))"
      unfolding advance_state_def Let_def using F rl by simp
    show thesis
    proof (cases "\<not> ok \<or> ?h \<in> m_seen_messages s")
      case True
      then have "st = IDLE" "s' = s1 \<or> s' = record_failure now (sender_id msg) s1"
        using eq assms by (auto simp: seen split: if_splits)
      then show thesis using that(2) [of s1] s1 False by blast
    next
      case fresh: False
      then show thesis
        using eq assms False that(3) [of "detect_equivocation now msg ?h (see_message evict ?h s1)"]
        by (simp add: s1 [symmetric] seen see_message_def Let_def) (simp add: s1)
    qed
  qed
qed

lemma quorum_size_cong: "m_total_nodes s = m_total_nodes s' \<Longrightarrow> quorum_size s = quorum_size s'"
  by (simp add: quorum_size_def)

lemma round_of_cong: "m_rounds s = m_rounds s' \<Longrightarrow> round_of s = round_of s'"
  by (simp add: round_of_def fun_eq_iff)

lemma put_round_frame [simp]:
  "m_vote_registry (put_round k r s) = m_vote_registry s"
  "m_peer_public_keys (put_round k r s) = m_peer_public_keys s"
  "m_banned_peers (put_round k r s) = m_banned_peers s"
  "quorum_size (put_round k r s) = quorum_size s"
  by (simp_all add: put_round_def quorum_size_def)

lemma verify_quorum_intersection_voters:
  assumes "verify_quorum_intersection s key" "int (card (voters s key ''PREPARE'')) \<ge> quorum_size s"
    "voters s key ''COMMIT'' \<noteq> {}"
  shows "int (card (voters s key ''PREPARE'' \<inter> voters s key ''COMMIT'')) \<ge> quorum_size s"
  using assms quorum_of_pos [of "m_total_nodes s"]
  by (cases "m_vote_registry s key"; cases "the (m_vote_registry s key) ''PREPARE''";
      cases "the (m_vote_registry s key) ''COMMIT''")
     (simp_all add: verify_quorum_intersection_def reg_voters_def quorum_size_def)

lemma record_failure_rounds [simp]: "m_rounds (record_failure now n s) = m_rounds s"
  by (simp add: record_failure_def prune_peer_locked_def Let_def)

lemma record_failure_voters: "voters (record_failure now n s) k st \<subseteq> voters s k st"
  by (auto simp: record_failure_def prune_peer_locked_def Let_def)


text \<open>The effect of counting a vote on the rounds: the round of the key makes one abstract step,
  the result is its new stage, or nothing moves.\<close>

lemma count_vote_stage:
  assumes "count_vote now key msg h s = (st, s')" "rounds_inv (m_rounds s)"
  shows "(st = IDLE \<and> abs_stage s' = abs_stage s) \<or>
    (stage_step (abs_stage s key) st \<and> abs_stage s' = (abs_stage s)(key := st))"
proof -
  have "omap_inv (m_rounds s)" using assms(2) by (simp add: rounds_inv_def)
  moreover have "omap_inv (m_rounds (set_voters k stg v s))" for k stg v
    using \<open>omap_inv (m_rounds s)\<close> by simp
  ultimately show ?thesis
    using assms(1)
    by (auto simp: count_vote_def Let_def abs_stage_def fun_eq_iff split: if_splits)
qed

lemma register_vote_stage:
  assumes "register_vote now key msg h s = (st, s')" "rounds_inv (m_rounds s)"
  shows "(st = IDLE \<and> abs_stage s' = abs_stage s) \<or>
    (stage_step (abs_stage s key) st \<and> abs_stage s' = (abs_stage s)(key := st))"
proof (cases "sender_id msg \<in> voters s key (stage_str msg)")
  case True
  with assms show ?thesis by (auto simp: register_vote_def Let_def abs_stage_def fun_eq_iff)
next
  case False
  have "abs_stage (set_voters k stg v s) = abs_stage s" for k stg v
    by (simp add: abs_stage_def fun_eq_iff)
  with False assms count_vote_stage show ?thesis
    by (fastforce simp: register_vote_def Let_def)
qed

end
