(* ===== verification/MeshNode.thy ===== *)
theory MeshNode
  imports MeshWire PeerManager ProofChain StateJournal PBFT_Rounds
begin

text \<open>
  \<open>consensus/MeshNode.{hpp,cpp}\<close>: the node that joins the consensus machine, the peer manager,
  the journal and the proof chain and reacts to the network. The state is the record
  \<open>mesh_node\<close>; everything a handler does to the outside world is appended to the trace
  \<open>mn_out\<close>. One run of a handler gets a \<open>mesh_env\<close>: OpenSSL, the clock, read once
  per handler, the orders in which unordered containers are visited, and what the network and the
  file system answer.
\<close>


section \<open>State, environment and effects\<close>

datatype mesh_out =
    UdpSend string int string        \<comment> \<open>address, port, payload\<close>
  | TlsSend int string
  | TlsClose int
  | TrustCert pem
  | PexReply string
  | PushTelemetry string
  | EnforcerIp node_id string
  | EnforcerPort node_id int
  | ExportProof string string        \<comment> \<open>path, contents\<close>
  | Webhook string string string int int  \<comment> \<open>url, target, evidence, quorum, timestamp\<close>
  | Mitigate string string           \<comment> \<open>evidence, target\<close>

record tls_task =
  tt_peer_id :: node_id
  tt_ip :: string
  tt_port :: int

record mesh_node =
  mn_node_id :: node_id
  mn_tcp_port :: int
  mn_tls_port :: int
  mn_broadcast_fd :: int
  mn_discovery_fd :: int
  mn_discovery6_fd :: int
  mn_discovery_mcast_fd :: int
  mn_private_key :: pkey
  mn_public_key_pem :: pem
  mn_public_key_b64 :: string
  mn_pbft :: pbft
  mn_sequence_number :: uint64
  mn_tls_cert_fingerprint :: string
  mn_tls_cert_pem :: pem
  mn_last_announce_time :: time
  mn_last_targeted_at :: time
  mn_proof_chain :: proof_chain
  mn_journal :: journal
  mn_webhook_url :: string
  mn_max_evidence_size :: nat
  mn_peers :: peer_manager
  mn_seed_peers :: "(string \<times> int) list"
  mn_tls_queue :: "tls_task list"
  mn_out :: "mesh_out list"

record mesh_env =
  env_ssl :: openssl
  env_evict :: "string set \<Rightarrow> string set"
  env_now :: time
  env_wall_ms :: int
  env_ord :: "node_id list"
  env_ip_ord :: "string list"
  env_io :: journal_io
  env_has_enforcer :: bool
  env_has_mitigation :: bool
  env_has_bridge :: bool
  env_has_transport :: bool
  env_tls_send :: "int \<Rightarrow> string \<Rightarrow> bool"      \<comment> \<open>the whole payload was sent\<close>
  env_tls_connect :: "string \<Rightarrow> int \<Rightarrow> int"      \<comment> \<open>a descriptor, negative on failure\<close>
  env_pex :: "string \<Rightarrow> int \<Rightarrow> string \<Rightarrow> string option"  \<comment> \<open>what a peer answers, if it can be reached\<close>
  env_export_ok :: bool

definition DISCOVERY_UDP_PORT :: int where "DISCOVERY_UDP_PORT = 9998"
definition HEARTBEAT_SEC :: int where "HEARTBEAT_SEC = 5"
definition UDP_PORT :: int where "UDP_PORT = 9999"

definition now_us :: "mesh_env \<Rightarrow> int" where
  "now_us E = trunc_div (env_now E) 1000"

definition emit :: "mesh_out \<Rightarrow> mesh_node \<Rightarrow> mesh_node" where
  "emit x s = s\<lparr>mn_out := mn_out s @ [x]\<rparr>"

definition push_telemetry :: "mesh_env \<Rightarrow> string \<Rightarrow> mesh_node \<Rightarrow> mesh_node" where
  "push_telemetry E json s = (if env_has_bridge E then emit (PushTelemetry json) s else s)"

definition journal_event :: "mesh_env \<Rightarrow> string \<Rightarrow> string \<Rightarrow> string \<Rightarrow> mesh_node \<Rightarrow> mesh_node" where
  "journal_event E stage target evidence s =
     s\<lparr>mn_journal := snd (journal_append (env_ssl E) (env_io E) (env_wall_ms E) stage target evidence (mn_journal s))\<rparr>"

definition on_pbft :: "(pbft \<Rightarrow> pbft) \<Rightarrow> mesh_node \<Rightarrow> mesh_node" where
  "on_pbft f s = s\<lparr>mn_pbft := f (mn_pbft s)\<rparr>"

definition on_peers :: "(peer_manager \<Rightarrow> peer_manager) \<Rightarrow> mesh_node \<Rightarrow> mesh_node" where
  "on_peers f s = s\<lparr>mn_peers := f (mn_peers s)\<rparr>"


section \<open>Sending\<close>

definition send_udp_broadcast :: "string \<Rightarrow> mesh_node \<Rightarrow> mesh_node" where
  "send_udp_broadcast payload s =
     (if mn_broadcast_fd s < 0 then s else emit (UdpSend ''255.255.255.255'' UDP_PORT payload) s)"

definition send_udp_discovery :: "string \<Rightarrow> mesh_node \<Rightarrow> mesh_node" where
  "send_udp_discovery payload s =
     (let s = (if mn_discovery_fd s \<ge> 0 then emit (UdpSend ''255.255.255.255'' DISCOVERY_UDP_PORT payload) s else s);
          s = (if mn_discovery_mcast_fd s \<ge> 0 then emit (UdpSend ''239.255.255.250'' DISCOVERY_UDP_PORT payload) s else s)
      in if mn_discovery6_fd s \<ge> 0 then emit (UdpSend ''ff02::1'' DISCOVERY_UDP_PORT payload) s else s)"

definition send_udp_unicast :: "string \<Rightarrow> int \<Rightarrow> string \<Rightarrow> mesh_node \<Rightarrow> mesh_node" where
  "send_udp_unicast ip port payload s =
     (if mn_broadcast_fd s < 0 then s
      else if inet_pton4 ip = None then s
      else emit (UdpSend ip (port mod 65536) payload) s)"

definition announce_identity :: "mesh_env \<Rightarrow> mesh_node \<Rightarrow> mesh_node" where
  "announce_identity E s =
     send_udp_broadcast (announce_payload (env_ssl E) (mn_private_key s) (mn_node_id s) (mn_public_key_pem s)) s"

definition send_discovery_beacon :: "mesh_env \<Rightarrow> mesh_node \<Rightarrow> mesh_node" where
  "send_discovery_beacon E s =
     (let payload = beacon_payload (env_ssl E) (mn_private_key s) (mn_node_id s) (mn_tcp_port s) (mn_tls_port s)
            (now_us E) (mn_public_key_b64 s) (mn_tls_cert_fingerprint s) (mn_tls_cert_pem s);
          s = send_udp_discovery payload s
      in fold (\<lambda>(ip, port). send_udp_unicast ip port payload) (mn_seed_peers s) s)"

definition gossip_event_json :: "mesh_env \<Rightarrow> string \<Rightarrow> mesh_node \<Rightarrow> mesh_node" where
  "gossip_event_json E json s =
     push_telemetry E json
       (send_udp_discovery (telemetry_payload (env_ssl E) (mn_private_key s) (mn_node_id s) json) s)"

definition gossip_telemetry :: "mesh_env \<Rightarrow> string \<Rightarrow> mesh_node \<Rightarrow> mesh_node" where
  "gossip_telemetry E json s =
     (let s = on_peers (set_own_telemetry json) s in
      push_telemetry E json
        (send_udp_discovery (telemetry_payload (env_ssl E) (mn_private_key s) (mn_node_id s) json) s))"


section \<open>Consensus\<close>

definition spike_json :: "string \<Rightarrow> int \<Rightarrow> string" where
  "spike_json target quorum =
     ''{\"event\":\"entropy_spike\",\"value\":0.98,\"threshold\":0.65,'' @ ''\"target\":\"'' @ target @ ''\",''
     @ ''\"quorum\":'' @ int_str quorum @ '','' @ ''\"mitre_attack\":[\"T1059\",\"T1021\",\"T1571\",\"T1090\"]}''"

definition flagged_json :: "string \<Rightarrow> string" where
  "flagged_json target =
     ''{\"event\":\"heartbeat\",'' @ ''\"node\":\"'' @ target @ ''\",'' @ ''\"threat\":\"CRITICAL\",''
     @ ''\"status\":\"FLAGGED\",'' @ ''\"entropy\":0.98,'' @ ''\"cpu\":85.5,'' @ ''\"mem_mb\":512,''
     @ ''\"peers\":0,'' @ ''\"mitre_attack\":[\"T1059\",\"T1021\",\"T1571\"]}''"

definition is_ban_round :: "string \<Rightarrow> bool" where
  "is_ban_round evidence = str_contains ''\"action\":\"ban\"'' evidence"

text \<open>\<open>verify_message\<close> followed by \<open>advance_state\<close>; a message that is not verified
  advances nothing.\<close>

definition cast_vote :: "mesh_env \<Rightarrow> p2p_message \<Rightarrow> mesh_node \<Rightarrow> pbft_stage \<times> mesh_node" where
  "cast_vote E msg s =
     (let (ok, p) = verify_message (env_ssl E) (env_now E) msg (mn_pbft s) in
      if ok then let (st, p) = advance_state (env_ssl E) (env_evict E) (env_now E) msg p
                 in (st, s\<lparr>mn_pbft := p\<rparr>)
      else (IDLE, s\<lparr>mn_pbft := p\<rparr>))"

definition append_proof :: "mesh_env \<Rightarrow> string \<Rightarrow> string \<Rightarrow> string \<Rightarrow> mesh_node \<Rightarrow> mesh_node" where
  "append_proof E target evidence sig s =
     (let chain = proof_append (env_ssl E) (now_us E) CONSENSUS_REACHED target evidence sig (mn_proof_chain s);
          s = s\<lparr>mn_proof_chain := chain\<rparr>
      in case snd (export_file (env_export_ok E) chain) of
           None \<Rightarrow> s
         | Some (path, contents) \<Rightarrow> emit (ExportProof path contents) s)"

definition run_mitigation :: "mesh_env \<Rightarrow> string \<Rightarrow> string \<Rightarrow> mesh_node \<Rightarrow> mesh_node" where
  "run_mitigation E evidence target s = (if env_has_mitigation E then emit (Mitigate evidence target) s else s)"

text \<open>The ban branch, which both the handler and the self-vote path start with.\<close>

definition execute_ban :: "mesh_env \<Rightarrow> string \<Rightarrow> string \<Rightarrow> mesh_node \<Rightarrow> mesh_node" where
  "execute_ban E target evidence s =
     journal_event E ''BAN_PEER_EXECUTED'' target evidence (on_pbft (ban_peer_local target) s)"

definition executed_by_self :: "mesh_env \<Rightarrow> p2p_message \<Rightarrow> mesh_node \<Rightarrow> mesh_node" where
  "executed_by_self E msg s =
     (if is_ban_round (evidence_json msg) \<or> stage_str msg = ''BAN_PEER''
      then execute_ban E (target_id msg) (evidence_json msg) s
      else if pm_peer_count (mn_peers s) < 1 then s
      else run_mitigation E (evidence_json msg) (target_id msg)
             (append_proof E (target_id msg) (evidence_json msg) (signature msg)
               (journal_event E ''EXECUTED'' (target_id msg) (evidence_json msg) s)))"

definition executed_by_peer :: "mesh_env \<Rightarrow> p2p_message \<Rightarrow> mesh_node \<Rightarrow> mesh_node" where
  "executed_by_peer E msg s =
     (let target = target_id msg; evidence = evidence_json msg in
      if is_ban_round evidence \<or> stage_str msg = ''BAN_PEER'' then execute_ban E target evidence s
      else if pm_peer_count (mn_peers s) < 1 then s
      else
        let s = journal_event E ''EXECUTED'' target evidence s;
            commit_sig = get_round_commit_sig (mn_pbft s) (sha256_hex (env_ssl E) (evidence @ ''|'' @ target));
            s = append_proof E target evidence commit_sig s;
            s = push_telemetry E (''{\"proof_chain\":'' @ get_latest_json (mn_proof_chain s) @ ''}'') s;
            quorum = quorum_size (mn_pbft s);
            s = (if mn_webhook_url s \<noteq> []
                 then emit (Webhook (mn_webhook_url s) target evidence quorum (now_us E)) s else s);
            s = push_telemetry E (flagged_json target) (push_telemetry E (spike_json target quorum) s)
        in run_mitigation E evidence target s)"

text \<open>The part of \<open>broadcast_pbft_stage\<close> that makes, signs and sends the message.\<close>

definition make_vote :: "mesh_env \<Rightarrow> string \<Rightarrow> string \<Rightarrow> string \<Rightarrow> mesh_node \<Rightarrow> p2p_message" where
  "make_vote E stage target evidence s =
     (let msg = \<lparr>stage_str = stage, sender_id = mn_node_id s, target_id = target, evidence_json = evidence,
                 signature = [], prev_message_hash = get_last_sent_hash (mn_pbft s) (mn_node_id s),
                 sequence_number = mn_sequence_number s + 1, msg_view = m_current_view (mn_pbft s)\<rparr>
      in msg\<lparr>signature := sign_message (env_ssl E) (mn_pbft s) msg\<rparr>)"

definition send_tls_to :: "mesh_env \<Rightarrow> string \<Rightarrow> node_id \<Rightarrow> mesh_node \<Rightarrow> mesh_node" where
  "send_tls_to E payload peer_id s =
     (case get_peer_tls_fd (mn_peers s) peer_id of
        None \<Rightarrow> s
      | Some fd \<Rightarrow>
          if \<not> env_has_transport E then s
          else let s = emit (TlsSend fd payload) s in
               if \<not> env_tls_send E fd payload then on_peers (set_peer_tls_fd peer_id (-1)) s else s)"

definition send_vote :: "mesh_env \<Rightarrow> p2p_message \<Rightarrow> mesh_node \<Rightarrow> mesh_node" where
  "send_vote E msg s =
     (let s = s\<lparr>mn_sequence_number := sequence_number msg\<rparr>;
          s = (if stage_str msg = ''COMMIT''
               then on_pbft (set_round_commit_sig
                      (sha256_hex (env_ssl E) (evidence_json msg @ ''|'' @ target_id msg)) (signature msg)) s
               else s);
          payload = vote_payload msg;
          s = fold (send_tls_to E payload) (get_all_peer_ids (env_ord E) (mn_peers s)) s
      in send_udp_broadcast payload s)"

text \<open>A broadcast can start further broadcasts of later stages; the stages bound their number.\<close>

definition broadcast_rank :: "string \<Rightarrow> nat" where
  "broadcast_rank stage =
     (if stage = ''PRE_PREPARE'' \<or> stage = ''BAN_PEER'' then 3
      else if stage = ''PREPARE'' then 2 else if stage = ''COMMIT'' then 1 else 0)"

lemma count_vote_result:
  "fst (count_vote now key msg h s) = PREPARE \<Longrightarrow> stage_str msg = ''PRE_PREPARE'' \<or> stage_str msg = ''BAN_PEER''"
  "fst (count_vote now key msg h s) = COMMIT \<Longrightarrow> stage_str msg = ''PREPARE''"
  "fst (count_vote now key msg h s) = EXECUTED \<Longrightarrow> stage_str msg = ''COMMIT''"
  by (auto simp: count_vote_def Let_def split: if_splits)

lemma register_vote_result:
  "fst (register_vote now key msg h s) = PREPARE \<Longrightarrow> stage_str msg = ''PRE_PREPARE'' \<or> stage_str msg = ''BAN_PEER''"
  "fst (register_vote now key msg h s) = COMMIT \<Longrightarrow> stage_str msg = ''PREPARE''"
  "fst (register_vote now key msg h s) = EXECUTED \<Longrightarrow> stage_str msg = ''COMMIT''"
  unfolding register_vote_def Let_def using count_vote_result by (auto split: if_splits)

lemma advance_state_result:
  assumes "advance_state L evict now msg s = (st, s')"
  shows "st = PREPARE \<Longrightarrow> stage_str msg = ''PRE_PREPARE'' \<or> stage_str msg = ''BAN_PEER''"
    and "st = COMMIT \<Longrightarrow> stage_str msg = ''PREPARE''"
    and "st = EXECUTED \<Longrightarrow> stage_str msg = ''COMMIT''"
proof -
  have "st = IDLE \<or> (\<exists>key h s2. (st, s') = register_vote now key msg h s2)"
    using assms by (cases rule: advance_state_cases) blast+
  then obtain key h s2 where "st = IDLE \<or> st = fst (register_vote now key msg h s2)" by (metis fst_conv)
  then show "st = PREPARE \<Longrightarrow> stage_str msg = ''PRE_PREPARE'' \<or> stage_str msg = ''BAN_PEER''"
    and "st = COMMIT \<Longrightarrow> stage_str msg = ''PREPARE''"
    and "st = EXECUTED \<Longrightarrow> stage_str msg = ''COMMIT''"
    using register_vote_result [of now key msg h s2] by auto
qed

lemma cast_vote_cases:
  obtains p where "cast_vote E msg s = (IDLE, s\<lparr>mn_pbft := p\<rparr>)" "verify_message (env_ssl E) (env_now E) msg (mn_pbft s) = (False, p)"
  | p q st where "cast_vote E msg s = (st, s\<lparr>mn_pbft := q\<rparr>)" "verify_message (env_ssl E) (env_now E) msg (mn_pbft s) = (True, p)"
      "advance_state (env_ssl E) (env_evict E) (env_now E) msg p = (st, q)"
proof -
  obtain ok p where v: "verify_message (env_ssl E) (env_now E) msg (mn_pbft s) = (ok, p)" by fastforce
  obtain st q where a: "advance_state (env_ssl E) (env_evict E) (env_now E) msg p = (st, q)" by fastforce
  show thesis
  proof (cases ok)
    case True
    then show thesis using v a that(2) [of st q p] by (simp add: cast_vote_def Let_def)
  next
    case False
    then show thesis using v that(1) [of p] by (simp add: cast_vote_def Let_def)
  qed
qed

lemma cast_vote_result:
  "fst (cast_vote E msg s) = PREPARE \<Longrightarrow> stage_str msg = ''PRE_PREPARE'' \<or> stage_str msg = ''BAN_PEER''"
  "fst (cast_vote E msg s) = COMMIT \<Longrightarrow> stage_str msg = ''PREPARE''"
  "fst (cast_vote E msg s) = EXECUTED \<Longrightarrow> stage_str msg = ''COMMIT''"
  using advance_state_result by (cases E msg s rule: cast_vote_cases; simp)+

lemma make_vote_stage [simp]:
  "stage_str (make_vote E stage target evidence s) = stage"
  "sender_id (make_vote E stage target evidence s) = mn_node_id s"
  "target_id (make_vote E stage target evidence s) = target"
  "evidence_json (make_vote E stage target evidence s) = evidence"
  by (simp_all add: make_vote_def Let_def)

lemma cast_vote_rank:
  "fst (cast_vote E (make_vote E stage target evidence s) t) = PREPARE \<Longrightarrow> broadcast_rank ''PREPARE'' < broadcast_rank stage"
  "fst (cast_vote E (make_vote E stage target evidence s) t) = COMMIT \<Longrightarrow> broadcast_rank ''COMMIT'' < broadcast_rank stage"
  using cast_vote_result(1,2) [of E "make_vote E stage target evidence s" t] by (auto simp: broadcast_rank_def)

function broadcast_pbft_stage :: "mesh_env \<Rightarrow> string \<Rightarrow> string \<Rightarrow> string \<Rightarrow> mesh_node \<Rightarrow> mesh_node" where
  "broadcast_pbft_stage E stage target evidence s =
     (let msg = make_vote E stage target evidence s;
          vote = cast_vote E msg (send_vote E msg s);
          next_stage = fst vote; s' = snd vote
      in if next_stage = PREPARE then broadcast_pbft_stage E ''PREPARE'' target evidence s'
         else if next_stage = COMMIT
         then broadcast_pbft_stage E ''COMMIT'' target evidence
                (push_telemetry E (spike_json target (quorum_size (mn_pbft s')))
                  (journal_event E ''COMMIT'' target evidence s'))
         else if next_stage = EXECUTED then executed_by_self E msg s'
         else s')"
  by pat_completeness auto

termination broadcast_pbft_stage
  by (relation "measure (\<lambda>(E, stage, target, evidence, s). broadcast_rank stage)")
    (auto intro: cast_vote_rank [OF sym] cast_vote_rank)

declare broadcast_pbft_stage.simps [simp del]

definition node_propose_ban :: "mesh_env \<Rightarrow> node_id \<Rightarrow> string \<Rightarrow> mesh_node \<Rightarrow> bool \<times> mesh_node" where
  "node_propose_ban E target reason s =
     (if target = [] \<or> target = mn_node_id s then (False, s)
      else
        let ban_evidence = ''{\"action\":\"ban\",\"reason\":\"'' @ reason @ ''\"}'';
            s = broadcast_pbft_stage E ''PRE_PREPARE'' target ban_evidence s
        in if is_banned (mn_pbft s) target then (True, s)
           else (True, journal_event E ''BAN_PEER_LOCAL'' target reason (on_pbft (ban_peer_local target) s)))"

definition initiate_consensus :: "mesh_env \<Rightarrow> node_id \<Rightarrow> string \<Rightarrow> mesh_node \<Rightarrow> mesh_node" where
  "initiate_consensus E target evidence s =
     (if is_on_cooldown (env_now E) (mn_peers s) target then s
      else broadcast_pbft_stage E ''PRE_PREPARE'' target evidence
             (on_peers (set_cooldown (env_now E) target) s))"


section \<open>Peer exchange\<close>

definition pex_list :: "mesh_env \<Rightarrow> mesh_node \<Rightarrow> (node_id \<times> string \<times> int) list" where
  "pex_list E s = map (\<lambda>e. (pe_node_id e, pe_ip e, pe_tcp_port e)) (get_all_peers (env_ord E) (mn_peers s))"

text \<open>Adding a listed peer: whether it is new, and the state.\<close>

definition add_listed :: "mesh_env \<Rightarrow> (node_id \<times> string \<times> int) \<Rightarrow> mesh_node \<Rightarrow> bool \<times> mesh_node" where
  "add_listed E x s =
     (let (pid, pip, pport) = x; (is_new, pm) = add_peer (env_now E) pid pip pport 0 [] (mn_peers s)
      in (is_new, s\<lparr>mn_peers := pm\<rparr>))"

definition perform_pex_handshake :: "mesh_env \<Rightarrow> string \<Rightarrow> int \<Rightarrow> node_id \<Rightarrow> mesh_node \<Rightarrow> bool \<times> mesh_node" where
  "perform_pex_handshake E ip port expected s =
     (if expected \<noteq> [] \<and> pm_has_peer (mn_peers s) expected
         \<and> pe_ip (get_peer (mn_peers s) expected) \<noteq> ip \<and> pe_ip (get_peer (mn_peers s) expected) \<noteq> []
      then (False, s)
      else if inet_pton4 ip = None then (False, s)
      else case env_pex E ip port (pex_message (mn_node_id s) (pex_list E s)) of
        None \<Rightarrow> (False, s)
      | Some resp \<Rightarrow>
          let tokens = split_string (c_string resp) (CHR ''|'') in
          if length tokens < 4 \<or> tokens ! 0 \<noteq> ''PEX'' then (False, s)
          else (True, fold (\<lambda>x s. snd (add_listed E x s)) (pex_peers (mn_node_id s) (tokens ! 3)) s))"

definition accept_listed :: "mesh_env \<Rightarrow> (node_id \<times> string \<times> int) \<Rightarrow> mesh_node \<Rightarrow> mesh_node" where
  "accept_listed E x s =
     (let (is_new, s) = add_listed E x s; (pid, pip, pport) = x
      in if is_new then snd (perform_pex_handshake E pip pport pid s) else s)"

text \<open>One accepted connection of \<open>tcp_listener_loop\<close>.\<close>

definition process_pex :: "mesh_env \<Rightarrow> string \<Rightarrow> mesh_node \<Rightarrow> mesh_node" where
  "process_pex E buf s =
     (let tokens = split_string (c_string buf) (CHR ''|'') in
      if length tokens \<ge> 4 \<and> tokens ! 0 = ''PEX''
      then let s = emit (PexReply (pex_message (mn_node_id s) (pex_list E s))) s
           in fold (accept_listed E) (pex_peers (mn_node_id s) (tokens ! 3)) s
      else s)"

text \<open>The gate of the accept loop: the start of the window and the accepts in it, before and after;
  \<open>None\<close> if the loop waits.\<close>

definition MAX_ACCEPT_RATE :: nat where "MAX_ACCEPT_RATE = 20"

definition accept_gate :: "time \<Rightarrow> time \<times> nat \<Rightarrow> (time \<times> nat) option" where
  "accept_gate now w =
     (let (start, count) = (if dsecs (now - fst w) \<ge> 1 then (now, 0) else w)
      in if count \<ge> MAX_ACCEPT_RATE then None else Some (start, count + 1))"


section \<open>Discovery\<close>

definition register_confirmed :: "mesh_env \<Rightarrow> node_id \<Rightarrow> pem \<Rightarrow> mesh_node \<Rightarrow> mesh_node" where
  "register_confirmed E peer_id pem s =
     on_pbft (\<lambda>p. increment_peers (register_peer_key (env_ssl E) peer_id pem p)) s"

definition trust_cert :: "mesh_env \<Rightarrow> beacon \<Rightarrow> mesh_node \<Rightarrow> mesh_node" where
  "trust_cert E b s =
     (if bc_has_cert b \<and> bc_cert_b64 b \<noteq> [] \<and> env_has_transport E
      then let cert = base64_decode_legacy (bc_cert_b64 b)
           in if cert \<noteq> [] then emit (TrustCert cert) s else s
      else s)"

text \<open>What follows for a peer that is new or confirmed on both paths.\<close>

definition welcome_peer :: "mesh_env \<Rightarrow> beacon \<Rightarrow> string \<Rightarrow> bool \<Rightarrow> mesh_node \<Rightarrow> mesh_node" where
  "welcome_peer E b ip dual s =
     (let peer_id = bc_peer_id b;
          s = (if dual \<and> \<not> has_peer (mn_pbft s) peer_id
               then trust_cert E b (register_confirmed E peer_id (bc_pem b) s) else s);
          s = (if env_has_enforcer E then emit (EnforcerIp peer_id ip) s else s);
          s = (if env_has_enforcer E \<and> bc_tcp_port b > 0 then emit (EnforcerPort peer_id (bc_tcp_port b)) s else s);
          s = (if pm_has_peer (mn_peers s) peer_id
               then snd (perform_pex_handshake E ip (bc_tcp_port b) peer_id s) else s)
      in if bc_tls_port b > 0 \<and> env_has_transport E
         then s\<lparr>mn_tls_queue := mn_tls_queue s @ [\<lparr>tt_peer_id = peer_id, tt_ip = ip, tt_port = bc_tls_port b\<rparr>]\<rparr>
         else s)"

definition refresh_peer :: "mesh_env \<Rightarrow> beacon \<Rightarrow> string \<Rightarrow> mesh_node \<Rightarrow> mesh_node" where
  "refresh_peer E b ip s =
     (let existing = get_peer (mn_peers s) (bc_peer_id b) in
      if bc_pem b \<noteq> [] \<and> pe_public_key_pem existing \<noteq> [] \<and> pe_public_key_pem existing \<noteq> bc_pem b then s
      else on_peers (\<lambda>pm. snd (update_peer_heartbeat (env_now E) (bc_peer_id b) ip (bc_tcp_port b) (bc_tls_port b) (bc_pem b) pm)) s)"

text \<open>\<open>process_discovery_beacon\<close> behind the checks of \<open>read_beacon\<close>.\<close>

definition accept_beacon :: "mesh_env \<Rightarrow> beacon \<Rightarrow> string \<Rightarrow> mesh_node \<Rightarrow> mesh_node" where
  "accept_beacon E b ip s =
     (let peer_id = bc_peer_id b; fpr = bc_fingerprint b in
      if bc_has_fingerprint b \<and> fpr \<noteq> [] \<and> \<not> verify_tls_cert (mn_peers s) peer_id fpr then s
      else
        let s = (if bc_has_fingerprint b \<and> fpr \<noteq> []
                 then on_peers (pin_tls_fingerprint (env_now E) peer_id fpr) s else s);
            (is_new, pm) = add_peer (env_now E) peer_id ip (bc_tcp_port b) (bc_tls_port b) (bc_pem b) (mn_peers s);
            (confirm, pm) = confirm_path peer_id PATH_BEACON (bc_pem b) pm;
            s = s\<lparr>mn_peers := pm\<rparr>
        in if key_mismatch confirm then s
           else
             let s = (if \<not> is_new then refresh_peer E b ip s else s)
             in if is_new \<or> dual_confirmed confirm
                then welcome_peer E b ip (dual_confirmed confirm) s else s)"

text \<open>The first token is read before the number of tokens is known; a datagram without any token
  makes that access undefined, which is \<open>None\<close>.\<close>

definition process_discovery_beacon :: "mesh_env \<Rightarrow> string \<Rightarrow> string \<Rightarrow> mesh_node \<Rightarrow> mesh_node option" where
  "process_discovery_beacon E msg ip s =
     (let tokens = split_string msg (CHR ''|'') in
      if tokens = [] then None
      else if tokens ! 0 \<noteq> ''DISCOVERY'' then Some s
      else case read_beacon (env_ssl E) (mn_node_id s) (now_us E) tokens of
             None \<Rightarrow> Some s
           | Some b \<Rightarrow> Some (accept_beacon E b ip s))"


section \<open>Telemetry\<close>

definition telemetry_rejected :: "mesh_env \<Rightarrow> node_id \<Rightarrow> string \<Rightarrow> string \<Rightarrow> mesh_node \<Rightarrow> bool" where
  "telemetry_rejected E peer_id b64_sig json s =
     (if b64_sig = [] then False
      else
        let peer_pem = get_peer_key (mn_peers s) peer_id in
        if peer_pem = [] then True
        else case get_pubkey_from_pem (env_ssl E) peer_pem of
               None \<Rightarrow> False
             | Some k \<Rightarrow>
                 let raw_sig = base64_decode_legacy b64_sig
                 in raw_sig \<noteq> [] \<and> \<not> verify_signature (env_ssl E) (Some k) (telemetry_blob peer_id json) raw_sig)"

definition process_telemetry_gossip :: "mesh_env \<Rightarrow> string \<Rightarrow> mesh_node \<Rightarrow> mesh_node" where
  "process_telemetry_gossip E msg s =
     (case telemetry_fields (mn_node_id s) msg of
        None \<Rightarrow> s
      | Some (peer_id, b64_sig, json) \<Rightarrow>
          if telemetry_rejected E peer_id b64_sig json s then s
          else push_telemetry E json (on_peers (set_peer_telemetry peer_id json) s))"

text \<open>A datagram on the discovery port.\<close>

definition discovery_datagram :: "mesh_env \<Rightarrow> string \<Rightarrow> string \<Rightarrow> mesh_node \<Rightarrow> mesh_node option" where
  "discovery_datagram E buf ip s =
     (if buf = [] then Some s
      else
        let (ok, pm) = pm_check_rate_limit (env_ip_ord E) (env_now E) ip (mn_peers s);
            s = s\<lparr>mn_peers := pm\<rparr>; dmsg = c_string buf
        in if \<not> ok then Some s
         else if starts_with ''TELEMETRY|'' dmsg then Some (process_telemetry_gossip E dmsg s)
         else process_discovery_beacon E dmsg ip s)"


section \<open>Messages on the consensus port\<close>

definition handle_announce :: "mesh_env \<Rightarrow> string list \<Rightarrow> string \<Rightarrow> mesh_node \<Rightarrow> mesh_node" where
  "handle_announce E tokens ip s =
     (case read_announce (env_ssl E) (mn_node_id s) tokens of
        None \<Rightarrow> s
      | Some (peer_id, pem) \<Rightarrow>
          let is_new_peer = \<not> is_known_ip (mn_peers s) peer_id;
              pm = add_known_ip peer_id (mn_peers s);
              pm = snd (add_peer (env_now E) peer_id ip 0 0 pem pm);
              (confirm, pm) = confirm_path peer_id PATH_ANNOUNCE pem pm;
              s = s\<lparr>mn_peers := pm\<rparr>
          in if key_mismatch confirm then s
             else
               let s = (if dual_confirmed confirm \<and> \<not> has_peer (mn_pbft s) peer_id
                        then register_confirmed E peer_id pem s else s);
                   s = (if env_has_enforcer E then emit (EnforcerIp peer_id ip) s else s)
               in if \<not> is_new_peer
                  then if dsecs (env_now E - mn_last_announce_time s) \<ge> 2
                       then announce_identity E (s\<lparr>mn_last_announce_time := env_now E\<rparr>) else s
                  else announce_identity E s)"

definition handle_vote :: "mesh_env \<Rightarrow> string list \<Rightarrow> mesh_node \<Rightarrow> mesh_node" where
  "handle_vote E tokens s =
     (case read_vote (mn_max_evidence_size s) tokens of
        None \<Rightarrow> s
      | Some msg \<Rightarrow>
          if sender_id msg = mn_node_id s then s
          else
            let s = (if target_id msg = mn_node_id s then s\<lparr>mn_last_targeted_at := env_now E\<rparr> else s);
                vote = cast_vote E msg s;
                next_stage = fst vote; s' = snd vote
            in if next_stage = PREPARE
               then broadcast_pbft_stage E ''PREPARE'' (target_id msg) (evidence_json msg) s'
               else if next_stage = COMMIT
               then broadcast_pbft_stage E ''COMMIT'' (target_id msg) (evidence_json msg)
                      (push_telemetry E (spike_json (target_id msg) (quorum_size (mn_pbft s')))
                        (journal_event E ''COMMIT'' (target_id msg) (evidence_json msg) s'))
               else if next_stage = EXECUTED then executed_by_peer E msg s'
               else s')"

definition process_message :: "mesh_env \<Rightarrow> string \<Rightarrow> string \<Rightarrow> mesh_node \<Rightarrow> mesh_node" where
  "process_message E msg ip s =
     (let (ok, pm) = pm_check_rate_limit (env_ip_ord E) (env_now E) ip (mn_peers s);
          s = s\<lparr>mn_peers := pm\<rparr>
      in if \<not> ok then s
         else if \<not> validate_message msg then s
         else
           let tokens = split_string msg (CHR ''|'') in
           if length tokens < 3 then s
           else if tokens ! 0 = ''ANNOUNCE'' then handle_announce E tokens ip s
           else if tokens ! 0 = ''VOTE'' \<and> length tokens \<ge> 9 then handle_vote E tokens s
           else s)"


section \<open>TLS connections\<close>

definition connect_tls_to_peer :: "mesh_env \<Rightarrow> node_id \<Rightarrow> string \<Rightarrow> int \<Rightarrow> mesh_node \<Rightarrow> bool \<times> mesh_node" where
  "connect_tls_to_peer E peer_id ip port s =
     (if \<not> env_has_transport E then (False, s)
      else if get_peer_tls_fd (mn_peers s) peer_id \<noteq> None then (True, s)
      else let fd = env_tls_connect E ip (port mod 65536) in
           if fd < 0 then (False, s) else (True, on_peers (set_peer_tls_fd peer_id fd) s))"

definition disconnect_tls_peer :: "mesh_env \<Rightarrow> node_id \<Rightarrow> mesh_node \<Rightarrow> mesh_node" where
  "disconnect_tls_peer E peer_id s =
     (case get_peer_tls_fd (mn_peers s) peer_id of
        None \<Rightarrow> s
      | Some fd \<Rightarrow> on_peers (set_peer_tls_fd peer_id (-1))
                     (if env_has_transport E then emit (TlsClose fd) s else s))"

definition tls_worker_step :: "mesh_env \<Rightarrow> mesh_node \<Rightarrow> mesh_node" where
  "tls_worker_step E s =
     (case mn_tls_queue s of
        [] \<Rightarrow> s
      | task # rest \<Rightarrow>
          snd (connect_tls_to_peer E (tt_peer_id task) (tt_ip task) (tt_port task) (s\<lparr>mn_tls_queue := rest\<rparr>)))"

text \<open>One accepted TLS connection: its descriptor and, if known, whether the certificate was
  verified, and the address and port of the other end.\<close>

definition tls_accept :: "mesh_env \<Rightarrow> int \<Rightarrow> (bool \<times> string \<times> int) option \<Rightarrow> mesh_node \<Rightarrow> mesh_node" where
  "tls_accept E fd conn_info s =
     (let candidates = (case conn_info of
            Some (True, ip, port) \<Rightarrow>
              filter (\<lambda>e. pe_ip e = ip \<and> pe_tls_port e = port) (get_all_peers (env_ord E) (mn_peers s))
          | _ \<Rightarrow> [])
      in case candidates of
           [] \<Rightarrow> emit (TlsClose fd) s
         | entry # _ \<Rightarrow>
             let s = (case get_peer_tls_fd (mn_peers s) (pe_node_id entry) of
                        Some old_fd \<Rightarrow> emit (TlsClose old_fd) s | None \<Rightarrow> s)
             in on_peers (set_peer_tls_fd (pe_node_id entry) fd) s)"


section \<open>Liveness and maintenance\<close>

definition prune_one :: "mesh_env \<Rightarrow> node_id \<Rightarrow> mesh_node \<Rightarrow> mesh_node" where
  "prune_one E peer_id s =
     (let s = (case get_peer_tls_fd (mn_peers s) peer_id of
                 Some fd \<Rightarrow> if env_has_transport E then emit (TlsClose fd) s else s | None \<Rightarrow> s);
          s = on_peers (remove_peer peer_id) s
      in if \<not> is_peer_pre_provisioned (mn_peers s) peer_id then on_pbft (prune_peer peer_id) s else s)"

definition prune_stale_peers :: "mesh_env \<Rightarrow> mesh_node \<Rightarrow> mesh_node" where
  "prune_stale_peers E s = fold (prune_one E) (get_stale_peers (env_ord E) (env_now E) (mn_peers s)) s"

definition check_stalled :: "mesh_env \<Rightarrow> node_id \<Rightarrow> mesh_node \<Rightarrow> mesh_node" where
  "check_stalled E peer_id s =
     (if needs_view_change (env_ssl E) (env_now E) ''{\"liveness\":\"check\"}'' peer_id (mn_pbft s)
      then on_pbft advance_view s else s)"

text \<open>The body of \<open>liveness_monitor\<close> once the heartbeat interval is over.\<close>

definition liveness_tick :: "mesh_env \<Rightarrow> mesh_node \<Rightarrow> mesh_node" where
  "liveness_tick E s =
     (let s = prune_stale_peers E s
      in fold (check_stalled E) (get_all_peer_ids (env_ord E) (mn_peers s)) s)"

text \<open>One turn of \<open>discovery_beacon_loop\<close>; \<open>ord\<close> lists the drained bans.\<close>

definition beacon_tick :: "mesh_env \<Rightarrow> node_id list \<Rightarrow> mesh_node \<Rightarrow> mesh_node" where
  "beacon_tick E ord s =
     (let (bans, p) = drain_recent_bans (mn_pbft s);
          s = s\<lparr>mn_pbft := p\<rparr>;
          s = fold (\<lambda>n s. snd (node_propose_ban E n ''local_auto_ban'' s)) (filter (\<lambda>n. n \<in> bans) ord) s
      in send_discovery_beacon E s)"

definition is_targeted_recently :: "time \<Rightarrow> mesh_node \<Rightarrow> bool" where
  "is_targeted_recently now s =
     (if mn_last_targeted_at s = 0 then False else dsecs (now - mn_last_targeted_at s) < 12)"

definition set_seed_peers :: "(string \<Rightarrow> nat list option) \<Rightarrow> (string \<times> int) list \<Rightarrow> mesh_node \<Rightarrow> mesh_node" where
  "set_seed_peers lookup seeds s =
     s\<lparr>mn_seed_peers := mn_seed_peers s
         @ List.map_filter (\<lambda>(host, port). let ip = resolve_host lookup host in
             if inet_pton4 ip \<noteq> None then Some (ip, port) else None) seeds\<rparr>"

definition node_unpin_peer_key :: "node_id \<Rightarrow> mesh_node \<Rightarrow> mesh_node" where
  "node_unpin_peer_key peer_id s =
     (if \<not> pm_has_peer (mn_peers s) peer_id then s else on_peers (unpin_peer_key peer_id) s)"

definition node_peer_count :: "mesh_node \<Rightarrow> int" where
  "node_peer_count s = pm_peer_count (mn_peers s) + 1"

definition get_mesh_telemetry :: "node_id list \<Rightarrow> mesh_node \<Rightarrow> string" where
  "get_mesh_telemetry ord s = get_all_telemetry ord (mn_peers s)"


section \<open>Construction\<close>

text \<open>\<open>NEURO_PEER_KEYS\<close>: the peers and keys it names.\<close>

definition peer_key_entry :: "string \<Rightarrow> (node_id \<times> pem) option" where
  "peer_key_entry entry =
     (case str_find '':'' entry of
        None \<Rightarrow> None
      | Some colon \<Rightarrow>
          let pem = drop (colon + 1) entry in
          Some (take colon entry,
            if \<not> str_contains ''-----BEGIN'' pem
            then case base64_decode pem of Inr k \<Rightarrow> k | Inl _ \<Rightarrow> pem
            else pem))"

definition peer_keys :: "string option \<Rightarrow> (node_id \<times> pem) list" where
  "peer_keys env = (case env of None \<Rightarrow> [] | Some e \<Rightarrow> List.map_filter peer_key_entry (split_string e (CHR '','')))"

definition provision_key :: "openssl \<Rightarrow> node_id \<times> pem \<Rightarrow> mesh_node \<Rightarrow> mesh_node" where
  "provision_key L x s =
     on_pbft (\<lambda>p. increment_peers (register_peer_key L (fst x) (snd x) p))
       (on_peers (pre_provision_peer_key (fst x) (snd x)) s)"

text \<open>The constructor after the key store, the certificate and the sockets have been set up: the
  private key, the key the consensus machine signs with, the certificate file read back and the
  descriptors are arguments.\<close>

definition new_mesh_node ::
  "openssl \<Rightarrow> node_id \<Rightarrow> pkey \<Rightarrow> pkey \<Rightarrow> pem option \<Rightarrow> int \<times> int \<times> int \<times> int \<Rightarrow> journal \<Rightarrow>
   (string \<Rightarrow> string option) \<Rightarrow> mesh_node" where
  "new_mesh_node L node_id key pbft_key cert fds journal getenv =
     (let pem = get_pem_from_pubkey L key;
          p = new_pbft L (getenv ''NEURO_PBFT_RATE_WINDOW'') (getenv ''NEURO_PBFT_RATE_MAX'') 1;
          p = set_private_key (Some pbft_key) (set_my_identity node_id (register_peer_key L node_id pem p));
          (b, d, d6, mc) = fds;
          s = \<lparr>mn_node_id = node_id, mn_tcp_port = 0, mn_tls_port = 0, mn_broadcast_fd = b, mn_discovery_fd = d,
               mn_discovery6_fd = d6, mn_discovery_mcast_fd = mc, mn_private_key = key, mn_public_key_pem = pem,
               mn_public_key_b64 = base64_encode pem, mn_pbft = p, mn_sequence_number = 0,
               mn_tls_cert_fingerprint = (case cert of None \<Rightarrow> [] | Some c \<Rightarrow> sha256_hex L c),
               mn_tls_cert_pem = (case cert of None \<Rightarrow> [] | Some c \<Rightarrow> c),
               mn_last_announce_time = 0, mn_last_targeted_at = 0, mn_proof_chain = new_proof_chain node_id,
               mn_journal = journal,
               mn_webhook_url = (case getenv ''NEURO_WEBHOOK_URL'' of None \<Rightarrow> [] | Some u \<Rightarrow> u),
               mn_max_evidence_size = max_evidence_size (getenv ''NEURO_PBFT_EVIDENCE_MAX''),
               mn_peers = new_peer_manager, mn_seed_peers = [], mn_tls_queue = [], mn_out = []\<rparr>
      in fold (provision_key L) (peer_keys (getenv ''NEURO_PEER_KEYS'')) s)"

text \<open>The webhook address as it is logged: credentials are replaced. An at-sign before the scheme
  separator makes the length of the replaced part wrap around, so that the rest of the text goes.\<close>

definition redact_url :: "string \<Rightarrow> string" where
  "redact_url url =
     (case str_find ''://'' url of
        None \<Rightarrow> url
      | Some scheme_end \<Rightarrow>
          (case find_from (CHR ''@'') 0 url of
             None \<Rightarrow> url
           | Some at_pos \<Rightarrow>
               if (case find_from (CHR ''/'') (scheme_end + 3) url of None \<Rightarrow> True | Some path_start \<Rightarrow> at_pos < path_start)
               then take (scheme_end + 3) url @ ''***:***''
                    @ (if at_pos < scheme_end then [] else drop at_pos url)
               else url))"


section \<open>Events\<close>

text \<open>What the threads of the node and its owner do, one handler at a time.\<close>

datatype mesh_event =
    ConsensusDatagram string string        \<comment> \<open>address, bytes\<close>
  | DiscoveryDatagram string string
  | PexRequest string
  | TlsAccepted int "(bool \<times> string \<times> int) option"
  | TlsWork
  | LivenessTick
  | BeaconTick "node_id list"
  | AnnounceIdentity
  | InitiateConsensus node_id string
  | ProposeNodeBan node_id string
  | GossipTelemetry string
  | GossipEvent string
  | DisconnectTls node_id
  | UnpinPeerKey node_id
  | PortsBound int int

definition consensus_datagram :: "mesh_env \<Rightarrow> string \<Rightarrow> string \<Rightarrow> mesh_node \<Rightarrow> mesh_node" where
  "consensus_datagram E buf ip s = (if buf = [] then s else process_message E (c_string buf) ip s)"

fun mesh_step :: "mesh_env \<Rightarrow> mesh_event \<Rightarrow> mesh_node \<Rightarrow> mesh_node option" where
  "mesh_step E (ConsensusDatagram ip buf) s = Some (consensus_datagram E buf ip s)"
| "mesh_step E (DiscoveryDatagram ip buf) s = discovery_datagram E buf ip s"
| "mesh_step E (PexRequest buf) s = Some (process_pex E buf s)"
| "mesh_step E (TlsAccepted fd info) s = Some (tls_accept E fd info s)"
| "mesh_step E TlsWork s = Some (tls_worker_step E s)"
| "mesh_step E LivenessTick s = Some (liveness_tick E s)"
| "mesh_step E (BeaconTick ord) s = Some (beacon_tick E ord s)"
| "mesh_step E AnnounceIdentity s = Some (announce_identity E s)"
| "mesh_step E (InitiateConsensus target evidence) s = Some (initiate_consensus E target evidence s)"
| "mesh_step E (ProposeNodeBan target reason) s = Some (snd (node_propose_ban E target reason s))"
| "mesh_step E (GossipTelemetry json) s = Some (gossip_telemetry E json s)"
| "mesh_step E (GossipEvent json) s = Some (gossip_event_json E json s)"
| "mesh_step E (DisconnectTls peer_id) s = Some (disconnect_tls_peer E peer_id s)"
| "mesh_step E (UnpinPeerKey peer_id) s = Some (node_unpin_peer_key peer_id s)"
| "mesh_step E (PortsBound tcp tls) s = Some (s\<lparr>mn_tcp_port := tcp, mn_tls_port := tls\<rparr>)"

fun mesh_run :: "(mesh_env \<times> mesh_event) list \<Rightarrow> mesh_node \<Rightarrow> mesh_node option" where
  "mesh_run [] s = Some s"
| "mesh_run ((E, ev) # evs) s = (case mesh_step E ev s of None \<Rightarrow> None | Some s' \<Rightarrow> mesh_run evs s')"

end
