(* ===== verification/Mesh_Demo.thy ===== *)
theory Mesh_Demo
  imports MeshNode PBFT_Demo
begin

text \<open>
  States and messages on which the statements about the node are instantiated: an OpenSSL instance
  with short digests and signatures, a fresh node, a node whose round lacks one commit vote, and a
  node that knows a peer from its beacon.
\<close>

definition tiny_ssl :: openssl where
  "tiny_ssl = \<lparr>evp_sha256 = (\<lambda>x. Some (take 5 x)), evp_digest_sign = (\<lambda>k d. Some ''s''),
     evp_digest_verify = (\<lambda>k d sig. sig = ''s''), pem_write_bio_pubkey = Some, pem_read_bio_pubkey = Some\<rparr>"

definition demo_env :: mesh_env where
  "demo_env = \<lparr>env_ssl = tiny_ssl, env_evict = evict_sorted, env_now = 0, env_wall_ms = 0, env_ord = [''B''],
     env_ip_ord = [], env_io = good_io, env_has_enforcer = False, env_has_mitigation = True, env_has_bridge = False,
     env_has_transport = False, env_tls_send = (\<lambda>_ _. True), env_tls_connect = (\<lambda>_ _. -1),
     env_pex = (\<lambda>_ _ _. None), env_export_ok = False\<rparr>"

definition demo_node :: mesh_node where
  "demo_node = new_mesh_node tiny_ssl ''A'' ''a'' ''a'' None (-1, -1, -1, -1) (new_journal None True None) (\<lambda>_. None)"

text \<open>Four members, a round in its commit stage with the votes of \<open>A\<close> and \<open>B\<close>.\<close>

definition brink_pbft :: pbft where
  "brink_pbft =
     (let p = fold (\<lambda>n. register_peer_key tiny_ssl n n) [''B'', ''C'', ''D''] (mn_pbft demo_node);
          p = p\<lparr>m_total_nodes := 4\<rparr>; key = round_key_of tiny_ssl ''{\"pid\":1}'' ''T''
      in put_round key (default_round\<lparr>round_state := COMMIT, evidence_key := key\<rparr>)
           (set_voters key ''COMMIT'' {''A'', ''B''} p))"

definition brink_node :: mesh_node where
  "brink_node = demo_node\<lparr>mn_pbft := brink_pbft,
     mn_peers := (mn_peers demo_node)\<lparr>m_peers := [''B'' \<mapsto> default_peer\<lparr>pe_node_id := ''B''\<rparr>]\<rparr>\<rparr>"

definition last_vote :: p2p_message where
  "last_vote = \<lparr>stage_str = ''COMMIT'', sender_id = ''C'', target_id = ''T'', evidence_json = ''{\"pid\":1}'',
     signature = ''s'', prev_message_hash = ''h'', sequence_number = 1, msg_view = 0\<rparr>"

definition last_vote_text :: string where
  "last_vote_text = ''VOTE|COMMIT|C|1|0|T|eyJwaWQiOjF9|h|cw==''"

text \<open>A node that has seen a beacon of \<open>B\<close>, and the announcement of \<open>B\<close>.\<close>

definition demo_pem :: pem where
  "demo_pem = ''-----BEGIN PUBLIC KEY-----b''"

definition beacon_seen :: mesh_node where
  "beacon_seen = demo_node\<lparr>mn_peers := (mn_peers demo_node)\<lparr>m_peers := [''B'' \<mapsto> default_peer\<lparr>pe_node_id := ''B'',
     pe_public_key_pem := demo_pem, pe_confirmed_paths := PATH_BEACON\<rparr>]\<rparr>\<rparr>"

definition announce_text :: string where
  "announce_text = ''ANNOUNCE|B|'' @ demo_pem @ ''|cw==''"


section \<open>Evaluation\<close>

lemma last_vote_read:
  "c_string last_vote_text = last_vote_text \<and> validate_message last_vote_text
   \<and> length (split_string last_vote_text (CHR ''|'')) = 9 \<and> split_string last_vote_text (CHR ''|'') ! 0 = ''VOTE''
   \<and> read_vote 4096 (split_string last_vote_text (CHR ''|'')) = Some last_vote"
  by code_simp

lemma last_vote_executes:
  "case verify_message tiny_ssl 0 last_vote brink_pbft of
     (ok, p) \<Rightarrow> ok \<and> fst (advance_state tiny_ssl evict_sorted 0 last_vote p) = EXECUTED"
  by code_simp

lemma announce_read:
  "c_string announce_text = announce_text \<and> validate_message announce_text
   \<and> length (split_string announce_text (CHR ''|'')) = 4 \<and> split_string announce_text (CHR ''|'') ! 0 = ''ANNOUNCE''
   \<and> read_announce tiny_ssl ''A'' (split_string announce_text (CHR ''|'')) = Some (''B'', demo_pem)"
  by code_simp

lemma demo_node_fields:
  "mn_node_id demo_node = ''A'' \<and> mn_max_evidence_size demo_node = 4096 \<and> mn_out demo_node = [] \<and> mn_webhook_url demo_node = []
   \<and> m_registered_peers (mn_pbft demo_node) = {''A''}"
  by code_simp

end
