(* ===== verification/PBFT_Safety.thy ===== *)
theory PBFT_Safety
  imports PBFT_Rounds PBFT_Demo
begin

text \<open>
  What the consensus machine guarantees: quorum intersection and where it stops, the refinement of
  each round by the abstract stage machine, the conditions under which a round executes, the origin
  of every counted vote, permanence and silence of bans, the automatic ban and what triggers it.
\<close>


section \<open>Vocabulary of the statements\<close>

text \<open>A message the three checks of \<open>verify_message\<close> let pass, and a sequence of
  messages that go through \<open>verify_message\<close> one after the other.\<close>

definition acceptable :: "openssl \<Rightarrow> pbft \<Rightarrow> p2p_message \<Rightarrow> bool" where
  "acceptable L s msg \<longleftrightarrow>
     (\<exists>key. m_peer_public_keys s (sender_id msg) = Some key \<and>
            verify_signature L key (signed_blob msg) (signature msg))
     \<and> verify_message_chaining s msg \<and> verify_sequence_continuity s msg"

definition verify_all :: "openssl \<Rightarrow> (time \<times> p2p_message) list \<Rightarrow> pbft \<Rightarrow> pbft" where
  "verify_all L xs s = fold (\<lambda>(now, msg) t. snd (verify_message L now msg t)) xs s"


text \<open>A message whose fields, other than the evidence, came through the wire format.\<close>

definition wire_message :: "p2p_message \<Rightarrow> bool" where
  "wire_message m \<longleftrightarrow> CHR ''|'' \<notin> set (stage_str m) \<and> CHR ''|'' \<notin> set (sender_id m)
     \<and> CHR ''|'' \<notin> set (target_id m) \<and> CHR ''|'' \<notin> set (prev_message_hash m)"


section \<open>Quorums\<close>

text \<open>
  C5. Quorum intersection: in a mesh of \<open>3f+1\<close> nodes any two sets of nodes that reach the
  quorum the code computes share a node outside any given set of at most \<open>f\<close> faulty nodes,
  and the nodes that are not faulty are themselves enough for a quorum.
\<close>

theorem quorum_intersection:
  assumes "finite N" "card N = 3 * f + 1" "F \<subseteq> N" "card F \<le> f"
    and "A \<subseteq> N" "quorum_of (int (card N)) \<le> int (card A)"
    and "B \<subseteq> N" "quorum_of (int (card N)) \<le> int (card B)"
  shows "(\<exists>x \<in> A \<inter> B. x \<notin> F) \<and> quorum_of (int (card N)) \<le> int (card (N - F))"
proof -
  have q: "nat (quorum_of (int (3 * f + 1))) \<le> card X \<longleftrightarrow> quorum_of (int (card N)) \<le> int (card X)"
    for X :: "'a set"
    using assms(2) by (simp add: nat_le_iff)
  have "\<exists>x \<in> A \<inter> B. x \<notin> F"
    using assms by (intro pbft_quorum.common_correct_member [of N f]) (auto simp: q finite_subset)
  moreover have "quorum_of (int (card N)) \<le> int (card (N - F))"
    using pbft_quorum.correct_members_suffice [of N f F] assms(1-4) unfolding q by simp
  ultimately show ?thesis ..
qed

theorem quorum_intersection_witness:
  "\<exists>x \<in> {''A'', ''B'', ''C''} \<inter> {''B'', ''C'', ''D''}. x \<notin> {''C''}"
  using quorum_intersection [of "{''A'', ''B'', ''C'', ''D''}" 1 "{''C''}" "{''A'', ''B'', ''C''}"
      "{''B'', ''C'', ''D''}"]
  by (simp add: quorum_of_def)

text \<open>
  The quorum formula meets the Byzantine intersection bound only for meshes of
  \<open>3f+1\<close> nodes: with \<open>f = (n-1)/3\<close>, two quorums are guaranteed \<open>f+1\<close>
  common members exactly when \<open>n mod 3 = 1\<close>. In the five-node mesh the documentation
  describes, two quorums can have a single faulty node as their only common member, and in a
  six-node mesh two quorums can be disjoint.
\<close>

theorem quorum_overlap_exact:
  "(int k div 3 + 1 \<le> 2 * quorum_of (int (Suc k)) - int (Suc k) \<longleftrightarrow> Suc k mod 3 = 1)
   \<and> quorum_of 5 = int (card {1, 2, 3::nat}) \<and> quorum_of 5 = int (card {3, 4, 5::nat})
   \<and> {1, 2, 3} \<inter> {3, 4, 5} = {3::nat}
   \<and> quorum_of 6 = int (card {1, 2, 3::nat}) \<and> {1, 2, 3} \<inter> {4, 5, 6} = ({} :: nat set)"
proof -
  have "int k div 3 + 1 \<le> 2 * quorum_of (int (Suc k)) - int (Suc k) \<longleftrightarrow> Suc k mod 3 = 1"
    unfolding quorum_of_def by simp presburger
  then show ?thesis by (simp add: quorum_of_def)
qed


section \<open>Rounds\<close>

lemma abs_stage_default [simp]: "round_state default_round = IDLE"
  by (simp add: default_round_def)

lemma abs_stage_cleanup:
  "omap_inv (m_rounds s) \<Longrightarrow>
   abs_stage (cleanup_stale_rounds now s) = (\<lambda>k. if stale_key now s k then IDLE else abs_stage s k)"
  by (simp add: abs_stage_def cleanup_lookup fun_eq_iff)

lemma abs_stage_cong: "m_rounds s = m_rounds s' \<Longrightarrow> abs_stage s = abs_stage s'"
  by (simp add: abs_stage_def round_of_def fun_eq_iff)

text \<open>
  C2. Refinement: on the abstraction that keeps the stage of every round, a call of
  \<open>advance_state\<close> drops the rounds that are past their time to live and then either leaves
  every stage as it is and returns \<open>IDLE\<close>, or makes exactly one step of the abstract stage
  machine in the round of the message and returns the stage reached. A round never skips a stage
  and never moves back.
\<close>

theorem advance_state_refines:
  assumes "pbft_inv s" and "advance_state L evict now msg s = (st, s')"
  shows "let key = round_key_of L (evidence_json msg) (target_id msg);
             clean = (\<lambda>k. if stale_key now s k then IDLE else abs_stage s k)
         in st = IDLE \<and> (abs_stage s' = abs_stage s \<or> abs_stage s' = clean)
            \<or> stage_step (clean key) st \<and> abs_stage s' = clean(key := st)"
  using assms(2)
proof (cases rule: advance_state_cases)
  case ignored
  then show ?thesis by simp
next
  case (dropped s1)
  then have "abs_stage s' = abs_stage (cleanup_stale_rounds now s)"
    by (intro abs_stage_cong) auto
  with dropped assms(1) show ?thesis
    by (simp add: abs_stage_cleanup pbft_inv_def rounds_inv_def)
next
  case (voted s2)
  have inv: "pbft_inv (cleanup_stale_rounds now s)" using assms(1) by (rule pbft_inv_cleanup)
  then have "rounds_inv (m_rounds s2)" using voted(2) by (simp add: pbft_inv_def)
  from register_vote_stage [OF voted(1) [symmetric] this]
  show ?thesis
    using abs_stage_cong [OF voted(2)] assms(1)
    by (auto simp: Let_def abs_stage_cleanup pbft_inv_def rounds_inv_def)
qed


theorem advance_state_refines_witness:
  "let key = round_key_of demo_ssl ''e'' ''X''; s' = snd (demo_advance (demo_msg ''COMMIT'' ''C'' 2) demo_brink)
   in fst (demo_advance (demo_msg ''COMMIT'' ''C'' 2) demo_brink) = EXECUTED \<and> abs_stage s' key = EXECUTED"
  using advance_state_refines [of demo_brink demo_ssl evict_sorted 0 "demo_msg ''COMMIT'' ''C'' 2"
      "fst (demo_advance (demo_msg ''COMMIT'' ''C'' 2) demo_brink)"
      "snd (demo_advance (demo_msg ''COMMIT'' ''C'' 2) demo_brink)"] demo_executes
  by (simp add: Let_def prod_eq_iff)

lemma count_vote_executed:
  assumes "count_vote now key msg h s = (EXECUTED, s')"
  shows "stage_str msg = ''COMMIT''" "abs_stage s key = COMMIT" "round_view (round_of s key) = msg_view msg"
    "quorum_size s \<le> int (card (voters s key ''COMMIT''))" "verify_quorum_intersection s key"
    "m_vote_registry s' = m_vote_registry s" "m_peer_public_keys s' = m_peer_public_keys s"
    "quorum_size s' = quorum_size s"
  using assms by (auto simp: count_vote_def Let_def abs_stage_def split: if_splits)

lemma register_vote_executed:
  assumes "register_vote now key msg h s = (EXECUTED, s')"
  shows "count_vote now key msg h
           (set_voters key (stage_str msg) (insert (sender_id msg) (voters s key (stage_str msg))) s)
         = (EXECUTED, s')" "sender_id msg \<notin> voters s key (stage_str msg)"
  using assms by (auto simp: register_vote_def Let_def split: if_splits)

text \<open>
  C1. A round executes only on a commit quorum: when \<open>advance_state\<close> returns
  \<open>EXECUTED\<close>, the message is a \<open>COMMIT\<close> vote, in the view of the round, of a peer that
  has a registered key, is not banned and had not voted before; the round was in
  \<open>COMMIT\<close>; the commit voters, all of them registered peers and the sender among them, reach
  the quorum; and if the prepare voters still reach the quorum, the peers that voted in both stages
  do too.
\<close>

theorem executed_needs_quorum:
  assumes "evicts_half evict" "pbft_inv s" and "advance_state L evict now msg s = (EXECUTED, s')"
  shows "let key = round_key_of L (evidence_json msg) (target_id msg);
             C = voters s' key ''COMMIT''; P = voters s' key ''PREPARE''
         in stage_str msg = ''COMMIT'' \<and> abs_stage s key = COMMIT
            \<and> round_view (round_of s key) = msg_view msg
            \<and> sender_id msg \<notin> m_banned_peers s \<and> sender_id msg \<in> dom (m_peer_public_keys s)
            \<and> sender_id msg \<notin> voters s key ''COMMIT'' \<and> sender_id msg \<in> C
            \<and> C \<subseteq> dom (m_peer_public_keys s') \<and> quorum_size s' \<le> int (card C)
            \<and> (quorum_size s' \<le> int (card P) \<longrightarrow> quorum_size s' \<le> int (card (P \<inter> C)))"
  using assms(3)
proof (cases rule: advance_state_cases)
  case (voted s2)
  let ?key = "round_key_of L (evidence_json msg) (target_id msg)"
  let ?s3 = "set_voters ?key (stage_str msg) (insert (sender_id msg) (voters s2 ?key (stage_str msg))) s2"
  have inv: "omap_inv (m_rounds s)" using assms(2) by (simp add: pbft_inv_def rounds_inv_def)
  note rv = register_vote_executed [OF voted(1) [symmetric]]
  note cv = count_vote_executed [OF rv(1)]
  have stage: "stage_str msg = ''COMMIT''" by (rule cv(1))
  have "abs_stage (cleanup_stale_rounds now s) ?key = COMMIT"
    using cv(2) by (simp add: abs_stage_def round_of_cong [OF voted(2)])
  then have live: "\<not> stale_key now s ?key" "abs_stage s ?key = COMMIT"
    by (auto simp: abs_stage_cleanup [OF inv] split: if_splits)
  have old: "voters s2 ?key = voters s ?key" "round_of s2 ?key = round_of s ?key"
    by (simp_all add: voted(3) round_of_cong [OF voted(2)] cleanup_lookup [OF inv] live fun_eq_iff)
  have C: "voters s' ?key ''COMMIT'' = insert (sender_id msg) (voters s ?key ''COMMIT'')"
    and P: "voters s' ?key ''PREPARE'' = voters ?s3 ?key ''PREPARE''"
    unfolding cv(6) using stage by (simp_all add: old)
  have "pbft_inv s'" using pbft_inv_advance_state [OF assms(1,2), of L now msg] assms(3) by simp
  then have "voters s' ?key ''COMMIT'' \<subseteq> dom (m_peer_public_keys s')" by (rule pbft_inv_voters)
  moreover have "quorum_size s' \<le> int (card (voters s' ?key ''PREPARE'' \<inter> voters s' ?key ''COMMIT''))"
    if "quorum_size s' \<le> int (card (voters s' ?key ''PREPARE''))"
    using verify_quorum_intersection_voters [OF cv(5)] that stage unfolding cv(6,8) by auto
  ultimately show ?thesis
    using cv(3,4) voted(7,8) rv(2) live stage C unfolding Let_def cv(8) by (auto simp: old cv(6))
qed simp_all


theorem executed_needs_quorum_witness:
  "let key = round_key_of demo_ssl ''e'' ''X''; s' = snd (demo_advance (demo_msg ''COMMIT'' ''C'' 2) demo_brink)
   in abs_stage demo_brink key = COMMIT \<and> ''C'' \<in> voters s' key ''COMMIT''
      \<and> quorum_size s' \<le> int (card (voters s' key ''COMMIT''))"
  using executed_needs_quorum [OF evicts_half_sorted demo_inv(2), of demo_ssl 0 "demo_msg ''COMMIT'' ''C'' 2"
      "snd (demo_advance (demo_msg ''COMMIT'' ''C'' 2) demo_brink)"] demo_executes
  by (simp add: Let_def prod_eq_iff)


section \<open>Votes\<close>

lemma cleanup_voters: "voters (cleanup_stale_rounds now s) k st \<subseteq> voters s k st"
  by (auto simp: cleanup_stale_rounds_def reg_voters_def cleanup_loop_lookup)

lemma count_vote_voters: "voters (snd (count_vote now key msg h s)) k st \<subseteq> voters s k st"
  by (auto simp: count_vote_def Let_def)

lemma register_vote_voters:
  assumes "v \<in> voters (snd (register_vote now key msg h s)) k st"
  shows "v \<in> voters s k st \<or> v = sender_id msg \<and> k = key \<and> st = stage_str msg"
proof (cases "sender_id msg \<in> voters s key (stage_str msg)")
  case True
  with assms show ?thesis by (auto simp: register_vote_def Let_def split: if_splits)
next
  case False
  then have "v \<in> voters (snd (count_vote now key msg h (set_voters key (stage_str msg)
      (insert (sender_id msg) (voters s key (stage_str msg))) s))) k st"
    using assms by (simp add: register_vote_def Let_def)
  from subsetD [OF count_vote_voters this] show ?thesis by (auto split: if_splits)
qed

lemma advance_state_voters:
  assumes "v \<in> voters (snd (advance_state L evict now msg s)) k st"
  shows "v \<in> voters s k st \<or>
    v = sender_id msg \<and> k = round_key_of L (evidence_json msg) (target_id msg) \<and> st = stage_str msg
      \<and> v \<notin> m_banned_peers s \<and> v \<in> dom (m_peer_public_keys s)"
proof -
  obtain r s' where adv: "advance_state L evict now msg s = (r, s')" by fastforce
  then show ?thesis
  proof (cases rule: advance_state_cases)
    case ignored
    with adv assms show ?thesis by simp
  next
    case (dropped s1)
    then have "voters s' k st \<subseteq> voters s1 k st" using record_failure_voters [of now "sender_id msg" s1 k st] by auto
    moreover have "voters s1 k st \<subseteq> voters s k st" using dropped(3) cleanup_voters [of now s k st] by auto
    ultimately show ?thesis using adv assms by auto
  next
    case (voted s2)
    have "snd (advance_state L evict now msg s) = s'" using adv by simp
    with voted(1) assms register_vote_voters have
      "v \<in> voters s2 k st \<or> v = sender_id msg \<and> k = round_key_of L (evidence_json msg) (target_id msg)
        \<and> st = stage_str msg" by (metis snd_conv)
    then show ?thesis using voted cleanup_voters by fastforce
  qed
qed

lemma verify_message_voters: "voters (snd (verify_message L now msg s)) k st \<subseteq> voters s k st"
  using record_failure_voters
  by (auto simp: verify_message_def record_success_def Let_def split: option.splits)

lemma pbft_apply_voters:
  assumes "v \<in> voters (pbft_apply L evict op s) k st"
  shows "v \<in> voters s k st \<or> (\<exists>now msg. op = AdvanceState now msg \<and> v = sender_id msg
    \<and> k = round_key_of L (evidence_json msg) (target_id msg) \<and> st = stage_str msg
    \<and> v \<notin> m_banned_peers s \<and> v \<in> dom (m_peer_public_keys s))"
proof (cases op)
  case (AdvanceState now msg)
  then show ?thesis using advance_state_voters assms by fastforce
next
  case (VerifyMessage now msg)
  then show ?thesis using verify_message_voters [of L now msg s k st] assms by auto
qed (use assms in \<open>auto simp: register_peer_key_def set_my_identity_def set_private_key_def
  set_round_commit_sig_def set_peer_count_def increment_peers_def decrement_peers_def prune_peer_def
  prune_peer_locked_def drain_recent_bans_def ban_peer_local_def ban_peer_locked_def propose_ban_def
  try_increment_peers_def advance_view_def split: if_splits\<close>)

lemma pbft_run_snoc: "pbft_run L evict (ops @ [op]) s = pbft_apply L evict op (pbft_run L evict ops s)"
  by (simp add: pbft_run_def)

text \<open>
  C7. No vote without a message: after any sequence of calls on a fresh machine, every voter
  counted for a round and a stage is a peer with a registered key, and an earlier call of
  \<open>advance_state\<close> carried a message of that peer for that round and that stage, made when the
  peer had a key and was not banned.
\<close>

theorem votes_have_messages:
  assumes "evicts_half evict" and "v \<in> voters (pbft_run L evict ops (new_pbft L rw rm n)) k st"
  shows "v \<in> dom (m_peer_public_keys (pbft_run L evict ops (new_pbft L rw rm n))) \<and>
    (\<exists>before now msg after. ops = before @ AdvanceState now msg # after
      \<and> sender_id msg = v \<and> stage_str msg = st
      \<and> k = round_key_of L (evidence_json msg) (target_id msg)
      \<and> v \<notin> m_banned_peers (pbft_run L evict before (new_pbft L rw rm n))
      \<and> v \<in> dom (m_peer_public_keys (pbft_run L evict before (new_pbft L rw rm n))))"
proof
  show "v \<in> dom (m_peer_public_keys (pbft_run L evict ops (new_pbft L rw rm n)))"
    using pbft_inv_reach [OF assms(1) pbft_reach_run [OF pbft_reach.start]] pbft_inv_voters(2) assms(2)
    by blast
  show "\<exists>before now msg after. ops = before @ AdvanceState now msg # after
      \<and> sender_id msg = v \<and> stage_str msg = st
      \<and> k = round_key_of L (evidence_json msg) (target_id msg)
      \<and> v \<notin> m_banned_peers (pbft_run L evict before (new_pbft L rw rm n))
      \<and> v \<in> dom (m_peer_public_keys (pbft_run L evict before (new_pbft L rw rm n)))"
    using assms(2)
  proof (induction ops rule: rev_induct)
    case Nil
    then show ?case by (simp add: pbft_run_def new_pbft_def reg_voters_def)
  next
    case (snoc op ops)
    from pbft_apply_voters [OF snoc.prems [unfolded pbft_run_snoc]] show ?case
    proof
      assume "v \<in> voters (pbft_run L evict ops (new_pbft L rw rm n)) k st"
      from snoc.IH [OF this] show ?thesis by (metis append.assoc append_Cons)
    qed fastforce
  qed
qed


theorem votes_have_messages_witness:
  "\<exists>before now msg after.
     [RegisterPeerKey ''A'' ''k'', AdvanceState 0 (demo_msg ''PREPARE'' ''A'' 1)] = before @ AdvanceState now msg # after
     \<and> sender_id msg = ''A'' \<and> stage_str msg = ''PREPARE''"
proof -
  have "''A'' \<in> voters (pbft_run demo_ssl evict_sorted
      [RegisterPeerKey ''A'' ''k'', AdvanceState 0 (demo_msg ''PREPARE'' ''A'' 1)]
      (new_pbft demo_ssl None None 4)) (round_key_of demo_ssl ''e'' ''X'') ''PREPARE''"
    by code_simp
  from votes_have_messages [OF evicts_half_sorted this] show ?thesis by blast
qed


section \<open>Bans\<close>

lemma record_failure_banned: "m_banned_peers s \<subseteq> m_banned_peers (record_failure now n s)"
  by (auto simp: record_failure_def prune_peer_locked_def Let_def)

lemma record_success_frame [simp]: "m_banned_peers (record_success n s) = m_banned_peers s"
  by (simp add: record_success_def Let_def)

lemma register_vote_banned [simp]: "m_banned_peers (snd (register_vote now key msg h s)) = m_banned_peers s"
  by (simp add: register_vote_def count_vote_def Let_def)

lemma advance_state_banned: "m_banned_peers s \<subseteq> m_banned_peers (snd (advance_state L evict now msg s))"
proof -
  obtain r s' where adv: "advance_state L evict now msg s = (r, s')" by fastforce
  then show ?thesis
  proof (cases rule: advance_state_cases)
    case (dropped s1)
    then have "m_banned_peers s1 = m_banned_peers s" by auto
    then show ?thesis using adv dropped(2) record_failure_banned [of s1 now "sender_id msg"] by auto
  next
    case (voted s2)
    then show ?thesis using adv register_vote_banned by (metis order_refl snd_conv)
  qed (use adv in simp)
qed

lemma verify_message_banned: "m_banned_peers s \<subseteq> m_banned_peers (snd (verify_message L now msg s))"
  using record_failure_banned [of s now "sender_id msg"]
  by (simp add: verify_message_def split: option.splits)

lemma pbft_apply_banned: "m_banned_peers s \<subseteq> m_banned_peers (pbft_apply L evict op s)"
proof (cases op)
  case (AdvanceState now msg)
  then show ?thesis using advance_state_banned by simp
next
  case (VerifyMessage now msg)
  then show ?thesis using verify_message_banned by simp
qed (auto simp: register_peer_key_def set_my_identity_def set_private_key_def
  set_round_commit_sig_def set_peer_count_def increment_peers_def decrement_peers_def prune_peer_def
  prune_peer_locked_def drain_recent_bans_def ban_peer_local_def ban_peer_locked_def propose_ban_def
  try_increment_peers_def advance_view_def)

lemma pbft_run_banned: "m_banned_peers s \<subseteq> m_banned_peers (pbft_run L evict ops s)"
  by (induction ops rule: rev_induct) (simp_all add: pbft_run_snoc pbft_run_def order_trans [OF _ pbft_apply_banned])

text \<open>
  C8. Bans are permanent and silent: once a peer is banned, no later sequence of calls lifts the
  ban, not even registering its key again, and after any such sequence every message of the peer is
  refused by \<open>verify_message\<close> and ignored by \<open>advance_state\<close> without any change of state.
\<close>

theorem ban_permanent_and_silent:
  assumes "sender_id msg \<in> m_banned_peers s"
  shows "let t = pbft_run L evict ops s in
    sender_id msg \<in> m_banned_peers t \<and> verify_message L now msg t = (False, t)
    \<and> advance_state L evict now msg t = (IDLE, t)"
  using subsetD [OF pbft_run_banned assms] by (simp add: Let_def verify_message_def advance_state_def)


theorem ban_permanent_and_silent_witness:
  "verify_message demo_ssl 5 (demo_msg ''PREPARE'' ''A'' 1)
     (pbft_run demo_ssl evict_sorted [RegisterPeerKey ''A'' ''keyA''] (ban_peer_local ''A'' demo_peers))
   = (False, pbft_run demo_ssl evict_sorted [RegisterPeerKey ''A'' ''keyA''] (ban_peer_local ''A'' demo_peers))"
  using ban_permanent_and_silent [of "demo_msg ''PREPARE'' ''A'' 1" "ban_peer_local ''A'' demo_peers" demo_ssl
      evict_sorted "[RegisterPeerKey ''A'' ''keyA'']" 5]
  by (simp add: Let_def ban_peer_local_def ban_peer_locked_def)



section \<open>Rejected messages and the automatic ban\<close>

lemma verify_message_iff:
  "fst (verify_message L now msg s) \<longleftrightarrow> sender_id msg \<notin> m_banned_peers s \<and> acceptable L s msg"
  by (auto simp: verify_message_def acceptable_def split: option.splits)

lemma verify_message_rejected:
  "sender_id msg \<notin> m_banned_peers s \<Longrightarrow> sender_id msg \<in> dom (m_peer_public_keys s) \<Longrightarrow>
   \<not> acceptable L s msg \<Longrightarrow> verify_message L now msg s = (False, record_failure now (sender_id msg) s)"
  by (auto simp: verify_message_def acceptable_def split: option.splits)

lemma acceptable_trust [simp]: "acceptable L (s\<lparr>m_node_trust := tr\<rparr>) msg \<longleftrightarrow> acceptable L s msg"
  by (simp add: acceptable_def verify_message_chaining_def verify_sequence_continuity_def
      cong: option.case_cong)

lemma record_failure_below:
  "consecutive_failures (trust_of s n) + 1 < kAutoPruneFailures \<Longrightarrow>
   \<exists>t. record_failure now n s = s\<lparr>m_node_trust := (m_node_trust s)(n \<mapsto> t)\<rparr>
     \<and> consecutive_failures t = consecutive_failures (trust_of s n) + 1"
  by (rule exI [where x = "(trust_of s n)\<lparr>consecutive_failures := consecutive_failures (trust_of s n) + 1,
        trust_score := max 0 (fsub (trust_score (trust_of s n)) (fl (1 / 10))), last_failure := now\<rparr>"])
     (simp add: record_failure_def Let_def)

lemma record_failure_at:
  "kAutoPruneFailures \<le> consecutive_failures (trust_of s n) + 1 \<Longrightarrow>
   n \<in> m_banned_peers (record_failure now n s) \<and> n \<in> m_recent_bans (record_failure now n s)
   \<and> m_peer_public_keys (record_failure now n s) n = None
   \<and> m_total_nodes (record_failure now n s) = max 1 (m_total_nodes s - 1)"
  by (simp add: record_failure_def prune_peer_locked_def Let_def)

lemma trust_of_upd [simp]: "trust_of (s\<lparr>m_node_trust := tr(n \<mapsto> t)\<rparr>) n = t"
  by (simp add: trust_of_def)

lemma verify_all_below:
  assumes "n \<notin> m_banned_peers s" "n \<in> dom (m_peer_public_keys s)"
    and "\<forall>(now, msg) \<in> set xs. sender_id msg = n \<and> \<not> acceptable L s msg"
    and "consecutive_failures (trust_of s n) + int (length xs) < kAutoPruneFailures"
  shows "\<exists>tr. verify_all L xs s = s\<lparr>m_node_trust := tr\<rparr> \<and>
    consecutive_failures (trust_of (verify_all L xs s) n) = consecutive_failures (trust_of s n) + int (length xs)"
  using assms
proof (induction xs arbitrary: s)
  case Nil
  show ?case by (simp add: verify_all_def) (rule exI [of _ "m_node_trust s"], simp)
next
  case (Cons x xs)
  obtain now msg where x: "x = (now, msg)" by fastforce
  with Cons.prems have n: "sender_id msg = n" and v: "verify_message L now msg s = (False, record_failure now n s)"
    using verify_message_rejected [of msg s L now] by auto
  obtain t where t: "record_failure now n s = s\<lparr>m_node_trust := (m_node_trust s)(n \<mapsto> t)\<rparr>"
      "consecutive_failures t = consecutive_failures (trust_of s n) + 1"
    using record_failure_below [of s n now] Cons.prems(4) by auto
  have step: "verify_all L (x # xs) s = verify_all L xs (record_failure now n s)"
    by (simp add: verify_all_def x v)
  have "\<exists>tr. verify_all L xs (record_failure now n s) = (record_failure now n s)\<lparr>m_node_trust := tr\<rparr> \<and>
    consecutive_failures (trust_of (verify_all L xs (record_failure now n s)) n) =
    consecutive_failures (trust_of (record_failure now n s) n) + int (length xs)"
    using Cons.prems t by (intro Cons.IH) auto
  then show ?case unfolding step using t by auto
qed

lemma verify_all_banned: "n \<in> m_banned_peers s \<Longrightarrow> n \<in> m_banned_peers (verify_all L xs s)"
  unfolding verify_all_def
  by (induction xs arbitrary: s) (auto intro: subsetD [OF verify_message_banned])

lemma verify_all_append: "verify_all L (xs @ ys) s = verify_all L ys (verify_all L xs s)"
  by (simp add: verify_all_def)

lemma verify_all_autoban:
  assumes "n \<notin> m_banned_peers s" "n \<in> dom (m_peer_public_keys s)" "consecutive_failures (trust_of s n) = 0"
    and "\<forall>(now, msg) \<in> set xs. sender_id msg = n \<and> \<not> acceptable L s msg"
  shows "n \<in> m_banned_peers (verify_all L xs s) \<longleftrightarrow> 100 \<le> length xs"
proof (cases "length xs < 100")
  case True
  with verify_all_below [OF assms(1,2,4)] assms(1,3) show ?thesis by (auto simp: kAutoPruneFailures_def)
next
  case False
  define as where "as = take 99 xs"
  define x where "x = xs ! 99"
  have xs: "xs = as @ x # drop 100 xs"
    using id_take_nth_drop [of 99 xs] False by (simp add: as_def x_def)
  obtain now msg where m: "x = (now, msg)" by fastforce
  have "x \<in> set xs" using False by (simp add: x_def)
  then have x: "sender_id msg = n" "\<not> acceptable L s msg"
    using bspec [OF assms(4)] m by auto
  have as: "\<forall>(now, msg) \<in> set as. sender_id msg = n \<and> \<not> acceptable L s msg"
    using assms(4) unfolding as_def by (meson in_set_takeD)
  obtain tr where tr: "verify_all L as s = s\<lparr>m_node_trust := tr\<rparr>"
      "consecutive_failures (trust_of (verify_all L as s) n) = 99"
    using verify_all_below [OF assms(1,2) as] assms(3) False
    by (auto simp: kAutoPruneFailures_def as_def)
  have "verify_message L now msg (verify_all L as s) = (False, record_failure now n (verify_all L as s))"
    using verify_message_rejected [of msg "verify_all L as s" L now] x assms tr by auto
  then have "n \<in> m_banned_peers (verify_all L (as @ [x]) s)"
    using record_failure_at [of "verify_all L as s" n now] tr
    by (simp add: verify_all_append m) (simp add: verify_all_def kAutoPruneFailures_def)
  then have "n \<in> m_banned_peers (verify_all L (drop 100 xs) (verify_all L (as @ [x]) s))"
    by (rule verify_all_banned)
  moreover have "verify_all L xs s = verify_all L (drop 100 xs) (verify_all L (as @ [x]) s)"
    by (subst xs) (simp add: verify_all_def)
  ultimately show ?thesis using False by simp
qed


text \<open>
  The automatic ban: for a peer with a registered key and no failures, a sequence of messages
  that \<open>verify_message\<close> does not accept gets the peer banned exactly when it has at least 100
  messages.
\<close>

theorem auto_ban_exact:
  assumes "n \<notin> m_banned_peers s" "n \<in> dom (m_peer_public_keys s)" "consecutive_failures (trust_of s n) = 0"
    and "\<forall>(now, msg) \<in> set xs. sender_id msg = n \<and> \<not> acceptable L s msg"
  shows "n \<in> m_banned_peers (verify_all L xs s) \<longleftrightarrow> 100 \<le> length xs"
  using assms by (rule verify_all_autoban)

theorem auto_ban_exact_witness:
  "''A'' \<in> m_banned_peers (verify_all demo_ssl (replicate 100 (0, demo_msg ''PREPARE'' ''A'' 1)) demo_peers)
   \<and> ''A'' \<notin> m_banned_peers (verify_all demo_ssl (replicate 99 (0, demo_msg ''PREPARE'' ''A'' 1)) demo_peers)"
proof -
  have "\<not> acceptable demo_ssl demo_peers (demo_msg ''PREPARE'' ''A'' 1)"
    by (simp add: acceptable_def signed_blob_def)
  then show ?thesis
    using auto_ban_exact [of "''A''" demo_peers "replicate 100 (0, demo_msg ''PREPARE'' ''A'' 1)" demo_ssl]
      auto_ban_exact [of "''A''" demo_peers "replicate 99 (0, demo_msg ''PREPARE'' ''A'' 1)" demo_ssl]
    by simp
qed


text \<open>
  One lost message locks an honest sender out: once some message of a peer is stored and its
  successor was lost, a later message that chains to its own predecessor, as
  \<open>get_last_sent_hash\<close> makes an honest sender do, is refused however often it or its
  successors are sent, although every signature is right; the stored history does not grow, and the
  hundredth of them gets the peer banned.
\<close>

theorem lost_message_locks_out:
  assumes "m_message_history s n = Some history" "history \<noteq> []"
    and "n \<notin> m_banned_peers s" "m_peer_public_keys s n = Some key" "consecutive_failures (trust_of s n) = 0"
    and "\<forall>(now, msg) \<in> set xs. sender_id msg = n
      \<and> verify_signature L key (signed_blob msg) (signature msg)
      \<and> omap_lookup history (sequence_number msg - 1) = None
      \<and> prev_message_hash msg \<noteq> [] \<and> prev_message_hash msg \<noteq> m_genesis_hash s"
  shows "(\<forall>(now, msg) \<in> set xs. \<not> fst (verify_message L now msg s))
    \<and> (length xs < 100 \<longrightarrow> m_message_history (verify_all L xs s) n = Some history)
    \<and> (n \<in> m_banned_peers (verify_all L xs s) \<longleftrightarrow> 100 \<le> length xs)"
proof -
  have bad: "\<forall>(now, msg) \<in> set xs. sender_id msg = n \<and> \<not> acceptable L s msg"
    using assms(1,2,6) by (fastforce simp: acceptable_def verify_message_chaining_def)
  moreover have "n \<in> dom (m_peer_public_keys s)" using assms(4) by auto
  ultimately show ?thesis
    using verify_all_below [OF assms(3) _ bad] verify_all_autoban [OF assms(3) _ assms(5) bad] assms(1,3,5)
    by (auto simp: verify_message_iff kAutoPruneFailures_def)
qed

theorem lost_message_locks_out_witness:
  "''A'' \<in> m_banned_peers (verify_all demo_ssl (replicate 100 (0, demo_late)) demo_gap)"
proof -
  have late: "sender_id demo_late = ''A''" "sequence_number demo_late = 3" "prev_message_hash demo_late = ''hash2''"
    by (simp_all add: demo_late_def)
  have sig: "signature demo_late = ''keyA#'' @ signed_blob demo_late" by code_simp
  have gap: "m_message_history demo_gap ''A'' = Some [(1, ''hash1'')]" "''A'' \<notin> m_banned_peers demo_gap"
    "m_peer_public_keys demo_gap ''A'' = Some (Some ''keyA'')" "consecutive_failures (trust_of demo_gap ''A'') = 0"
    using demo_peers_simps(3) by (simp_all add: demo_gap_def trust_of_def del: demo_peers_simps(3))
  have "length (m_genesis_hash demo_gap) = 64"
    using length_sha256_hex [OF demo_ssl_total, of "''GENESIS''"]
    by (simp add: demo_gap_def demo_peers_def pbft_run_def register_peer_key_def new_pbft_def)
  then have "''hash2'' \<noteq> m_genesis_hash demo_gap" by (intro notI) (drule sym, simp)
  with lost_message_locks_out [OF gap(1) _ gap(2-4), of "replicate 100 (0, demo_late)" demo_ssl] late sig
  show ?thesis by simp
qed


lemma funpow_prune:
  "m_total_nodes ((prune_peer n ^^ Suc k) s) = max 1 (m_total_nodes s - int (Suc k))
   \<and> m_peer_public_keys ((prune_peer n ^^ Suc k) s) = (m_peer_public_keys s)(n := None)"
  by (induction k) (auto simp: prune_peer_def prune_peer_locked_def)

text \<open>
  Pruning is not idempotent on the membership count: pruning one peer \<open>k+1\<close> times
  removes its key once and lowers the number of nodes \<open>k+1\<close> times, whether or not the peer is
  registered, so that with it the quorum falls to one.
\<close>

theorem prune_counts_again:
  "m_peer_public_keys ((prune_peer n ^^ Suc k) s) = (m_peer_public_keys s)(n := None)
   \<and> m_total_nodes ((prune_peer n ^^ Suc k) s) = max 1 (m_total_nodes s - int (Suc k))
   \<and> quorum_size ((prune_peer n ^^ nat (max 1 (m_total_nodes s))) s) = 1"
proof -
  obtain k where k: "nat (max 1 (m_total_nodes s)) = Suc k"
    by (cases "nat (max 1 (m_total_nodes s))") auto
  have "m_total_nodes ((prune_peer n ^^ Suc k) s) = 1"
    using funpow_prune [of k n s] k by simp
  then have "quorum_size ((prune_peer n ^^ nat (max 1 (m_total_nodes s))) s) = 1"
    unfolding k by (simp add: quorum_size_def quorum_of_def)
  with funpow_prune show ?thesis by blast
qed


section \<open>Replay and equivocation\<close>

lemma advance_state_seen:
  assumes "compute_message_hash L msg \<in> m_seen_messages s" "pbft_inv s"
  shows "fst (advance_state L evict now msg s) = IDLE
    \<and> voters (snd (advance_state L evict now msg s)) k st \<subseteq> voters s k st"
proof -
  obtain r s' where adv: "advance_state L evict now msg s = (r, s')" by fastforce
  then show ?thesis
  proof (cases rule: advance_state_cases)
    case (dropped s1)
    then have "voters s1 k st \<subseteq> voters s k st" using cleanup_voters [of now s k st] by auto
    then show ?thesis
      using adv dropped(1,2) record_failure_voters [of now "sender_id msg" s1 k st] by auto
  qed (use adv assms in auto)
qed

lemma register_vote_seen [simp]: "m_seen_messages (snd (register_vote now key msg h s)) = m_seen_messages s"
  by (simp add: register_vote_def count_vote_def put_round_def Let_def)




lemma register_vote_frame [simp]:
  "m_equivocation_history (snd (register_vote now key msg h s)) = m_equivocation_history s"
  "m_node_trust (snd (register_vote now key msg h s)) = m_node_trust s"
  by (simp_all add: register_vote_def count_vote_def put_round_def Let_def)

lemma detect_equivocation_evidence:
  assumes "m_message_history s (sender_id msg) = Some history" "omap_lookup history (sequence_number msg) = Some h'"
    and "h' \<noteq> h" "omap_inv (m_equivocation_history s)"
  shows "omap_lookup (m_equivocation_history (detect_equivocation now msg h s)) (sender_id msg) =
      Some \<lparr>eq_node_id = sender_id msg, eq_sequence_number = sequence_number msg,
            eq_view = msg_view msg, hash1 = h', hash2 = h, detected_at = now\<rparr>"
    and "equivocation_count (trust_of (detect_equivocation now msg h s) (sender_id msg)) =
      equivocation_count (trust_of s (sender_id msg)) + 1"
    and "trust_score (trust_of (detect_equivocation now msg h s) (sender_id msg)) =
      max 0 (fsub (trust_score (trust_of s (sender_id msg))) (fl (3 / 10)))"
  using assms by (simp_all add: detect_equivocation_def record_equivocation_def trust_of_def Let_def)

text \<open>
  Equivocation is caught: when a peer that may vote sends a message with a sequence number for
  which the node stored another hash, and the message is neither rate limited nor a replay, then
  the evidence kept for the peer names the sequence number and both hashes, the equivocation count
  of the peer goes up by one and its trust falls by the penalty, whether or not the vote counts.
\<close>

theorem equivocation_recorded:
  assumes "pbft_inv s" "sender_id msg \<notin> m_banned_peers s" "m_peer_public_keys s (sender_id msg) \<noteq> None"
    and "m_message_history s (sender_id msg) = Some history"
    and "omap_lookup history (sequence_number msg) = Some h'" "h' \<noteq> compute_message_hash L msg"
    and "fst (check_rate_limit now (sender_id msg) (cleanup_stale_rounds now s))"
    and "compute_message_hash L msg \<notin> m_seen_messages s"
  shows "let t = snd (advance_state L evict now msg s); n = sender_id msg in
    omap_lookup (m_equivocation_history t) n =
      Some \<lparr>eq_node_id = n, eq_sequence_number = sequence_number msg, eq_view = msg_view msg,
            hash1 = h', hash2 = compute_message_hash L msg, detected_at = now\<rparr>
    \<and> equivocation_count (trust_of t n) = equivocation_count (trust_of s n) + 1
    \<and> trust_score (trust_of t n) = max 0 (fsub (trust_score (trust_of s n)) (fl (3 / 10)))"
proof -
  let ?h = "compute_message_hash L msg"
  obtain s1 where rl: "check_rate_limit now (sender_id msg) (cleanup_stale_rounds now s) = (True, s1)"
    using assms(7) by (metis (full_types) prod.collapse)
  then obtain ts where s1: "s1 = (cleanup_stale_rounds now s)\<lparr>m_rate_limits := ts\<rparr>"
    using check_rate_limit_eq by blast
  obtain key where "m_peer_public_keys s (sender_id msg) = Some key" using assms(3) by blast
  then have t: "advance_state L evict now msg s =
      register_vote now (round_key_of L (evidence_json msg) (target_id msg)) msg ?h
        (detect_equivocation now msg ?h (see_message evict ?h s1))"
    unfolding advance_state_def Let_def using assms(2,8) rl by (simp add: s1)
  have "omap_inv (m_equivocation_history (see_message evict ?h s1))"
    using assms(1) by (simp add: pbft_inv_def see_message_def Let_def s1 cleanup_stale_rounds_def)
  moreover have "m_message_history (see_message evict ?h s1) (sender_id msg) = Some history"
    using assms(4) by (simp add: s1)
  moreover have "trust_of (see_message evict ?h s1) = trust_of s"
    by (simp add: trust_of_def see_message_def Let_def s1 cleanup_stale_rounds_def fun_eq_iff)
  moreover have "trust_of (snd (register_vote now k msg ?h x)) = trust_of x" for k x
    by (simp add: trust_of_def fun_eq_iff)
  ultimately show ?thesis
    unfolding t Let_def using detect_equivocation_evidence [OF _ assms(5,6)] by simp
qed

theorem equivocation_recorded_witness:
  "omap_lookup (m_equivocation_history (snd (demo_advance (demo_msg ''PREPARE'' ''A'' 1) demo_gap))) ''A'' =
     Some \<lparr>eq_node_id = ''A'', eq_sequence_number = 1, eq_view = 0, hash1 = ''hash1'',
       hash2 = compute_message_hash demo_ssl (demo_msg ''PREPARE'' ''A'' 1), detected_at = 0\<rparr>"
proof -
  have "pbft_inv demo_gap"
    using demo_inv(1) unfolding demo_gap_def pbft_inv_def
    by (auto simp: history_inv_def omap_inv_def MAX_MSG_HISTORY_PER_SENDER_def split: if_splits)
  moreover have "fst (check_rate_limit 0 ''A'' (cleanup_stale_rounds 0 demo_gap))" by code_simp
  moreover have "m_seen_messages demo_gap = {}"
    by (simp add: demo_gap_def demo_peers_def pbft_run_def register_peer_key_def new_pbft_def)
  moreover have "length (compute_message_hash demo_ssl (demo_msg ''PREPARE'' ''A'' 1)) = 64"
    by (simp add: compute_message_hash_def length_sha256_hex [OF demo_ssl_total])
  then have "''hash1'' \<noteq> compute_message_hash demo_ssl (demo_msg ''PREPARE'' ''A'' 1)"
    by (intro notI) (drule sym, simp)
  ultimately show ?thesis
    using equivocation_recorded [of demo_gap "demo_msg ''PREPARE'' ''A'' 1" "[(1, ''hash1'')]" "''hash1''"
        demo_ssl 0 evict_sorted]
    by (simp add: demo_gap_def Let_def)
qed


section \<open>What signatures and hashes bind\<close>

lemma fields_right3:
  assumes "e @ d # x @ d # y @ d # z = e' @ d # x' @ d # y' @ d # z'"
    and "d \<notin> set x" "d \<notin> set x'" "d \<notin> set y" "d \<notin> set y'" "d \<notin> set z" "d \<notin> set z'"
  shows "e = e' \<and> x = x' \<and> y = y' \<and> z = z'"
proof -
  have "(e @ d # x @ d # y) @ d # z = (e' @ d # x' @ d # y') @ d # z'" using assms(1) by simp
  from field_right [OF this assms(6,7)] have "(e @ d # x) @ d # y = (e' @ d # x') @ d # y'" "z = z'" by simp_all
  with field_right [OF this(1) assms(4,5)] field_right [OF _ assms(2,3)] show ?thesis by blast
qed

lemma u64_str_no_bar [simp]: "CHR ''|'' \<notin> set (u64_str w)" "CHR ''|'' \<notin> set (int_str i)"
  by (simp_all add: u64_str_no_sep int_str_no_sep)

lemma signed_blob_inj:
  assumes "wire_message m" "wire_message m'" "signed_blob m = signed_blob m'"
  shows "stage_str m = stage_str m' \<and> target_id m = target_id m' \<and> evidence_json m = evidence_json m'
    \<and> sequence_number m = sequence_number m' \<and> msg_view m = msg_view m'
    \<and> prev_message_hash m = prev_message_hash m'"
proof -
  define R where "R x = evidence_json x @ CHR ''|'' # u64_str (sequence_number x) @ CHR ''|''
      # int_str (msg_view x) @ CHR ''|'' # prev_message_hash x" for x :: p2p_message
  note w = assms(1,2) [unfolded wire_message_def]
  have "stage_str m @ CHR ''|'' # target_id m @ CHR ''|'' # R m
      = stage_str m' @ CHR ''|'' # target_id m' @ CHR ''|'' # R m'"
    using assms(3) by (simp add: signed_blob_def R_def)
  from field_left [OF this] w have 1: "stage_str m = stage_str m'"
    and "target_id m @ CHR ''|'' # R m = target_id m' @ CHR ''|'' # R m'" by blast+
  from field_left [OF this(2)] w have 2: "target_id m = target_id m'" and "R m = R m'" by blast+
  from fields_right3 [OF this(2) [unfolded R_def]] w 1 2 show ?thesis by simp
qed

lemma message_text_inj:
  assumes "wire_message m" "wire_message m'" "message_text m = message_text m'"
  shows "stage_str m = stage_str m' \<and> sender_id m = sender_id m' \<and> target_id m = target_id m'
    \<and> evidence_json m = evidence_json m' \<and> prev_message_hash m = prev_message_hash m'
    \<and> sequence_number m = sequence_number m' \<and> msg_view m = msg_view m'"
proof -
  define R where "R x = evidence_json x @ CHR ''|'' # prev_message_hash x @ CHR ''|''
      # u64_str (sequence_number x) @ CHR ''|'' # int_str (msg_view x)" for x :: p2p_message
  note w = assms(1,2) [unfolded wire_message_def]
  have "stage_str m @ CHR ''|'' # sender_id m @ CHR ''|'' # target_id m @ CHR ''|'' # R m
      = stage_str m' @ CHR ''|'' # sender_id m' @ CHR ''|'' # target_id m' @ CHR ''|'' # R m'"
    using assms(3) by (simp add: message_text_def R_def)
  from field_left [OF this] w have 1: "stage_str m = stage_str m'"
    and "sender_id m @ CHR ''|'' # target_id m @ CHR ''|'' # R m
      = sender_id m' @ CHR ''|'' # target_id m' @ CHR ''|'' # R m'" by blast+
  from field_left [OF this(2)] w have 2: "sender_id m = sender_id m'"
    and "target_id m @ CHR ''|'' # R m = target_id m' @ CHR ''|'' # R m'" by blast+
  from field_left [OF this(2)] w have 3: "target_id m = target_id m'" and "R m = R m'" by blast+
  from fields_right3 [OF this(2) [unfolded R_def]] w 1 2 3 show ?thesis by simp
qed

text \<open>
  C10. Signatures and hashes bind the message: for two messages whose stage, sender, target and
  previous hash come from the wire, where the separator cannot occur in a field, the signed texts
  agree only if stage, target, evidence, sequence number, view and previous hash agree, whatever the
  evidence contains; and their message hashes agree only if all seven fields agree or SHA-256 maps
  the two distinct texts to one digest.
\<close>

theorem signatures_and_hashes_bind:
  assumes "wire_message m" "wire_message m'"
  shows "(signed_blob m = signed_blob m' \<longrightarrow>
      stage_str m = stage_str m' \<and> target_id m = target_id m' \<and> evidence_json m = evidence_json m'
      \<and> sequence_number m = sequence_number m' \<and> msg_view m = msg_view m'
      \<and> prev_message_hash m = prev_message_hash m')
    \<and> (compute_message_hash L m = compute_message_hash L m' \<and> compute_message_hash L m \<noteq> [] \<longrightarrow>
      m\<lparr>signature := signature m'\<rparr> = m'
      \<or> message_text m \<noteq> message_text m' \<and> evp_sha256 L (message_text m) = evp_sha256 L (message_text m'))"
proof (intro conjI impI)
  assume h: "compute_message_hash L m = compute_message_hash L m' \<and> compute_message_hash L m \<noteq> []"
  then have "evp_sha256 L (message_text m) = evp_sha256 L (message_text m')"
    unfolding compute_message_hash_def by (intro sha256_hex_collision) blast+
  moreover have "m\<lparr>signature := signature m'\<rparr> = m'" if "message_text m = message_text m'"
    using message_text_inj [OF assms that] by (intro p2p_message.equality) simp_all
  ultimately show "m\<lparr>signature := signature m'\<rparr> = m' \<or>
      message_text m \<noteq> message_text m' \<and> evp_sha256 L (message_text m) = evp_sha256 L (message_text m')"
    by blast
qed (use signed_blob_inj [OF assms] in blast)+


theorem signatures_and_hashes_bind_witness:
  "signed_blob (demo_msg ''PREPARE'' ''A'' 1) \<noteq> signed_blob (demo_msg ''COMMIT'' ''A'' 1)"
  using signatures_and_hashes_bind [of "demo_msg ''PREPARE'' ''A'' 1" "demo_msg ''COMMIT'' ''A'' 1" demo_ssl]
  by (simp add: wire_message_def)


section \<open>The invariant in every reachable state\<close>

text \<open>
  C6. Whatever sequence of calls a node makes on its consensus machine, the state it reaches
  satisfies the invariant: rounds, histories and evidence are ordered and within their caps, trust
  scores lie between 0 and 1, the stored times of each sender do not exceed the configured maximum,
  the set of seen messages is bounded, and votes, histories and trust belong to peers whose key is
  registered.
\<close>

theorem reachable_invariant:
  assumes "evicts_half evict" "pbft_reach L evict s"
  shows "pbft_inv s"
  using assms by (rule pbft_inv_reach)

theorem reachable_invariant_witness: "pbft_inv demo_brink"
  using reachable_invariant [OF evicts_half_sorted pbft_reach_run [OF demo_peers_reach]]
  unfolding demo_brink_def .

end
