(* ===== verification/MeshSafety.thy ===== *)
theory MeshSafety
  imports Mesh_Demo PBFT_Safety
begin

text \<open>
  What the handlers of the node do to the parts they connect. The locale \<open>handlers\<close> states
  what a relation between the states before and after must allow - local fields, effects other than
  mitigation, proof chain appends and the calls of the consensus machine that add no peer - and
  shows that every handler but two steps stays inside; \<open>all_handlers\<close> adds those two.
  Interpreted on the two relations below they give: a node drives the consensus machine only through
  its public calls, mitigation follows a commit quorum, and a peer is registered only when both
  discovery paths agree on its key.
\<close>


section \<open>Vocabulary of the statements\<close>

fun adds_no_peer :: "pbft_op \<Rightarrow> bool" where
  "adds_no_peer (VerifyMessage _ _) = True"
| "adds_no_peer (AdvanceState _ _) = True"
| "adds_no_peer (SetRoundCommitSig _ _) = True"
| "adds_no_peer (PrunePeer _) = True"
| "adds_no_peer DrainRecentBans = True"
| "adds_no_peer (BanPeerLocal _) = True"
| "adds_no_peer AdvanceView = True"
| "adds_no_peer _ = False"

fun is_mitigate :: "mesh_out \<Rightarrow> bool" where
  "is_mitigate (Mitigate _ _) = True"
| "is_mitigate _ = False"

definition consensus_call :: "mesh_env \<Rightarrow> pbft_op \<Rightarrow> mesh_node \<Rightarrow> mesh_node" where
  "consensus_call E op s = s\<lparr>mn_pbft := pbft_apply (env_ssl E) (env_evict E) op (mn_pbft s)\<rparr>"

definition same_core :: "mesh_node \<Rightarrow> mesh_node \<Rightarrow> bool" where
  "same_core s s' \<longleftrightarrow> mn_pbft s' = mn_pbft s \<and> mn_out s' = mn_out s \<and> mn_proof_chain s' = mn_proof_chain s
     \<and> mn_node_id s' = mn_node_id s"

text \<open>Nothing is mitigated; no peer is added; the consensus machine and the proof chain are driven
  through their interfaces.\<close>

definition unmitigated :: "mesh_env \<Rightarrow> mesh_node \<Rightarrow> mesh_node \<Rightarrow> bool" where
  "unmitigated E s s' \<longleftrightarrow> (\<exists>outs. mn_out s' = mn_out s @ outs \<and> list_all (\<lambda>x. \<not> is_mitigate x) outs)"

definition no_new_peer :: "mesh_env \<Rightarrow> mesh_node \<Rightarrow> mesh_node \<Rightarrow> bool" where
  "no_new_peer E s s' \<longleftrightarrow> m_registered_peers (mn_pbft s') \<subseteq> m_registered_peers (mn_pbft s)
     \<and> m_peer_public_keys (mn_pbft s') \<subseteq>\<^sub>m m_peer_public_keys (mn_pbft s)"

definition driven :: "mesh_env \<Rightarrow> mesh_node \<Rightarrow> mesh_node \<Rightarrow> bool" where
  "driven E s s' \<longleftrightarrow> (\<exists>ops. mn_pbft s' = pbft_run (env_ssl E) (env_evict E) ops (mn_pbft s))
     \<and> (chain_inv (env_ssl E) (mn_proof_chain s) \<longrightarrow> chain_inv (env_ssl E) (mn_proof_chain s'))
     \<and> mn_node_id s' = mn_node_id s \<and> (\<exists>outs. mn_out s' = mn_out s @ outs)"


definition quorum_reached :: "mesh_env \<Rightarrow> string \<Rightarrow> node_id \<Rightarrow> pbft \<Rightarrow> bool" where
  "quorum_reached E ev tg p \<longleftrightarrow>
     quorum_size p \<le> int (card (voters p (round_key_of (env_ssl E) ev tg) ''COMMIT''))"

definition decided :: "mesh_env \<Rightarrow> string \<Rightarrow> node_id \<Rightarrow> mesh_node \<Rightarrow> bool" where
  "decided E ev tg s \<longleftrightarrow> \<not> is_ban_round ev \<and> 1 \<le> pm_peer_count (mn_peers s) \<and> quorum_reached E ev tg (mn_pbft s)"

text \<open>A step inside the relation, or one that ends with the mitigation of a decided target.\<close>

definition settles ::
  "(mesh_env \<Rightarrow> mesh_node \<Rightarrow> mesh_node \<Rightarrow> bool) \<Rightarrow> mesh_env \<Rightarrow> string \<Rightarrow> node_id \<Rightarrow> mesh_node \<Rightarrow> mesh_node \<Rightarrow> bool" where
  "settles R E ev tg s u \<longleftrightarrow> R E s u \<or> (\<exists>v. R E s v \<and> u = run_mitigation E ev tg v \<and> decided E ev tg v)"

text \<open>The entry of a peer as it must be for the second path to complete the confirmation of a key:
  the other path has been seen, and the key agrees with the provisioned or the stored one, if any.\<close>

definition confirmed_before :: "node_id \<Rightarrow> 8 word \<Rightarrow> pem \<Rightarrow> peer_manager \<Rightarrow> bool" where
  "confirmed_before p other k pm \<longleftrightarrow>
     (case m_peers pm p of None \<Rightarrow> False
      | Some e \<Rightarrow> pe_confirmed_paths e AND other \<noteq> 0
          \<and> (case m_pre_provisioned_keys pm p of Some k' \<Rightarrow> k' = k | None \<Rightarrow> pe_public_key_pem e \<in> {k, []}))"


text \<open>The event is a signed beacon or announcement of \<open>p\<close> with the key \<open>k\<close>, and
  the other path had brought the same key before.\<close>

fun completes :: "mesh_env \<Rightarrow> mesh_event \<Rightarrow> mesh_node \<Rightarrow> node_id \<Rightarrow> pem \<Rightarrow> bool" where
  "completes E (DiscoveryDatagram ip buf) s p k \<longleftrightarrow>
     (case read_beacon (env_ssl E) (mn_node_id s) (now_us E) (split_string (c_string buf) (CHR ''|'')) of
        None \<Rightarrow> False | Some b \<Rightarrow> bc_peer_id b = p \<and> bc_pem b = k)
     \<and> confirmed_before p PATH_ANNOUNCE k (mn_peers s)"
| "completes E (ConsensusDatagram ip buf) s p k \<longleftrightarrow>
     read_announce (env_ssl E) (mn_node_id s) (split_string (c_string buf) (CHR ''|'')) = Some (p, k)
     \<and> confirmed_before p PATH_BEACON k (mn_peers s)"
| "completes E _ s p k \<longleftrightarrow> False"


section \<open>Frames\<close>

lemma effect_frames [simp]:
  "mn_pbft (emit x s) = mn_pbft s" "mn_peers (emit x s) = mn_peers s" "mn_node_id (emit x s) = mn_node_id s"
  "mn_pbft (push_telemetry E j s) = mn_pbft s" "mn_peers (push_telemetry E j s) = mn_peers s"
  "mn_pbft (journal_event E st tg ev s) = mn_pbft s" "mn_peers (journal_event E st tg ev s) = mn_peers s"
  "mn_pbft (append_proof E tg ev sig s) = mn_pbft s" "mn_peers (append_proof E tg ev sig s) = mn_peers s"
  by (simp_all add: emit_def push_telemetry_def journal_event_def append_proof_def Let_def split: option.split)

lemma cast_vote_executed:
  assumes "fst (cast_vote E msg s) = EXECUTED"
  shows "quorum_reached E (evidence_json msg) (target_id msg) (mn_pbft (snd (cast_vote E msg s)))"
proof (cases E msg s rule: cast_vote_cases)
  case (2 p q st)
  with assms have "advance_state (env_ssl E) (env_evict E) (env_now E) msg p = (EXECUTED, q)" by simp
  then show ?thesis
  proof (cases rule: advance_state_cases)
    case (voted s2)
    from count_vote_executed [OF register_vote_executed(1) [OF voted(1) [symmetric]]] show ?thesis
      by (simp add: 2(1) quorum_reached_def)
  qed simp_all
qed (use assms in simp)


lemma confirmed_before_cong:
  "m_peers pm' = m_peers pm \<Longrightarrow> m_pre_provisioned_keys pm' = m_pre_provisioned_keys pm
   \<Longrightarrow> confirmed_before p g k pm' \<Longrightarrow> confirmed_before p g k pm"
  by (auto simp: confirmed_before_def split: option.splits)

lemma confirm_dual:
  assumes "dual_confirmed (fst (confirm_path p f k (snd (add_peer now p ip tcp tls k pm))))" "k \<noteq> []"
    and "f = PATH_BEACON \<and> g = PATH_ANNOUNCE \<or> f = PATH_ANNOUNCE \<and> g = PATH_BEACON"
  shows "confirmed_before p g k pm"
proof (cases "m_peers pm p")
  case None
  with assms show ?thesis
    by (auto simp: add_peer_def confirm_path_def confirm_entry_def mark_path_def both_paths_def default_peer_def pm_consts
        Let_def split: if_splits option.splits)
next
  case (Some e)
  have bits: "both_paths w \<Longrightarrow> w AND g \<noteq> 0" "both_paths (w OR f) \<Longrightarrow> w AND g \<noteq> 0" for w
    using both_paths_bit [of w g] both_paths_bit [of "w OR f" g] assms(3)
    by (auto simp: path_flag_ok_def pm_consts bit.conj_disj_distrib2)
  show ?thesis
    using assms(1,2) Some
    by (auto simp: confirmed_before_def add_peer_def confirm_path_def confirm_entry_def mark_path_def Let_def
        split: if_splits option.splits dest: bits)
qed


lemma rate_limit_frame:
  assumes "pm_check_rate_limit ord now ip pm = (ok, pm')"
  shows "m_peers pm' = m_peers pm" "m_pre_provisioned_keys pm' = m_pre_provisioned_keys pm"
  using assms by (auto simp: pm_check_rate_limit_def Let_def split: if_splits)

lemma read_beacon_pem: "read_beacon L n now tokens = Some b \<Longrightarrow> bc_pem b \<noteq> []"
  by (auto simp: read_beacon_def Let_def split: if_splits option.splits)


section \<open>The interface of the handlers\<close>

locale handlers =
  fixes R :: "mesh_env \<Rightarrow> mesh_node \<Rightarrow> mesh_node \<Rightarrow> bool"
  assumes start [simp, intro]: "R E s s"
    and chain [trans]: "R E s t \<Longrightarrow> R E t u \<Longrightarrow> R E s u"
    and core_ok: "same_core s s' \<Longrightarrow> R E s s'"
    and emit_ok: "\<not> is_mitigate x \<Longrightarrow> R E s (emit x s)"
    and proof_ok: "R E s (s\<lparr>mn_proof_chain := proof_append (env_ssl E) ts ty tg ev sig (mn_proof_chain s)\<rparr>)"
    and call_ok: "adds_no_peer op \<Longrightarrow> R E s (consensus_call E op s)"
begin

lemma emit_step: "R E s t \<Longrightarrow> \<not> is_mitigate x \<Longrightarrow> R E s (emit x t)"
  using emit_ok chain by blast

lemma local_step: "R E s t \<Longrightarrow> same_core t u \<Longrightarrow> R E s u"
  using core_ok chain by blast

lemma call_step: "R E s t \<Longrightarrow> adds_no_peer op \<Longrightarrow> u = consensus_call E op t \<Longrightarrow> R E s u"
  using call_ok chain by blast

lemma fold_step: "(\<And>x t. R E s t \<Longrightarrow> R E s (f x t)) \<Longrightarrow> R E s t \<Longrightarrow> R E s (fold f xs t)"
  by (induction xs arbitrary: t) simp_all

lemma on_peers_step [intro]: "R E s t \<Longrightarrow> R E s (on_peers f t)"
  by (erule local_step) (simp add: on_peers_def same_core_def)

lemma peers_step [intro]: "R E s t \<Longrightarrow> R E s (t\<lparr>mn_peers := pm\<rparr>)"
  by (erule local_step) (simp add: same_core_def)

lemma journal_step [intro]: "R E s t \<Longrightarrow> R E s (journal_event E' st tg ev t)"
  by (erule local_step) (simp add: journal_event_def same_core_def)

lemma telemetry_step [intro]: "R E s t \<Longrightarrow> R E s (push_telemetry E' j t)"
  by (simp add: push_telemetry_def emit_step)

lemma send_steps [intro]:
  "R E s t \<Longrightarrow> R E s (send_udp_broadcast p t)"
  "R E s t \<Longrightarrow> R E s (send_udp_discovery p t)"
  "R E s t \<Longrightarrow> R E s (send_udp_unicast ip port p t)"
  by (simp_all add: send_udp_broadcast_def send_udp_discovery_def send_udp_unicast_def Let_def emit_step)

lemma announce_step [intro]: "R E s t \<Longrightarrow> R E s (announce_identity E' t)"
  unfolding announce_identity_def by blast

lemma beacon_step [intro]: "R E s t \<Longrightarrow> R E s (send_discovery_beacon E' t)"
  unfolding send_discovery_beacon_def Let_def by (rule fold_step) (auto split: prod.split)

lemma gossip_steps [intro]:
  "R E s t \<Longrightarrow> R E s (gossip_event_json E' j t)" "R E s t \<Longrightarrow> R E s (gossip_telemetry E' j t)"
  unfolding gossip_event_json_def gossip_telemetry_def Let_def by blast+

lemma cast_vote_step [intro]:
  assumes "R E s t"
  shows "R E s (snd (cast_vote E msg t))"
proof (cases E msg t rule: cast_vote_cases)
  case (1 p)
  show ?thesis
    by (rule call_step [OF assms, of "VerifyMessage (env_now E) msg"]) (simp_all add: 1 consensus_call_def)
next
  case (2 p q st)
  have "R E s (consensus_call E (VerifyMessage (env_now E) msg) t)" using call_step [OF assms] by simp
  then show ?thesis
    by (rule call_step [where op = "AdvanceState (env_now E) msg"]) (simp_all add: 2 consensus_call_def)
qed

lemma append_proof_step [intro]: "R E s t \<Longrightarrow> R E s (append_proof E tg ev sig t)"
  unfolding append_proof_def Let_def
  using chain proof_ok by (auto split: option.split intro!: emit_step)

lemma execute_ban_step [intro]: "R E s t \<Longrightarrow> R E s (execute_ban E tg ev t)"
  unfolding execute_ban_def
  by (rule journal_step, erule call_step [where op = "BanPeerLocal tg"]) (simp_all add: consensus_call_def on_pbft_def)

lemma send_vote_step [intro]:
  assumes "R E s t"
  shows "R E s (send_vote E msg t)"
proof -
  let ?k = "sha256_hex (env_ssl E) (evidence_json msg @ ''|'' @ target_id msg)"
  have "R E s (t\<lparr>mn_sequence_number := sequence_number msg\<rparr>)"
    by (rule local_step [OF assms]) (simp add: same_core_def)
  moreover from this have "R E s (on_pbft (set_round_commit_sig ?k (signature msg)) (t\<lparr>mn_sequence_number := sequence_number msg\<rparr>))"
    by (rule call_step [where op = "SetRoundCommitSig ?k (signature msg)"]) (simp_all add: consensus_call_def on_pbft_def)
  moreover have "R E s (send_tls_to E p n u)" if "R E s u" for p n u
    using that by (auto simp: send_tls_to_def Let_def intro!: emit_step on_peers_step split: option.split)
  ultimately show ?thesis
    unfolding send_vote_def Let_def by (auto intro!: fold_step)
qed

lemma executed_settles:
  assumes "R E s t" "quorum_reached E (evidence_json msg) (target_id msg) (mn_pbft t)"
  shows "settles R E (evidence_json msg) (target_id msg) s (executed_by_self E msg t)"
    "settles R E (evidence_json msg) (target_id msg) s (executed_by_peer E msg t)"
proof -
  let ?ev = "evidence_json msg" and ?tg = "target_id msg"
  have fin: "settles R E ?ev ?tg s (run_mitigation E ?ev ?tg v)"
    if "R E s v" "mn_pbft v = mn_pbft t" "mn_peers v = mn_peers t" "\<not> is_ban_round ?ev" "\<not> pm_peer_count (mn_peers t) < 1" for v
  proof -
    have "decided E ?ev ?tg v" using that assms(2) by (simp add: decided_def)
    with that(1) show ?thesis unfolding settles_def by blast
  qed
  show "settles R E ?ev ?tg s (executed_by_self E msg t)"
    using assms(1) unfolding executed_by_self_def
    by (auto intro!: fin append_proof_step journal_step simp: settles_def [of R E ?ev ?tg s "execute_ban E ?tg ?ev t"] settles_def [of R E ?ev ?tg s t])
  show "settles R E ?ev ?tg s (executed_by_peer E msg t)"
    using assms(1) unfolding executed_by_peer_def Let_def
    by (auto intro!: fin append_proof_step journal_step telemetry_step emit_step
        simp: settles_def [of R E ?ev ?tg s "execute_ban E ?tg ?ev t"] settles_def [of R E ?ev ?tg s t])
qed

lemma broadcast_settles: "R E s t \<Longrightarrow> settles R E ev tg s (broadcast_pbft_stage E stage tg ev t)"
proof (induction E stage tg ev t arbitrary: s rule: broadcast_pbft_stage.induct)
  case (1 E stage tg ev t)
  define msg where "msg = make_vote E stage tg ev t"
  define vote where "vote = cast_vote E msg (send_vote E msg t)"
  have m: "evidence_json msg = ev" "target_id msg = tg" by (simp_all add: msg_def)
  have step: "R E s (snd vote)" unfolding vote_def using "1.prems" by blast
  have later: "R E s (push_telemetry E (spike_json tg (quorum_size (mn_pbft (snd vote)))) (journal_event E ''COMMIT'' tg ev (snd vote)))"
    using step by blast
  have fin: "settles R E ev tg s (executed_by_self E msg (snd vote))" if "fst vote = EXECUTED"
    using executed_settles(1) [OF step, of msg, unfolded m] cast_vote_executed [of E msg, unfolded m] that
    by (simp add: vote_def)
  show ?case
    by (subst broadcast_pbft_stage.simps)
      (use "1.IH"(1) [OF msg_def vote_def refl refl _ step] "1.IH"(2) [OF msg_def vote_def refl refl _ _ later] fin step
        in \<open>auto simp: Let_def settles_def [of R E ev tg s "snd vote"] simp flip: msg_def vote_def\<close>)
qed


lemma settles_ban: "settles R E ev tg s u \<Longrightarrow> is_ban_round ev \<Longrightarrow> R E s u"
  by (auto simp: settles_def decided_def)

lemma node_propose_ban_step [intro]:
  assumes "R E s t"
  shows "R E s (snd (node_propose_ban E tg reason t))"
proof -
  let ?ev = "''{\"action\":\"ban\",\"reason\":\"'' @ reason @ ''\"}''"
  have "?ev = ''{'' @ ''\"action\":\"ban\"'' @ '',\"reason\":\"'' @ reason @ ''\"}''" by simp
  then have "is_ban_round ?ev" unfolding is_ban_round_def str_contains_iff by blast
  with broadcast_settles [OF assms] have b: "R E s (broadcast_pbft_stage E ''PRE_PREPARE'' tg ?ev t)"
    by (rule settles_ban)
  then have "R E s (on_pbft (ban_peer_local tg) (broadcast_pbft_stage E ''PRE_PREPARE'' tg ?ev t))"
    by (rule call_step [where op = "BanPeerLocal tg"]) (simp_all add: consensus_call_def on_pbft_def)
  with b assms show ?thesis by (auto simp: node_propose_ban_def Let_def)
qed

lemma initiate_settles: "settles R E ev tg s (initiate_consensus E tg ev s)"
  unfolding initiate_consensus_def using broadcast_settles on_peers_step
  by (simp add: settles_def [of R E ev tg s s])

lemma beacon_tick_step: "R E s (beacon_tick E ord s)"
proof -
  have "R E s (s\<lparr>mn_pbft := snd (drain_recent_bans (mn_pbft s))\<rparr>)"
    by (rule call_step [where op = DrainRecentBans and t = s]) (simp_all add: consensus_call_def)
  then show ?thesis
    unfolding beacon_tick_def Let_def drain_recent_bans_def by (auto intro!: beacon_step fold_step)
qed

lemma pex_steps [intro]:
  "R E s t \<Longrightarrow> R E s (snd (add_listed E' x t))"
  "R E s t \<Longrightarrow> R E s (snd (perform_pex_handshake E' ip port n t))"
proof -
  show add: "R E s t \<Longrightarrow> R E s (snd (add_listed E' x t))" for x t
    by (auto simp: add_listed_def split: prod.split)
  show "R E s t \<Longrightarrow> R E s (snd (perform_pex_handshake E' ip port n t))"
    by (auto simp: perform_pex_handshake_def Let_def intro!: fold_step add split: option.split)
qed

lemma process_pex_step: "R E s (process_pex E' buf s)"
proof -
  have "R E s (accept_listed E' x t)" if "R E s t" for x t
    using pex_steps [OF pex_steps(1) [OF that]] pex_steps(1) [OF that, of E' x]
    by (auto simp: accept_listed_def split: prod.split)
  then show ?thesis unfolding process_pex_def Let_def by (auto intro!: fold_step emit_step)
qed

lemma telemetry_gossip_step: "R E s t \<Longrightarrow> R E s (process_telemetry_gossip E' msg t)"
  by (auto simp: process_telemetry_gossip_def split: option.split)

lemma tls_steps:
  "R E s (tls_worker_step E s)" "R E s (tls_accept E fd info s)" "R E s (disconnect_tls_peer E n s)"
proof -
  have "R E s (snd (connect_tls_to_peer E n ip port t))" if "R E s t" for n ip port t
    using that by (auto simp: connect_tls_to_peer_def Let_def)
  moreover have "R E s (s\<lparr>mn_tls_queue := q\<rparr>)" for q by (rule core_ok) (simp add: same_core_def)
  ultimately show "R E s (tls_worker_step E s)" by (auto simp: tls_worker_step_def split: list.split)
  show "R E s (tls_accept E fd info s)" unfolding tls_accept_def Let_def
    by (auto intro!: emit_step on_peers_step split: list.split option.split)
  show "R E s (disconnect_tls_peer E n s)" unfolding disconnect_tls_peer_def
    by (auto intro!: emit_step on_peers_step split: option.split)
qed

lemma liveness_step: "R E s (liveness_tick E s)"
proof -
  have calls: "R E s (on_pbft (prune_peer n) t)" "R E s (on_pbft advance_view t)" if "R E s t" for n t
    using call_step [OF that, of "PrunePeer n"] call_step [OF that, of AdvanceView]
    by (simp_all add: consensus_call_def on_pbft_def)
  have "R E s (prune_one E n t)" "R E s (check_stalled E n t)" if "R E s t" for n t
    using that by (auto simp: prune_one_def check_stalled_def Let_def
        intro!: calls on_peers_step emit_step split: option.split)
  then show ?thesis unfolding liveness_tick_def prune_stale_peers_def Let_def by (auto intro!: fold_step)
qed

lemma handle_vote_settles:
  assumes "R E s t"
  shows "\<exists>ev tg. settles R E ev tg s (handle_vote E tokens t)"
proof (cases "read_vote (mn_max_evidence_size t) tokens")
  case None
  with assms show ?thesis by (auto simp: handle_vote_def settles_def)
next
  case (Some msg)
  define u where "u = (if target_id msg = mn_node_id t then t\<lparr>mn_last_targeted_at := env_now E\<rparr> else t)"
  have "R E s u" unfolding u_def using assms by (auto intro: local_step simp: same_core_def)
  then have v: "R E s (snd (cast_vote E msg u))" by blast
  note b = broadcast_settles [OF v] broadcast_settles [OF telemetry_step [OF journal_step [OF v]]]
    executed_settles(2) [OF v cast_vote_executed]
  show ?thesis
    by (rule exI [of _ "evidence_json msg"], rule exI [of _ "target_id msg"])
      (use assms v b in \<open>simp add: handle_vote_def Some Let_def settles_def [of R E _ _ s t]
        settles_def [of R E _ _ s "snd (cast_vote E msg u)"] flip: u_def\<close>)
qed

lemma welcome_from:
  assumes "R E s (if dual \<and> \<not> has_peer (mn_pbft t) (bc_peer_id b)
                  then register_confirmed E (bc_peer_id b) (bc_pem b) t else t)"
  shows "R E s (welcome_peer E b ip dual t)"
proof -
  define t1 where "t1 = (if dual \<and> \<not> has_peer (mn_pbft t) (bc_peer_id b)
      then trust_cert E b (register_confirmed E (bc_peer_id b) (bc_pem b) t) else t)"
  define t2 where "t2 = (if env_has_enforcer E then emit (EnforcerIp (bc_peer_id b) ip) t1 else t1)"
  define t3 where "t3 = (if env_has_enforcer E \<and> bc_tcp_port b > 0 then emit (EnforcerPort (bc_peer_id b) (bc_tcp_port b)) t2 else t2)"
  define t4 where "t4 = (if pm_has_peer (mn_peers t3) (bc_peer_id b)
      then snd (perform_pex_handshake E ip (bc_tcp_port b) (bc_peer_id b) t3) else t3)"
  have "R E s t1" using assms by (auto simp: t1_def trust_cert_def Let_def intro: emit_step split: if_splits)
  then have "R E s t3" by (auto simp: t2_def t3_def intro!: emit_step)
  then have "R E s t4" by (auto simp: t4_def)
  moreover have "R E s (t4\<lparr>mn_tls_queue := q\<rparr>)" for q
    by (rule local_step [OF \<open>R E s t4\<close>]) (simp add: same_core_def)
  ultimately show ?thesis
    unfolding welcome_peer_def Let_def t1_def [symmetric] t2_def [symmetric] t3_def [symmetric] t4_def [symmetric]
    by simp
qed

text \<open>The two places that register a peer, up to the registration and from it on.\<close>

lemma accept_beacon_cases:
  assumes "bc_pem b \<noteq> []"
  obtains "R E s (accept_beacon E b ip s)"
  | t where "same_core s t" "confirmed_before (bc_peer_id b) PATH_ANNOUNCE (bc_pem b) (mn_peers s)"
      "\<not> has_peer (mn_pbft s) (bc_peer_id b)"
      "R E (register_confirmed E (bc_peer_id b) (bc_pem b) t) (accept_beacon E b ip s)"
proof -
  define s1 where "s1 = (if bc_has_fingerprint b \<and> bc_fingerprint b \<noteq> []
    then on_peers (pin_tls_fingerprint (env_now E) (bc_peer_id b) (bc_fingerprint b)) s else s)"
  define pm where "pm = add_peer (env_now E) (bc_peer_id b) ip (bc_tcp_port b) (bc_tls_port b) (bc_pem b) (mn_peers s1)"
  define c where "c = confirm_path (bc_peer_id b) PATH_BEACON (bc_pem b) (snd pm)"
  define s2 where "s2 = s1\<lparr>mn_peers := snd c\<rparr>"
  define s3 where "s3 = (if \<not> fst pm then refresh_peer E b ip s2 else s2)"
  define dual where "dual = dual_confirmed (fst c)"
  have core: "same_core s s1" "same_core s s2" "same_core s s3"
    by (simp_all add: s1_def s2_def s3_def refresh_peer_def on_peers_def same_core_def Let_def)
  have acc: "accept_beacon E b ip s =
    (if bc_has_fingerprint b \<and> bc_fingerprint b \<noteq> [] \<and> \<not> verify_tls_cert (mn_peers s) (bc_peer_id b) (bc_fingerprint b) then s
     else if key_mismatch (fst c) then s2
     else if fst pm \<or> dual then welcome_peer E b ip dual s3 else s3)"
    unfolding accept_beacon_def Let_def case_prod_beta s1_def [symmetric] pm_def [symmetric] c_def [symmetric]
      s2_def [symmetric] s3_def [symmetric] dual_def [symmetric] by (rule refl)
  note R23 = core_ok [OF core(2), of E] core_ok [OF core(3), of E]
  have pbft: "mn_pbft s3 = mn_pbft s" using core(3) by (simp add: same_core_def)
  show thesis
  proof (cases "dual \<and> \<not> has_peer (mn_pbft s) (bc_peer_id b)")
    case True
    have "m_peers (mn_peers s1) = m_peers (mn_peers s)"
      "m_pre_provisioned_keys (mn_peers s1) = m_pre_provisioned_keys (mn_peers s)"
      by (simp_all add: s1_def on_peers_def pin_tls_fingerprint_def Let_def)
    moreover have "confirmed_before (bc_peer_id b) PATH_ANNOUNCE (bc_pem b) (mn_peers s1)"
      using True assms by (auto intro: confirm_dual simp: dual_def c_def pm_def)
    ultimately have "confirmed_before (bc_peer_id b) PATH_ANNOUNCE (bc_pem b) (mn_peers s)"
      by (rule confirmed_before_cong)
    moreover have "R E (register_confirmed E (bc_peer_id b) (bc_pem b) s3) (welcome_peer E b ip dual s3)"
      by (rule welcome_from) (use True pbft in simp)
    moreover have "accept_beacon E b ip s = welcome_peer E b ip dual s3 \<or> R E s (accept_beacon E b ip s)"
      using R23 unfolding acc by auto
    ultimately show thesis using that(1) that(2) [OF core(3)] True by auto
  next
    case False
    then have "R E s (welcome_peer E b ip dual s3)" using R23 pbft by (intro welcome_from) auto
    then show thesis using that(1) R23 unfolding acc by (auto split: if_splits)
  qed
qed

lemma handle_announce_cases:
  obtains "R E s (handle_announce E tokens ip s)"
  | t p k where "same_core s t" "read_announce (env_ssl E) (mn_node_id s) tokens = Some (p, k)"
      "confirmed_before p PATH_BEACON k (mn_peers s)" "\<not> has_peer (mn_pbft s) p"
      "R E (register_confirmed E p k t) (handle_announce E tokens ip s)"
proof (cases "read_announce (env_ssl E) (mn_node_id s) tokens")
  case None
  with that(1) show thesis by (simp add: handle_announce_def)
next
  case (Some pk)
  obtain p k where pk: "pk = (p, k)" by fastforce
  define pm where "pm = snd (add_peer (env_now E) p ip 0 0 k (add_known_ip p (mn_peers s)))"
  define c where "c = confirm_path p PATH_ANNOUNCE k pm"
  define s2 where "s2 = s\<lparr>mn_peers := snd c\<rparr>"
  define s3 where "s3 = (if dual_confirmed (fst c) \<and> \<not> has_peer (mn_pbft s2) p then register_confirmed E p k s2 else s2)"
  have core: "same_core s s2" by (simp add: s2_def same_core_def)
  define u where "u = (if env_has_enforcer E then emit (EnforcerIp p ip) s3 else s3)"
  have acc: "handle_announce E tokens ip s =
    (if key_mismatch (fst c) then s2
     else if is_known_ip (mn_peers s) p
     then if dsecs (env_now E - mn_last_announce_time u) \<ge> 2 then announce_identity E (u\<lparr>mn_last_announce_time := env_now E\<rparr>) else u
     else announce_identity E u)"
    unfolding handle_announce_def Some option.case pk prod.case fst_conv snd_conv Let_def case_prod_beta pm_def [symmetric] c_def [symmetric]
      s2_def [symmetric] s3_def [symmetric] u_def [symmetric] by simp
  have rest: "R E r (handle_announce E tokens ip s)" if "R E r s3" "R E r s2" for r
  proof -
    have u: "R E r u" using that by (auto simp: u_def intro: emit_step)
    then have "R E r (u\<lparr>mn_last_announce_time := env_now E\<rparr>)" by (rule local_step) (simp add: same_core_def)
    with u that show ?thesis unfolding acc by auto
  qed
  show thesis
  proof (cases "dual_confirmed (fst c) \<and> \<not> has_peer (mn_pbft s) p \<and> \<not> key_mismatch (fst c)")
    case True
    have "k \<noteq> []" using Some by (auto simp: pk read_announce_def Let_def split: if_splits option.splits)
    with True have "confirmed_before p PATH_BEACON k (add_known_ip p (mn_peers s))"
      by (auto intro: confirm_dual simp: c_def pm_def)
    then have "confirmed_before p PATH_BEACON k (mn_peers s)"
      by (rule confirmed_before_cong [rotated 2]) (simp_all add: add_known_ip_def)
    moreover have s3: "s3 = register_confirmed E p k s2" using True by (simp add: s3_def s2_def)
    have u: "R E s3 u" by (auto simp: u_def intro: emit_step)
    then have "R E s3 (u\<lparr>mn_last_announce_time := env_now E\<rparr>)" by (rule local_step) (simp add: same_core_def)
    with u True have "R E s3 (handle_announce E tokens ip s)" unfolding acc by auto
    ultimately show thesis using that(2) [OF core, of p k] Some True unfolding s3 pk by blast
  next
    case False
    then have "s3 = s2 \<or> handle_announce E tokens ip s = s2" by (auto simp: s3_def s2_def acc)
    with rest [of s] core_ok [OF core, of E] show thesis by (auto intro: that(1))
  qed
qed

lemma discovery_cases:
  assumes "discovery_datagram E buf ip s = Some u"
  obtains "R E s u"
  | t p k where "same_core s t" "completes E (DiscoveryDatagram ip buf) s p k" "\<not> has_peer (mn_pbft s) p"
      "R E (register_confirmed E p k t) u"
proof -
  obtain ok pm where rl: "pm_check_rate_limit (env_ip_ord E) (env_now E) ip (mn_peers s) = (ok, pm)" by fastforce
  define s1 where "s1 = s\<lparr>mn_peers := pm\<rparr>"
  have s1: "R E s s1" "mn_pbft s1 = mn_pbft s" "mn_node_id s1 = mn_node_id s" by (auto simp: s1_def)
  let ?tokens = "split_string (c_string buf) (CHR ''|'')"
  consider "R E s u" | b where "read_beacon (env_ssl E) (mn_node_id s) (now_us E) ?tokens = Some b" "u = accept_beacon E b ip s1"
    using assms s1 telemetry_gossip_step [OF s1(1)]
    by (auto simp: discovery_datagram_def rl process_discovery_beacon_def Let_def split: if_splits option.splits simp flip: s1_def)
  then show thesis
  proof cases
    case (2 b)
    show thesis
    proof (rule accept_beacon_cases [where E = E and s = s1 and ip = ip, OF read_beacon_pem [OF 2(1)]])
      assume "R E s1 (accept_beacon E b ip s1)"
      then show thesis using chain [OF s1(1)] 2(2) that(1) by blast
    next
      fix t
      assume 3: "same_core s1 t" "confirmed_before (bc_peer_id b) PATH_ANNOUNCE (bc_pem b) (mn_peers s1)"
        "\<not> has_peer (mn_pbft s1) (bc_peer_id b)"
        "R E (register_confirmed E (bc_peer_id b) (bc_pem b) t) (accept_beacon E b ip s1)"
      have "confirmed_before (bc_peer_id b) PATH_ANNOUNCE (bc_pem b) (mn_peers s)"
        by (rule confirmed_before_cong [OF rate_limit_frame [OF rl]]) (use 3(2) in \<open>simp add: s1_def\<close>)
      with 2 3 s1 that(2) [of t "bc_peer_id b" "bc_pem b"] show thesis by (simp add: same_core_def s1_def)
    qed
  qed (rule that(1))
qed

lemma message_cases:
  assumes "u = consensus_datagram E buf ip s"
  obtains ev tg where "settles R E ev tg s u"
  | t p k where "same_core s t" "completes E (ConsensusDatagram ip buf) s p k" "\<not> has_peer (mn_pbft s) p"
      "R E (register_confirmed E p k t) u"
proof -
  obtain ok pm where rl: "pm_check_rate_limit (env_ip_ord E) (env_now E) ip (mn_peers s) = (ok, pm)" by fastforce
  define s1 where "s1 = s\<lparr>mn_peers := pm\<rparr>"
  have s1: "R E s s1" "mn_pbft s1 = mn_pbft s" "mn_node_id s1 = mn_node_id s" by (auto simp: s1_def)
  let ?tokens = "split_string (c_string buf) (CHR ''|'')"
  consider "R E s u" | "u = handle_announce E ?tokens ip s1" | "u = handle_vote E ?tokens s1"
    using assms s1 by (auto simp: consensus_datagram_def rl process_message_def Let_def split: if_splits simp flip: s1_def)
  then show thesis
  proof cases
    case 1
    then show thesis using that(1) by (simp add: settles_def)
  next
    case 2
    show thesis
    proof (rule handle_announce_cases [where E = E and s = s1 and tokens = ?tokens and ip = ip])
      assume "R E s1 (handle_announce E ?tokens ip s1)"
      then show thesis using chain [OF s1(1)] 2 that(1) by (auto simp: settles_def)
    next
      fix t p k
      assume a: "same_core s1 t" "read_announce (env_ssl E) (mn_node_id s1) ?tokens = Some (p, k)"
        "confirmed_before p PATH_BEACON k (mn_peers s1)" "\<not> has_peer (mn_pbft s1) p"
        "R E (register_confirmed E p k t) (handle_announce E ?tokens ip s1)"
      have "confirmed_before p PATH_BEACON k (mn_peers s)"
        by (rule confirmed_before_cong [OF rate_limit_frame [OF rl]]) (use a(3) in \<open>simp add: s1_def\<close>)
      with a 2 s1 that(2) [of t p k] show thesis by (simp add: same_core_def s1_def)
    qed
  next
    case 3
    with handle_vote_settles [OF s1(1)] that(1) show thesis by blast
  qed
qed

lemma step_cases:
  assumes "mesh_step E ev s = Some u"
  obtains e tg where "settles R E e tg s u"
  | t p k where "same_core s t" "completes E ev s p k" "\<not> has_peer (mn_pbft s) p" "R E (register_confirmed E p k t) u"
proof -
  note out = that
  have inside: thesis if "R E s u" using out(1) that by (auto simp: settles_def)
  show thesis
  proof (cases ev)
    case (ConsensusDatagram ip buf)
    then have "u = consensus_datagram E buf ip s" using assms by simp
    then show thesis by (rule message_cases) (use out ConsensusDatagram in blast)+
  next
    case (DiscoveryDatagram ip buf)
    then have "discovery_datagram E buf ip s = Some u" using assms by simp
    then show thesis by (rule discovery_cases) (use inside out DiscoveryDatagram in blast)+
  next
    case (InitiateConsensus tg e)
    then have "settles R E e tg s u" using assms initiate_settles [of E e tg s] by simp
    then show thesis by (rule out(1))
  next
    case (UnpinPeerKey n)
    then have "R E s u" using assms on_peers_step [OF start, of E s "unpin_peer_key n"]
      by (simp add: node_unpin_peer_key_def split: if_splits)
    then show thesis by (rule inside)
  next
    case (PortsBound tcp tls)
    then have "R E s u" using assms by (intro core_ok) (auto simp: same_core_def)
    then show thesis by (rule inside)
  qed (rule inside, insert assms, clarsimp simp: process_pex_step tls_steps liveness_step beacon_tick_step
      announce_step gossip_steps node_propose_ban_step)+
qed

end

locale mitigating = handlers +
  assumes mitigate_ok: "R E s (emit (Mitigate ev tg) s)"
begin

lemma settled: "settles R E ev tg s u \<Longrightarrow> R E s u"
  by (auto simp: settles_def run_mitigation_def intro: chain [OF _ mitigate_ok])

end

locale registering = handlers +
  assumes register_ok: "R E s (register_confirmed E p k s)"
begin

lemma step_settles:
  assumes "mesh_step E ev s = Some u"
  obtains e tg where "settles R E e tg s u"
  using assms
proof (rule step_cases)
  fix t p k
  assume "same_core s t" "R E (register_confirmed E p k t) u"
  then have "R E s u" by (rule chain [OF chain [OF core_ok register_ok]])
  then show thesis using that by (auto simp: settles_def)
qed (rule that)

end

locale all_handlers = mitigating R + registering R for R
begin

lemma step_inside: "mesh_step E ev s = Some u \<Longrightarrow> R E s u"
  by (erule step_settles) (rule settled)

end


section \<open>The three relations\<close>

interpretation outs: registering unmitigated
proof
  fix E :: mesh_env and s s' t u x ts ty tg ev sig op p k
  show "unmitigated E s s" by (simp add: unmitigated_def)
  show "unmitigated E s t \<Longrightarrow> unmitigated E t u \<Longrightarrow> unmitigated E s u" by (auto simp: unmitigated_def)
  show "same_core s s' \<Longrightarrow> unmitigated E s s'" by (simp add: unmitigated_def same_core_def)
  show "\<not> is_mitigate x \<Longrightarrow> unmitigated E s (emit x s)" by (simp add: unmitigated_def emit_def)
  show "unmitigated E s (s\<lparr>mn_proof_chain := proof_append (env_ssl E) ts ty tg ev sig (mn_proof_chain s)\<rparr>)"
    by (simp add: unmitigated_def)
  show "unmitigated E s (consensus_call E op s)" by (simp add: unmitigated_def consensus_call_def)
  show "unmitigated E s (register_confirmed E p k s)" by (simp add: unmitigated_def register_confirmed_def on_pbft_def)
qed

lemma keys_frames:
  "m_registered_peers (record_success n p) = m_registered_peers p"
  "m_peer_public_keys (record_success n p) = m_peer_public_keys p"
  "m_registered_peers (record_failure now n p) \<subseteq> m_registered_peers p"
  "m_peer_public_keys (record_failure now n p) \<subseteq>\<^sub>m m_peer_public_keys p"
  by (auto simp: record_success_def record_failure_def prune_peer_locked_def Let_def map_le_def)

lemma advance_state_keys:
  "m_registered_peers (snd (advance_state L evict now msg p)) \<subseteq> m_registered_peers p
   \<and> m_peer_public_keys (snd (advance_state L evict now msg p)) \<subseteq>\<^sub>m m_peer_public_keys p"
proof -
  obtain ok s1 where rl: "check_rate_limit now (sender_id msg) (cleanup_stale_rounds now p) = (ok, s1)" by fastforce
  then have s1: "m_registered_peers s1 = m_registered_peers p" "m_peer_public_keys s1 = m_peer_public_keys p"
    using check_rate_limit_eq [OF rl] by (auto simp: cleanup_stale_rounds_def)
  have vote: "m_registered_peers (snd (register_vote now key msg h s)) = m_registered_peers s"
    "m_peer_public_keys (snd (register_vote now key msg h s)) = m_peer_public_keys s" for key h s
    by (auto simp: register_vote_def count_vote_def put_round_def set_voters_def Let_def)
  have eq: "m_registered_peers (detect_equivocation now msg h s) = m_registered_peers s"
    "m_registered_peers (see_message evict h s) = m_registered_peers s" for h s
    by (simp_all add: detect_equivocation_def record_equivocation_def see_message_def Let_def split: option.split)
  show ?thesis
    using keys_frames(3,4) [of now "sender_id msg" s1]
    by (simp add: advance_state_def rl Let_def s1 vote eq)
qed

lemma call_keys:
  assumes "adds_no_peer op"
  shows "m_registered_peers (pbft_apply L evict op p) \<subseteq> m_registered_peers p
     \<and> m_peer_public_keys (pbft_apply L evict op p) \<subseteq>\<^sub>m m_peer_public_keys p"
proof (cases op)
  case (VerifyMessage now msg)
  then show ?thesis using keys_frames [where n = "sender_id msg"] by (simp add: verify_message_def split: option.split)
qed (use assms advance_state_keys in \<open>auto simp: set_round_commit_sig_def put_round_def prune_peer_def prune_peer_locked_def
    drain_recent_bans_def ban_peer_local_def ban_peer_locked_def advance_view_def map_le_def\<close>)

interpretation peers: mitigating no_new_peer
proof
  fix E :: mesh_env and s s' t u x ts ty tg ev sig op
  show "no_new_peer E s s" by (simp add: no_new_peer_def)
  show "no_new_peer E s t \<Longrightarrow> no_new_peer E t u \<Longrightarrow> no_new_peer E s u"
    by (auto simp: no_new_peer_def intro: map_le_trans)
  show "same_core s s' \<Longrightarrow> no_new_peer E s s'" by (simp add: no_new_peer_def same_core_def)
  show "no_new_peer E s (emit x s)" by (simp add: no_new_peer_def)
  show "no_new_peer E s (s\<lparr>mn_proof_chain := proof_append (env_ssl E) ts ty tg ev sig (mn_proof_chain s)\<rparr>)"
    by (simp add: no_new_peer_def)
  show "adds_no_peer op \<Longrightarrow> no_new_peer E s (consensus_call E op s)"
    using call_keys by (simp add: no_new_peer_def consensus_call_def)
  show "no_new_peer E s (emit (Mitigate ev tg) s)" by (simp add: no_new_peer_def)
qed

lemma pbft_run_append: "pbft_run L evict (xs @ ys) p = pbft_run L evict ys (pbft_run L evict xs p)"
  by (simp add: pbft_run_def)

lemma pbft_run_simps [simp]:
  "pbft_run L evict [] p = p" "pbft_run L evict (op # ops) p = pbft_run L evict ops (pbft_apply L evict op p)"
  by (simp_all add: pbft_run_def)

interpretation calls: all_handlers driven
proof
  fix E :: mesh_env and s s' t u x ts ty tg ev sig op p k
  show "driven E s s" by (auto simp: driven_def intro: exI [of _ "[]"])
  show "driven E s t \<Longrightarrow> driven E t u \<Longrightarrow> driven E s u"
    unfolding driven_def by (auto simp flip: pbft_run_append)
  show "same_core s s' \<Longrightarrow> driven E s s'" by (auto simp: driven_def same_core_def intro: exI [of _ "[]"])
  show e: "driven E s (emit x s)" for x by (auto simp: driven_def emit_def intro: exI [of _ "[]"])
  show "driven E s (s\<lparr>mn_proof_chain := proof_append (env_ssl E) ts ty tg ev sig (mn_proof_chain s)\<rparr>)"
    by (auto simp: driven_def chain_inv_append intro: exI [of _ "[]"])
  show "driven E s (consensus_call E op s)" by (auto simp: driven_def consensus_call_def intro!: exI [of _ "[op]"])
  show "driven E s (emit (Mitigate ev tg) s)" by (rule e)
  show "driven E s (register_confirmed E p k s)"
    by (auto simp: driven_def register_confirmed_def on_pbft_def intro!: exI [of _ "[RegisterPeerKey p k, IncrementPeers]"])
qed


section \<open>Runs of a node\<close>

lemma provision_reach:
  "pbft_reach L evict (mn_pbft s) \<Longrightarrow> pbft_reach L evict (mn_pbft (fold (provision_key L) xs s))"
proof (induction xs arbitrary: s)
  case (Cons x xs)
  have "pbft_reach L evict (mn_pbft (provision_key L x s))"
    using pbft_reach_run [OF Cons.prems, of "[RegisterPeerKey (fst x) (snd x), IncrementPeers]"]
    by (simp add: provision_key_def on_pbft_def on_peers_def)
  then show ?case using Cons.IH by simp
qed simp

lemma provision_frame [simp]:
  "mn_proof_chain (fold (provision_key L) xs s) = mn_proof_chain s" "mn_node_id (fold (provision_key L) xs s) = mn_node_id s"
  by (induction xs arbitrary: s) (simp_all add: provision_key_def on_pbft_def on_peers_def)

lemma new_mesh_node_parts:
  "pbft_reach L evict (mn_pbft (new_mesh_node L n key pk cert fds j getenv))"
  "chain_inv L (mn_proof_chain (new_mesh_node L n key pk cert fds j getenv))"
  "mn_node_id (new_mesh_node L n key pk cert fds j getenv) = n"
proof -
  let ?p = "new_pbft L (getenv ''NEURO_PBFT_RATE_WINDOW'') (getenv ''NEURO_PBFT_RATE_MAX'') 1"
  have "pbft_reach L evict (set_private_key (Some pk) (set_my_identity n (register_peer_key L n (get_pem_from_pubkey L key) ?p)))"
    using pbft_reach_run [OF pbft_reach.start, of L evict
        "[RegisterPeerKey n (get_pem_from_pubkey L key), SetMyIdentity n, SetPrivateKey (Some pk)]"] by simp
  then show "pbft_reach L evict (mn_pbft (new_mesh_node L n key pk cert fds j getenv))"
    unfolding new_mesh_node_def Let_def by (auto intro!: provision_reach split: prod.split)
qed (simp_all add: new_mesh_node_def Let_def chain_inv_new split: prod.split)

lemma mesh_run_driven:
  assumes "mesh_run evs s = Some u" "list_all (\<lambda>(E, ev). env_ssl E = L \<and> env_evict E = evict) evs"
    and "pbft_reach L evict (mn_pbft s)" "chain_inv L (mn_proof_chain s)"
  shows "pbft_reach L evict (mn_pbft u) \<and> chain_inv L (mn_proof_chain u) \<and> mn_node_id u = mn_node_id s"
  using assms
proof (induction evs arbitrary: s)
  case (Cons x evs)
  obtain E ev where x: "x = (E, ev)" by fastforce
  with Cons.prems obtain s' where s': "mesh_step E ev s = Some s'" "mesh_run evs s' = Some u"
    and env: "env_ssl E = L" "env_evict E = evict" by (auto split: option.splits)
  from calls.step_inside [OF s'(1)] Cons.prems(3,4) env
  have "pbft_reach L evict (mn_pbft s')" "chain_inv L (mn_proof_chain s')" "mn_node_id s' = mn_node_id s"
    unfolding driven_def env by (auto intro: pbft_reach_run)
  with Cons.IH [OF s'(2)] Cons.prems(2) show ?case by simp
qed simp



lemma mitigation_decided:
  assumes "mesh_step E ev s = Some s'" "Mitigate e t \<in> set (drop (length (mn_out s)) (mn_out s'))"
  shows "\<not> is_ban_round e \<and> 1 \<le> pm_peer_count (mn_peers s')
     \<and> quorum_size (mn_pbft s') \<le> int (card (voters (mn_pbft s') (round_key_of (env_ssl E) e t) ''COMMIT''))
     \<and> filter is_mitigate (drop (length (mn_out s)) (mn_out s')) = [Mitigate e t]"
  using assms(1)
proof (rule outs.step_settles)
  fix e' t'
  assume "settles unmitigated E e' t' s s'"
  moreover have "\<not> unmitigated E s s'" using assms(2) by (force simp: unmitigated_def list_all_iff)
  ultimately obtain v outs where v: "s' = emit (Mitigate e' t') v" "decided E e' t' v" "mn_out v = mn_out s @ outs"
    "list_all (\<lambda>x. \<not> is_mitigate x) outs"
    by (auto simp: settles_def run_mitigation_def unmitigated_def split: if_splits)
  then have "filter is_mitigate (drop (length (mn_out s)) (mn_out s')) = [Mitigate e' t']"
    by (simp add: emit_def list_all_iff)
  moreover have "Mitigate e t \<in> set (filter is_mitigate (drop (length (mn_out s)) (mn_out s')))" using assms(2) by simp
  ultimately have "e' = e" "t' = t" "filter is_mitigate (drop (length (mn_out s)) (mn_out s')) = [Mitigate e t]" by simp_all
  then show ?thesis using v by (simp add: decided_def quorum_reached_def)
qed

text \<open>
  C12. Mitigation follows a decision: when the processing of any event hands a target to the mitigation
  engine, the evidence does not order a ban, the node has at least one other peer, the members that
  voted \<open>COMMIT\<close> for exactly this evidence and target reach the quorum, and the event hands
  over no second target.
\<close>

theorem mitigation_needs_quorum:
  assumes "mesh_step E ev s = Some s'" "Mitigate e t \<in> set (drop (length (mn_out s)) (mn_out s'))"
  shows "\<not> is_ban_round e \<and> 1 \<le> pm_peer_count (mn_peers s')
     \<and> quorum_size (mn_pbft s') \<le> int (card (voters (mn_pbft s') (round_key_of (env_ssl E) e t) ''COMMIT''))
     \<and> filter is_mitigate (drop (length (mn_out s)) (mn_out s')) = [Mitigate e t]"
  using assms by (rule mitigation_decided)

lemma executed_by_peer_mitigates:
  assumes "env_has_mitigation E" "\<not> is_ban_round (evidence_json msg)" "stage_str msg \<noteq> ''BAN_PEER''"
    "1 \<le> pm_peer_count (mn_peers s)" "\<not> env_has_bridge E" "\<not> env_export_ok E" "mn_webhook_url s = []"
  shows "mn_out (executed_by_peer E msg s) = mn_out s @ [Mitigate (evidence_json msg) (target_id msg)]"
  using assms
  by (simp add: executed_by_peer_def run_mitigation_def append_proof_def export_file_def push_telemetry_def
      journal_event_def emit_def Let_def)

lemma demo_peers_empty: "mn_peers demo_node = new_peer_manager"
  by (simp add: demo_node_def new_mesh_node_def peer_keys_def Let_def)

lemma first_datagram:
  assumes "m_ip_limits pm = Map.empty"
  shows "pm_check_rate_limit ord 0 ip pm = (True, pm\<lparr>m_ip_limits := [ip \<mapsto> \<lparr>rl_count = 1, rl_window_start = 0\<rparr>]\<rparr>)"
  using assms by (simp add: pm_check_rate_limit_def pm_consts)

lemma process_message_vote:
  assumes "pm_check_rate_limit (env_ip_ord E) (env_now E) ip (mn_peers s) = (True, pm)" "validate_message msg"
    "length (split_string msg (CHR ''|'')) = 9" "split_string msg (CHR ''|'') ! 0 = ''VOTE''"
  shows "process_message E msg ip s = handle_vote E (split_string msg (CHR ''|'')) (s\<lparr>mn_peers := pm\<rparr>)"
  using assms by (simp add: process_message_def)

lemma process_message_announce:
  assumes "pm_check_rate_limit (env_ip_ord E) (env_now E) ip (mn_peers s) = (True, pm)" "validate_message msg"
    "length (split_string msg (CHR ''|'')) = 4" "split_string msg (CHR ''|'') ! 0 = ''ANNOUNCE''"
  shows "process_message E msg ip s = handle_announce E (split_string msg (CHR ''|'')) ip (s\<lparr>mn_peers := pm\<rparr>)"
  using assms by (simp add: process_message_def)

lemma demo_env_fields [simp]:
  "env_ssl demo_env = tiny_ssl" "env_evict demo_env = evict_sorted" "env_now demo_env = 0" "env_ip_ord demo_env = []"
  "env_has_mitigation demo_env" "\<not> env_has_enforcer demo_env" "\<not> env_has_bridge demo_env" "\<not> env_export_ok demo_env"
  by (simp_all add: demo_env_def)

lemma brink_mitigates:
  "mn_out brink_node = []"
  "mn_out (consensus_datagram demo_env last_vote_text ''10.0.0.3'' brink_node) = [Mitigate ''{\"pid\":1}'' ''T'']"
proof -
  have b: "mn_out brink_node = []" "mn_max_evidence_size brink_node = 4096" "mn_node_id brink_node = ''A''" "mn_webhook_url brink_node = []"
    using demo_node_fields by (simp_all add: brink_node_def)
  define s1 where "s1 = brink_node\<lparr>mn_peers := (mn_peers brink_node)\<lparr>m_ip_limits := [''10.0.0.3'' \<mapsto> \<lparr>rl_count = 1, rl_window_start = 0\<rparr>]\<rparr>\<rparr>"
  have s1: "mn_pbft s1 = brink_pbft" "pm_peer_count (mn_peers s1) = 1" "mn_node_id s1 = ''A''" "mn_max_evidence_size s1 = 4096" "mn_out s1 = []" "mn_webhook_url s1 = []"
    using b by (simp_all add: s1_def pm_peer_count_def brink_node_def)
  obtain q where vote: "cast_vote demo_env last_vote s1 = (EXECUTED, s1\<lparr>mn_pbft := q\<rparr>)"
  proof (cases demo_env last_vote s1 rule: cast_vote_cases)
    case (2 p q st)
    with last_vote_executes that show thesis by (simp add: s1)
  qed (use last_vote_executes s1 in simp)
  have msg: "evidence_json last_vote = ''{\"pid\":1}''" "target_id last_vote = ''T''" "stage_str last_vote = ''COMMIT''" "sender_id last_vote = ''C''"
    by (simp_all add: last_vote_def)
  have "\<not> is_ban_round ''{\"pid\":1}''" by (simp add: is_ban_round_def str_contains_def starts_with_def)
  then have v: "mn_out (executed_by_peer demo_env last_vote (s1\<lparr>mn_pbft := q\<rparr>)) = [Mitigate ''{\"pid\":1}'' ''T'']"
    using executed_by_peer_mitigates [of demo_env last_vote "s1\<lparr>mn_pbft := q\<rparr>"] s1 by (simp add: msg)
  have "mn_out (handle_vote demo_env (split_string last_vote_text (CHR ''|'')) s1) = [Mitigate ''{\"pid\":1}'' ''T'']"
    using last_vote_read vote v by (simp add: handle_vote_def s1 msg)
  moreover have "process_message demo_env last_vote_text ''10.0.0.3'' brink_node
      = handle_vote demo_env (split_string last_vote_text (CHR ''|'')) s1"
    unfolding s1_def by (rule process_message_vote)
      (use last_vote_read in \<open>simp_all add: first_datagram brink_node_def demo_peers_empty new_peer_manager_def\<close>)
  moreover have "last_vote_text \<noteq> []" by (simp add: last_vote_text_def)
  ultimately show "mn_out (consensus_datagram demo_env last_vote_text ''10.0.0.3'' brink_node) = [Mitigate ''{\"pid\":1}'' ''T'']"
    using last_vote_read by (simp add: consensus_datagram_def)
  show "mn_out brink_node = []" by (rule b)
qed

theorem mitigation_needs_quorum_witness:
  "let s' = consensus_datagram demo_env last_vote_text ''10.0.0.3'' brink_node
   in quorum_size (mn_pbft s') \<le> int (card (voters (mn_pbft s') (round_key_of tiny_ssl ''{\"pid\":1}'' ''T'') ''COMMIT''))"
  using mitigation_needs_quorum [of demo_env "ConsensusDatagram ''10.0.0.3'' last_vote_text" brink_node _ "''{\"pid\":1}''" "''T''"]
  by (simp add: brink_mitigates Let_def)

text \<open>
  C13. A key enters the consensus machine only when both discovery paths agree on it: when the
  processing of an event registers a new peer, the event is a beacon or an announcement of that peer
  whose signature verifies under the key it carries; the other path had been confirmed for the peer
  before; the key is the pre-provisioned one, if there is one, and otherwise the one stored with the
  peer, unless the operator has unpinned it; and no other key is registered for the peer.
\<close>

theorem registration_needs_both_paths:
  assumes "mesh_step E ev s = Some s'" "has_peer (mn_pbft s') p" "\<not> has_peer (mn_pbft s) p"
  shows "\<exists>k. completes E ev s p k \<and> m_peer_public_keys (mn_pbft s') p \<in> {None, Some (get_pubkey_from_pem (env_ssl E) k)}"
  using assms(1)
proof (rule peers.step_cases)
  fix e tg
  assume "settles no_new_peer E e tg s s'"
  then have "no_new_peer E s s'" by (rule peers.settled)
  with assms(2,3) show ?thesis by (auto simp: no_new_peer_def has_peer_def)
next
  fix t q k
  assume a: "same_core s t" "completes E ev s q k" "no_new_peer E (register_confirmed E q k t) s'"
  then have "p = q"
    using assms(2,3)
    by (auto simp: no_new_peer_def has_peer_def register_confirmed_def on_pbft_def increment_peers_def register_peer_key_def same_core_def)
  moreover have "m_peer_public_keys (mn_pbft s') q \<in> {None, Some (get_pubkey_from_pem (env_ssl E) k)}"
    using a(3) by (auto simp: no_new_peer_def map_le_def dom_def register_confirmed_def on_pbft_def increment_peers_def register_peer_key_def)
  ultimately show ?thesis using a(2) by blast
qed

lemma announce_registers:
  "has_peer (mn_pbft (consensus_datagram demo_env announce_text ''10.0.0.2'' beacon_seen)) ''B''"
proof -
  define s1 where "s1 = beacon_seen\<lparr>mn_peers := (mn_peers beacon_seen)\<lparr>m_ip_limits := [''10.0.0.2'' \<mapsto> \<lparr>rl_count = 1, rl_window_start = 0\<rparr>]\<rparr>\<rparr>"
  have peers: "m_peers (mn_peers s1) = [''B'' \<mapsto> default_peer\<lparr>pe_node_id := ''B'', pe_public_key_pem := demo_pem, pe_confirmed_paths := PATH_BEACON\<rparr>]"
    "m_pre_provisioned_keys (mn_peers s1) = Map.empty"
    by (simp_all add: s1_def beacon_seen_def demo_peers_empty new_peer_manager_def)
  have s1: "mn_node_id s1 = ''A''" "''B'' \<notin> m_registered_peers (mn_pbft s1)"
    using demo_node_fields by (simp_all add: s1_def beacon_seen_def)
  have "has_peer (mn_pbft (handle_announce demo_env (split_string announce_text (CHR ''|'')) ''10.0.0.2'' s1)) ''B''"
    using announce_read s1 peers
    by (simp add: handle_announce_def Let_def add_peer_def add_known_ip_def confirm_path_def confirm_entry_def
        mark_path_def both_paths_def pm_consts register_confirmed_def on_pbft_def increment_peers_def register_peer_key_def
        has_peer_def announce_identity_def send_udp_broadcast_def)
  moreover have "process_message demo_env announce_text ''10.0.0.2'' beacon_seen
      = handle_announce demo_env (split_string announce_text (CHR ''|'')) ''10.0.0.2'' s1"
    unfolding s1_def by (rule process_message_announce)
      (use announce_read in \<open>simp_all add: first_datagram beacon_seen_def demo_peers_empty new_peer_manager_def\<close>)
  moreover have "announce_text \<noteq> []" by (simp add: announce_text_def)
  ultimately show ?thesis using announce_read by (simp add: consensus_datagram_def)
qed

theorem registration_needs_both_paths_witness:
  "\<exists>k. completes demo_env (ConsensusDatagram ''10.0.0.2'' announce_text) beacon_seen ''B'' k"
proof -
  have "\<not> has_peer (mn_pbft beacon_seen) ''B''" using demo_node_fields by (simp add: beacon_seen_def has_peer_def)
  from registration_needs_both_paths [OF _ announce_registers this, of demo_env "ConsensusDatagram ''10.0.0.2'' announce_text"]
  show ?thesis by auto
qed


lemma split_string_empty: "split_string m d = [] \<longleftrightarrow> m = []"
proof -
  have "getline_from d acc m = [] \<longleftrightarrow> acc = [] \<and> m = []" for acc
    by (induction d acc m rule: getline_from.induct) auto
  then show ?thesis by (simp add: split_string_def getline_tokens_def)
qed

lemma beacon_undefined: "process_discovery_beacon E m ip s = None \<longleftrightarrow> m = []"
  by (simp add: process_discovery_beacon_def Let_def split_string_empty split: option.split)

text \<open>
  A datagram on the discovery port makes the node access a token that does not exist exactly when
  its first byte is zero and the rate limit of its source lets it pass; every other event is
  processed to its end.
\<close>

theorem zero_byte_datagram:
  "(discovery_datagram E buf ip s = None \<longleftrightarrow>
      buf \<noteq> [] \<and> hd buf = CHR 0x00 \<and> fst (pm_check_rate_limit (env_ip_ord E) (env_now E) ip (mn_peers s)))
   \<and> (mesh_step E ev s = None \<longleftrightarrow> (\<exists>ip buf. ev = DiscoveryDatagram ip buf \<and> discovery_datagram E buf ip s = None))"
proof -
  have "discovery_datagram E buf ip s = None \<longleftrightarrow>
      buf \<noteq> [] \<and> hd buf = CHR 0x00 \<and> fst (pm_check_rate_limit (env_ip_ord E) (env_now E) ip (mn_peers s))"
  proof (cases "pm_check_rate_limit (env_ip_ord E) (env_now E) ip (mn_peers s)")
    case (Pair ok pm)
    have "c_string buf = [] \<longleftrightarrow> buf = [] \<or> hd buf = CHR 0x00" by (cases buf) (auto simp: c_string_def)
    then show ?thesis
      by (auto simp: discovery_datagram_def Pair beacon_undefined Let_def starts_with_def)
  qed
  then show ?thesis by (cases ev) auto
qed

text \<open>
  The check that a node has another peer before it mitigates does not see who the peer is: a
  peer exchange request, which nobody signs, with one listed peer raises the count of a new node from
  zero to one, while the consensus machine still has the node as its only member, so that the quorum
  is the node's own vote.
\<close>

theorem listed_peer_passes_guard:
  "let s = new_mesh_node L ''A'' key pk cert fds j (\<lambda>_. None);
       s' = process_pex (E\<lparr>env_pex := \<lambda>_ _ _. None\<rparr>) ''PEX|X|1|B:10.0.0.9:1'' s
   in pm_peer_count (mn_peers s) = 0 \<and> pm_peer_count (mn_peers s') = 1
      \<and> mn_pbft s' = mn_pbft s \<and> quorum_size (mn_pbft s') = 1 \<and> m_registered_peers (mn_pbft s') = {''A''}"
proof -
  let ?buf = "''PEX|X|1|B:10.0.0.9:1''"
  have buf: "c_string ?buf = ?buf" "split_string ?buf (CHR ''|'') = [''PEX'', ''X'', ''1'', ''B:10.0.0.9:1'']"
    "pex_peers ''A'' ''B:10.0.0.9:1'' = [(''B'', ''10.0.0.9'', 1)]"
    by code_simp+
  obtain a b c d where fds: "fds = (a, b, c, d)" by (cases fds)
  show ?thesis
    by (simp add: process_pex_def buf new_mesh_node_def fds peer_keys_def accept_listed_def add_listed_def add_peer_def
        new_peer_manager_def perform_pex_handshake_def emit_def pm_peer_count_def quorum_size_def quorum_of_def new_pbft_def
        register_peer_key_def set_my_identity_def set_private_key_def Let_def)
qed

end
