(* ===== verification/Enforcer.thy ===== *)
theory Enforcer
  imports Net "HOL-Library.Code_Target_Numeral"
begin

text \<open>
  \<open>enforcer/PolicyEnforcer.{hpp,cpp}\<close>: resolution of targets, the safe list, the cascade of
  packet filters and the suspension of processes. The state is the record \<open>enforcer\<close>; every
  system call is appended with its outcome to the trace \<open>en_out\<close>. The answers of the system
  during one call are the record \<open>enf_env\<close>: functions of the trace so far, so that the same
  command may succeed once and fail later. The messages for the console are left out, and so are the
  locks: a call is one step.
\<close>

unbundle bit_operations_syntax


section \<open>State and environment\<close>

datatype enf_out =
    Exec "string list" bool          \<comment> \<open>a child process, by its argument vector\<close>
  | MakeDir string
  | BpfOpen string bool
  | BpfUpdate string "nat list" bool \<comment> \<open>path of the map, address\<close>
  | BpfDelete string "nat list" bool
  | Signal int string bool           \<comment> \<open>process identifier, signal\<close>
  | PidfdOpen "32 word" int
  | PidfdSignal int string bool
  | PidfdClose int
  | AuditLog string string string    \<comment> \<open>action, detail, shortened hash\<close>

datatype capture = PipeFailed | ForkFailed | Captured "string list"

record enf_env =
  ee_now :: "enf_out list \<Rightarrow> time"
  ee_exec :: "enf_out list \<Rightarrow> string list \<Rightarrow> bool"
  ee_capture :: "enf_out list \<Rightarrow> string list \<Rightarrow> capture"
  ee_nft_executable :: bool
  ee_bpf_get :: "enf_out list \<Rightarrow> string \<Rightarrow> bool"
  ee_bpf_update :: "enf_out list \<Rightarrow> string \<Rightarrow> nat list \<Rightarrow> bool"
  ee_bpf_delete :: "enf_out list \<Rightarrow> string \<Rightarrow> nat list \<Rightarrow> bool"
  ee_kill :: "enf_out list \<Rightarrow> int \<Rightarrow> string \<Rightarrow> bool"
  ee_pidfd_open :: "enf_out list \<Rightarrow> 32 word \<Rightarrow> int"
  ee_pidfd_send :: "enf_out list \<Rightarrow> int \<Rightarrow> string \<Rightarrow> bool"

text \<open>The enumeration of backends with its operators, as flags of a byte.\<close>

type_synonym backend = "8 word"

definition be_NONE :: backend where "be_NONE = 0"
definition be_EBPF :: backend where "be_EBPF = push_bit 0 1"
definition be_NFTABLES :: backend where "be_NFTABLES = push_bit 1 1"
definition be_IPTABLES :: backend where "be_IPTABLES = push_bit 2 1"

definition be_or :: "backend \<Rightarrow> backend \<Rightarrow> backend" where "be_or a b = a OR b"
definition be_and :: "backend \<Rightarrow> backend \<Rightarrow> bool" where "be_and a b \<longleftrightarrow> a AND b \<noteq> 0"

record enforcer =
  en_node_id :: string
  en_isolated :: "string set"
  en_safe :: "string set"
  en_suspended :: "32 word set"
  en_pidfds :: "32 word \<rightharpoonup> int"
  en_peer_ip :: "string \<rightharpoonup> string"
  en_peer_port :: "string \<rightharpoonup> 16 word"
  en_last_enforce :: time
  en_backends :: backend             \<comment> \<open>the result of the probe, cached for the process\<close>
  en_out :: "enf_out list"

definition ENFORCE_COOLDOWN_SEC :: int where "ENFORCE_COOLDOWN_SEC = 5"

definition enf_emit :: "enf_out \<Rightarrow> enforcer \<Rightarrow> enforcer" where
  "enf_emit x s = s\<lparr>en_out := en_out s @ [x]\<rparr>"


section \<open>Addresses\<close>

definition is_valid_ipv4 :: "string \<Rightarrow> bool" where
  "is_valid_ipv4 ip = (case inet_pton4 (c_string ip) of None \<Rightarrow> False | Some addr \<Rightarrow> ip = inet_ntop4 addr)"

definition is_valid_ipv6 :: "string \<Rightarrow> bool" where
  "is_valid_ipv6 ip \<longleftrightarrow> inet_pton6 (c_string ip) \<noteq> None"

definition is_valid_ip :: "string \<Rightarrow> bool" where
  "is_valid_ip ip \<longleftrightarrow> is_valid_ipv4 ip \<or> is_valid_ipv6 ip"

definition is_loopback :: "string \<Rightarrow> bool" where
  "is_loopback ip = (case inet_pton4 (c_string ip) of None \<Rightarrow> False | Some addr \<Rightarrow> addr ! 0 = 127)"

definition is_loopback_ipv6 :: "string \<Rightarrow> bool" where
  "is_loopback_ipv6 ip =
     (case inet_pton6 (c_string ip) of
        None \<Rightarrow> False
      | Some addr \<Rightarrow>
          if addr = replicate 15 0 @ [1] then True
          else if take 12 addr = replicate 10 0 @ [255, 255] then addr ! 12 = 127
          else False)"


section \<open>Child processes\<close>

definition fork_exec_wait :: "enf_env \<Rightarrow> string list \<Rightarrow> enforcer \<Rightarrow> bool \<times> enforcer" where
  "fork_exec_wait E argv s = (let ok = ee_exec E (en_out s) argv in (ok, enf_emit (Exec argv ok) s))"

definition kMaxCaptureBytes :: nat where "kMaxCaptureBytes = 64 * 1024"

text \<open>The loop over the pieces \<open>read\<close> returns.\<close>

fun capture_loop :: "string \<Rightarrow> string list \<Rightarrow> string" where
  "capture_loop acc [] = acc"
| "capture_loop acc (buf # bufs) =
     (if length acc + length buf > kMaxCaptureBytes then acc @ take (kMaxCaptureBytes - length acc) buf
      else capture_loop (acc @ c_string buf) bufs)"

definition fork_exec_capture :: "enf_env \<Rightarrow> string list \<Rightarrow> enforcer \<Rightarrow> string \<times> enforcer" where
  "fork_exec_capture E argv s =
     (case ee_capture E (en_out s) argv of
        PipeFailed \<Rightarrow> (''pipe() failed'', enf_emit (Exec argv False) s)
      | ForkFailed \<Rightarrow> (''fork() failed'', enf_emit (Exec argv False) s)
      | Captured bufs \<Rightarrow> (capture_loop [] bufs, enf_emit (Exec argv (ee_exec E (en_out s) argv)) s))"

definition bpf_obj_get :: "enf_env \<Rightarrow> string \<Rightarrow> enforcer \<Rightarrow> bool \<times> enforcer" where
  "bpf_obj_get E path s = (let ok = ee_bpf_get E (en_out s) path in (ok, enf_emit (BpfOpen path ok) s))"

definition send_kill :: "enf_env \<Rightarrow> 32 word \<Rightarrow> string \<Rightarrow> enforcer \<Rightarrow> bool \<times> enforcer" where
  "send_kill E pid sig s = (let ok = ee_kill E (en_out s) (sint pid) sig in (ok, enf_emit (Signal (sint pid) sig ok) s))"

definition pidfd_send_signal :: "enf_env \<Rightarrow> int \<Rightarrow> string \<Rightarrow> enforcer \<Rightarrow> bool \<times> enforcer" where
  "pidfd_send_signal E fd sig s = (let ok = ee_pidfd_send E (en_out s) fd sig in (ok, enf_emit (PidfdSignal fd sig ok) s))"


section \<open>Probing\<close>

definition ensure_ebpf_map :: "enf_env \<Rightarrow> enforcer \<Rightarrow> bool \<times> enforcer" where
  "ensure_ebpf_map E s =
     (let (found, s) = bpf_obj_get E ''/sys/fs/bpf/neuro_mesh/xdp_blacklist'' s in
      if found then (True, s)
      else
        let s = snd (fork_exec_wait E [''/usr/bin/mount'', ''-t'', ''bpf'', ''bpf'', ''/sys/fs/bpf''] s)
        in (False, enf_emit (MakeDir ''/sys/fs/bpf/neuro_mesh'') s))"

definition ensure_nftables_table :: "enf_env \<Rightarrow> enforcer \<Rightarrow> bool \<times> enforcer" where
  "ensure_nftables_table E s =
     (if \<not> ee_nft_executable E then (False, s)
      else
        let s = snd (fork_exec_wait E [''/usr/sbin/nft'', ''add'', ''table'', ''ip'', ''neuro_mesh''] s);
            (listed, s) = fork_exec_wait E [''/usr/sbin/nft'', ''list'', ''chain'', ''ip'', ''neuro_mesh'', ''INPUT''] s
        in if listed then (True, s)
           else fork_exec_wait E [''/usr/sbin/nft'', ''add'', ''chain'', ''ip'', ''neuro_mesh'', ''INPUT'',
                  ''{'', ''type'', ''filter'', ''hook'', ''input'', ''priority'', ''0'', '';'', ''}''] s)"

definition available_backends :: "enf_env \<Rightarrow> enforcer \<Rightarrow> backend \<times> enforcer" where
  "available_backends E s =
     (let b = be_NONE;
          (ebpf, s) = ensure_ebpf_map E s; b = (if ebpf then be_or b be_EBPF else b);
          (nft, s) = ensure_nftables_table E s; b = (if nft then be_or b be_NFTABLES else b);
          (ipt, s) = fork_exec_wait E [''/usr/sbin/iptables'', ''-V''] s; b = (if ipt then be_or b be_IPTABLES else b)
      in (b, s))"

text \<open>The constructor, in a process that has not probed yet.\<close>

definition new_enforcer :: "enf_env \<Rightarrow> enforcer" where
  "new_enforcer E =
     (let s = \<lparr>en_node_id = [], en_isolated = {}, en_safe = {}, en_suspended = {}, en_pidfds = Map.empty,
               en_peer_ip = Map.empty, en_peer_port = Map.empty, en_last_enforce = 0,
               en_backends = be_NONE, en_out = []\<rparr>;
          (b, s) = available_backends E s
      in s\<lparr>en_backends := b\<rparr>)"

definition set_node_id :: "string \<Rightarrow> enforcer \<Rightarrow> enforcer" where
  "set_node_id node_id s = s\<lparr>en_node_id := node_id\<rparr>"


section \<open>The safe list and the peer map\<close>

definition normalize_id :: "string \<Rightarrow> string" where
  "normalize_id target_id = map to_upper target_id"

definition is_safe_locked :: "enforcer \<Rightarrow> string \<Rightarrow> bool" where
  "is_safe_locked s target_id \<longleftrightarrow> normalize_id target_id \<in> en_safe s"

definition is_safe :: "enforcer \<Rightarrow> string \<Rightarrow> bool" where
  "is_safe s target_id \<longleftrightarrow> normalize_id target_id \<in> en_safe s"

definition add_safe_node :: "string \<Rightarrow> enforcer \<Rightarrow> enforcer" where
  "add_safe_node node_id s = s\<lparr>en_safe := insert (normalize_id node_id) (en_safe s), en_last_enforce := 0\<rparr>"

definition is_ip_safe :: "enforcer \<Rightarrow> string \<Rightarrow> bool" where
  "is_ip_safe s ip \<longleftrightarrow> is_valid_ip ip \<and> (\<exists>node_id \<in> en_safe s. en_peer_ip s node_id = Some ip)"

definition register_peer_ip :: "string \<Rightarrow> string \<Rightarrow> enforcer \<Rightarrow> enforcer" where
  "register_peer_ip node_id ip s =
     (if node_id = [] \<or> \<not> is_valid_ip ip then s else s\<lparr>en_peer_ip := (en_peer_ip s)(node_id \<mapsto> ip)\<rparr>)"

definition register_peer_port :: "string \<Rightarrow> 16 word \<Rightarrow> enforcer \<Rightarrow> enforcer" where
  "register_peer_port node_id port s =
     (if node_id = [] \<or> port = 0 then s else s\<lparr>en_peer_port := (en_peer_port s)(node_id \<mapsto> port)\<rparr>)"

definition resolve_target :: "enforcer \<Rightarrow> string \<Rightarrow> string" where
  "resolve_target s target =
     (if is_valid_ip target then target else case en_peer_ip s target of Some ip \<Rightarrow> ip | None \<Rightarrow> [])"

definition resolve_port :: "enforcer \<Rightarrow> string \<Rightarrow> 16 word" where
  "resolve_port s target = (case en_peer_port s target of Some port \<Rightarrow> port | None \<Rightarrow> 0)"


section \<open>Packet filters\<close>

definition map_path :: "enforcer \<Rightarrow> string" where
  "map_path s = ''/sys/fs/bpf/neuro_mesh'' @ (if en_node_id s = [] then [] else ''_'' @ en_node_id s) @ ''/xdp_blacklist''"

definition apply_ebpf_drop :: "enf_env \<Rightarrow> string \<Rightarrow> enforcer \<Rightarrow> bool \<times> enforcer" where
  "apply_ebpf_drop E ip s =
     (if \<not> is_valid_ipv4 ip then (False, s)
      else
        let path = c_string (map_path s); (found, s) = bpf_obj_get E path s in
        if \<not> found then (False, s)
        else case inet_pton4 (c_string ip) of
               None \<Rightarrow> (False, s)
             | Some key \<Rightarrow> let ok = ee_bpf_update E (en_out s) path key in (ok, enf_emit (BpfUpdate path key ok) s))"

definition remove_ebpf_drop :: "enf_env \<Rightarrow> string \<Rightarrow> enforcer \<Rightarrow> bool \<times> enforcer" where
  "remove_ebpf_drop E ip s =
     (if \<not> is_valid_ipv4 ip then (False, s)
      else
        let path = c_string (map_path s); (found, s) = bpf_obj_get E path s in
        if \<not> found then (False, s)
        else case inet_pton4 (c_string ip) of
               None \<Rightarrow> (False, s)
             | Some key \<Rightarrow> let ok = ee_bpf_delete E (en_out s) path key in (ok, enf_emit (BpfDelete path key ok) s))"

text \<open>The argument vector that adds a rule with the given match.\<close>

definition nft_add_rule :: "string list \<Rightarrow> string list" where
  "nft_add_rule match =
     [''/usr/sbin/nft'', ''add'', ''rule'', ''ip'', ''neuro_mesh'', ''INPUT''] @ match @ [''counter'', ''drop'']"

definition apply_nftables_drop :: "enf_env \<Rightarrow> string \<Rightarrow> enforcer \<Rightarrow> bool \<times> enforcer" where
  "apply_nftables_drop E ip s =
     (let (ip_rule, s) = fork_exec_wait E (nft_add_rule [''ip'', ''saddr'', c_string ip]) s;
          s = snd (fork_exec_wait E (nft_add_rule [''meta'', ''iif'', ''lo'', ''ip'', ''saddr'', c_string ip]) s)
      in (ip_rule, s))"

definition apply_nftables_port_drop :: "enf_env \<Rightarrow> string \<Rightarrow> 16 word \<Rightarrow> enforcer \<Rightarrow> bool \<times> enforcer" where
  "apply_nftables_port_drop E ip port s =
     (if port = 0 then (False, s)
      else
        let rule = (\<lambda>proto. nft_add_rule [''meta'', ''iif'', ''lo'', ''ip'', ''saddr'', c_string ip, proto, ''dport'', nat_str (unat port)]);
            (tcp_rule, s) = fork_exec_wait E (rule ''tcp'') s;
            (udp_rule, s) = fork_exec_wait E (rule ''udp'') s
        in (tcp_rule \<or> udp_rule, s))"

definition apply_iptables_drop :: "enf_env \<Rightarrow> string \<Rightarrow> enforcer \<Rightarrow> bool \<times> enforcer" where
  "apply_iptables_drop E ip s = fork_exec_wait E [''/usr/sbin/iptables'', ''-A'', ''INPUT'', ''-s'', c_string ip, ''-j'', ''DROP''] s"

definition remove_iptables_drop :: "enf_env \<Rightarrow> string \<Rightarrow> enforcer \<Rightarrow> bool \<times> enforcer" where
  "remove_iptables_drop E ip s = fork_exec_wait E [''/usr/sbin/iptables'', ''-D'', ''INPUT'', ''-s'', c_string ip, ''-j'', ''DROP''] s"


section \<open>Removing nftables rules\<close>

text \<open>The regular expression \<open>^.*#\s*handle\s+(\d+)\s*$\<close> on one line: the number, if the line
  matches. Behind the last number sign there can be no other one, so the greedy prefix ends there;
  the dot does not match a carriage return.\<close>

definition handle_comment :: "string \<Rightarrow> string option" where
  "handle_comment rest =
     (let r1 = dropWhile is_space rest in
      if \<not> starts_with ''handle'' r1 then None
      else
        let r2 = drop 6 r1; r3 = dropWhile is_space r2;
            digits = takeWhile is_digit r3; r4 = dropWhile is_digit r3
        in if r2 = [] \<or> \<not> is_space (hd r2) \<or> digits = [] \<or> list_ex (\<lambda>c. \<not> is_space c) r4 then None
           else Some digits)"

definition rule_handle :: "string \<Rightarrow> string option" where
  "rule_handle line =
     (if CHR ''#'' \<notin> set line then None
      else
        let behind = rev (takeWhile (\<lambda>c. c \<noteq> CHR ''#'') (rev line));
            before = take (length line - length behind - 1) line
        in if CHR 0x0D \<in> set before then None else handle_comment behind)"

definition line_handle :: "string \<Rightarrow> string \<Rightarrow> int option" where
  "line_handle match_substr line =
     (case rule_handle line of
        None \<Rightarrow> None
      | Some digits \<Rightarrow>
          if str_contains match_substr (takeWhile (\<lambda>c. c \<noteq> CHR ''#'') line)
          then map_option fst (stoi digits) else None)"

definition find_nft_handles :: "string \<Rightarrow> string \<Rightarrow> int list" where
  "find_nft_handles list_output match_substr =
     List.map_filter (line_handle match_substr) (getline_tokens (CHR 0x0A) list_output)"

definition list_nftables_rules :: "enf_env \<Rightarrow> enforcer \<Rightarrow> string \<times> enforcer" where
  "list_nftables_rules E s =
     fork_exec_capture E [''/usr/sbin/nft'', ''--handle'', ''list'', ''chain'', ''ip'', ''neuro_mesh'', ''INPUT''] s"

definition delete_nft_handle :: "enf_env \<Rightarrow> int \<Rightarrow> enforcer \<Rightarrow> bool \<times> enforcer" where
  "delete_nft_handle E handle s =
     fork_exec_wait E [''/usr/sbin/nft'', ''delete'', ''rule'', ''ip'', ''neuro_mesh'', ''INPUT'', ''handle'', int_str handle] s"

fun delete_handles :: "enf_env \<Rightarrow> int list \<Rightarrow> bool \<Rightarrow> enforcer \<Rightarrow> bool \<times> enforcer" where
  "delete_handles E [] any_deleted s = (any_deleted, s)"
| "delete_handles E (h # hs) any_deleted s =
     (let (ok, s) = delete_nft_handle E h s in delete_handles E hs (if ok then True else any_deleted) s)"

definition remove_nftables_rules_matching :: "enf_env \<Rightarrow> string \<Rightarrow> enforcer \<Rightarrow> bool \<times> enforcer" where
  "remove_nftables_rules_matching E match_substr s =
     (let (output, s) = list_nftables_rules E s in
      if output = [] then (False, s)
      else delete_handles E (find_nft_handles output match_substr) False s)"

definition remove_nftables_drop :: "enf_env \<Rightarrow> string \<Rightarrow> enforcer \<Rightarrow> bool \<times> enforcer" where
  "remove_nftables_drop E ip s = remove_nftables_rules_matching E (''ip saddr '' @ ip) s"

definition remove_nftables_port_drop :: "enf_env \<Rightarrow> string \<Rightarrow> 16 word \<Rightarrow> enforcer \<Rightarrow> bool \<times> enforcer" where
  "remove_nftables_port_drop E ip port s =
     (if port = 0 then (False, s)
      else
        let (tcp_ok, s) = remove_nftables_rules_matching E (''ip saddr '' @ ip @ '' tcp dport '' @ nat_str (unat port)) s;
            (udp_ok, s) = remove_nftables_rules_matching E (''ip saddr '' @ ip @ '' udp dport '' @ nat_str (unat port)) s
        in (tcp_ok \<or> udp_ok, s))"


section \<open>Enforcement\<close>

definition block_ip_address :: "enf_env \<Rightarrow> string \<Rightarrow> enforcer \<Rightarrow> bool \<times> enforcer" where
  "block_ip_address E ip s =
     (if \<not> is_valid_ip ip then (False, s)
      else if is_loopback ip \<or> is_loopback_ipv6 ip then (False, s)
      else
        let (ebpf, s) = apply_ebpf_drop E ip s in
        if ebpf then (True, s)
        else
          let backends = en_backends s;
              (nft, s) = (if be_and backends be_NFTABLES then apply_nftables_drop E ip s else (False, s)) in
          if nft then (True, s)
          else
            let (ipt, s) = (if be_and backends be_IPTABLES then apply_iptables_drop E ip s else (False, s)) in
            if ipt then (True, s) else (False, s))"

text \<open>The last phase of \<open>isolate_target\<close>.\<close>

definition record_isolation :: "enf_env \<Rightarrow> string \<Rightarrow> bool \<Rightarrow> enforcer \<Rightarrow> enforcer" where
  "record_isolation E target success s =
     (if success then s\<lparr>en_isolated := insert target (en_isolated s), en_last_enforce := ee_now E (en_out s)\<rparr> else s)"

text \<open>The branch of \<open>isolate_target\<close> for an address of the local host.\<close>

definition isolate_port :: "enf_env \<Rightarrow> string \<Rightarrow> string \<Rightarrow> enforcer \<Rightarrow> bool \<times> enforcer" where
  "isolate_port E target resolved_ip s =
     (let target_port = resolve_port s target in
      if target_port = 0 then (False, s)
      else
        let (port_success, s) =
              (if be_and (en_backends s) be_NFTABLES then apply_nftables_port_drop E resolved_ip target_port s else (False, s))
        in (port_success, record_isolation E target port_success s))"

text \<open>The branch for any other address: the backends in the order of preference.\<close>

definition isolate_ip :: "enf_env \<Rightarrow> string \<Rightarrow> string \<Rightarrow> enforcer \<Rightarrow> bool \<times> enforcer" where
  "isolate_ip E target resolved_ip s =
     (let backends = en_backends s;
          (any_success, s) = apply_ebpf_drop E resolved_ip s;
          (any_success, s) = (if \<not> any_success \<and> be_and backends be_NFTABLES then apply_nftables_drop E resolved_ip s else (any_success, s));
          (any_success, s) = (if \<not> any_success \<and> be_and backends be_IPTABLES then apply_iptables_drop E resolved_ip s else (any_success, s))
      in (any_success, record_isolation E target any_success s))"

definition isolate_target :: "enf_env \<Rightarrow> string \<Rightarrow> enforcer \<Rightarrow> bool \<times> enforcer" where
  "isolate_target E target s =
     (let now = ee_now E (en_out s); elapsed = dsecs (now - en_last_enforce s) in
      if elapsed < ENFORCE_COOLDOWN_SEC \<and> en_isolated s \<noteq> {} then (False, s)
      else if target \<in> en_isolated s then (True, s\<lparr>en_last_enforce := now\<rparr>)
      else if is_safe_locked s target then (False, s)
      else
        let resolved_ip = resolve_target s target in
        if resolved_ip = [] then (False, s)
        else if is_loopback resolved_ip \<or> is_loopback_ipv6 resolved_ip then isolate_port E target resolved_ip s
        else isolate_ip E target resolved_ip s)"

definition release_target :: "enf_env \<Rightarrow> string \<Rightarrow> enforcer \<Rightarrow> enforcer" where
  "release_target E target s =
     (if target \<notin> en_isolated s then s
      else
        let s = s\<lparr>en_isolated := en_isolated s - {target}\<rparr>; resolved_ip = resolve_target s target in
        if resolved_ip = [] then s
        else
          let target_port = resolve_port s target in
          if is_loopback resolved_ip \<or> is_loopback_ipv6 resolved_ip
          then if target_port > 0 then snd (remove_nftables_port_drop E resolved_ip target_port s) else s
          else
            let s = snd (remove_ebpf_drop E resolved_ip s);
                s = snd (remove_nftables_drop E resolved_ip s)
            in snd (remove_iptables_drop E resolved_ip s))"


section \<open>Suspended processes\<close>

definition suspend_process :: "enf_env \<Rightarrow> 32 word \<Rightarrow> enforcer \<Rightarrow> enforcer" where
  "suspend_process E pid s =
     (if pid \<in> en_suspended s then s
      else
        let s = s\<lparr>en_suspended := insert pid (en_suspended s)\<rparr>;
            s = snd (send_kill E pid ''SIGSTOP'' s);
            pidfd = ee_pidfd_open E (en_out s) pid;
            s = enf_emit (PidfdOpen pid pidfd) s
        in if pidfd \<ge> 0 then s\<lparr>en_pidfds := (en_pidfds s)(pid \<mapsto> pidfd)\<rparr> else s)"

definition reset_process :: "enf_env \<Rightarrow> 32 word \<Rightarrow> enforcer \<Rightarrow> enforcer" where
  "reset_process E pid s =
     (case en_pidfds s pid of
        Some pidfd \<Rightarrow>
          let (continued, s) = pidfd_send_signal E pidfd ''SIGCONT'' s;
              s = (if continued then snd (pidfd_send_signal E pidfd ''SIGTERM'' s) else s)
          in enf_emit (PidfdClose pidfd) s
      | None \<Rightarrow>
          let (exists, s) = send_kill E pid ''0'' s in
          if exists then snd (send_kill E pid ''SIGTERM'' (snd (send_kill E pid ''SIGCONT'' s))) else s)"

definition reset_enforcement :: "enf_env \<Rightarrow> enforcer \<Rightarrow> enforcer" where
  "reset_enforcement E s =
     (let s = fold (reset_process E) (sorted_list_of_set (en_suspended s)) s
      in s\<lparr>en_suspended := {}, en_pidfds := Map.empty\<rparr>)"


section \<open>The calls of the owner\<close>

datatype enf_call =
    SetNodeId string
  | RegisterPeerIp string string
  | RegisterPeerPort string "16 word"
  | AddSafeNode string
  | IsolateTarget string
  | BlockIpAddress string
  | ReleaseTarget string
  | SuspendProcess "32 word"
  | ResetEnforcement

fun enf_step :: "enf_env \<Rightarrow> enf_call \<Rightarrow> enforcer \<Rightarrow> enforcer" where
  "enf_step E (SetNodeId n) s = set_node_id n s"
| "enf_step E (RegisterPeerIp n ip) s = register_peer_ip n ip s"
| "enf_step E (RegisterPeerPort n port) s = register_peer_port n port s"
| "enf_step E (AddSafeNode n) s = add_safe_node n s"
| "enf_step E (IsolateTarget t) s = snd (isolate_target E t s)"
| "enf_step E (BlockIpAddress ip) s = snd (block_ip_address E ip s)"
| "enf_step E (ReleaseTarget t) s = release_target E t s"
| "enf_step E (SuspendProcess pid) s = suspend_process E pid s"
| "enf_step E ResetEnforcement s = reset_enforcement E s"

definition enf_run :: "(enf_env \<times> enf_call) list \<Rightarrow> enforcer \<Rightarrow> enforcer" where
  "enf_run cs s = fold (\<lambda>(E, c). enf_step E c) cs s"


section \<open>Vocabulary of the statements\<close>

text \<open>\<open>drops a x\<close>: the call \<open>x\<close> asks a packet filter to drop all traffic from the address
  with the text \<open>a\<close>. \<open>drops_port a x\<close>: it asks for the traffic to one port only.\<close>

definition iptables_rule :: "string \<Rightarrow> string \<Rightarrow> string list" where
  "iptables_rule flag a = [''/usr/sbin/iptables'', flag, ''INPUT'', ''-s'', a, ''-j'', ''DROP'']"

definition drops :: "string \<Rightarrow> enf_out \<Rightarrow> bool" where
  "drops a x =
     (case x of
        Exec argv ok \<Rightarrow> argv = nft_add_rule [''ip'', ''saddr'', a]
                      \<or> argv = nft_add_rule [''meta'', ''iif'', ''lo'', ''ip'', ''saddr'', a]
                      \<or> argv = iptables_rule ''-A'' a
      | BpfUpdate path key ok \<Rightarrow> a = inet_ntop4 key
      | _ \<Rightarrow> False)"

definition port_rule :: "string \<Rightarrow> string \<Rightarrow> 16 word \<Rightarrow> string list" where
  "port_rule a proto port =
     nft_add_rule [''meta'', ''iif'', ''lo'', ''ip'', ''saddr'', a, proto, ''dport'', nat_str (unat port)]"

definition drops_port :: "string \<Rightarrow> 16 word \<Rightarrow> enf_out \<Rightarrow> bool" where
  "drops_port a port x =
     (case x of Exec argv ok \<Rightarrow> argv = port_rule a ''tcp'' port \<or> argv = port_rule a ''udp'' port | _ \<Rightarrow> False)"

fun succeeded :: "enf_out \<Rightarrow> bool" where
  "succeeded (Exec argv ok) = ok"
| "succeeded (BpfUpdate path key ok) = ok"
| "succeeded _ = False"

definition local_address :: "string \<Rightarrow> bool" where
  "local_address a \<longleftrightarrow> is_loopback a \<or> is_loopback_ipv6 a"

text \<open>A call that spares the local host.\<close>

definition spares_local :: "enf_out \<Rightarrow> bool" where
  "spares_local x \<longleftrightarrow> (\<forall>a. drops a x \<longrightarrow> \<not> local_address a)"

fun filter_call :: "enf_out \<Rightarrow> bool" where
  "filter_call (Exec argv ok) = True"
| "filter_call (BpfOpen path ok) = True"
| "filter_call (BpfUpdate path key ok) = True"
| "filter_call (BpfDelete path key ok) = True"
| "filter_call _ = False"

text \<open>A call that concerns packet filters only and spares the local host.\<close>

definition filtering :: "enf_out \<Rightarrow> bool" where
  "filtering x \<longleftrightarrow> spares_local x \<and> filter_call x"

text \<open>A system call changes nothing but the trace.\<close>

definition emits :: "(enf_out \<Rightarrow> bool) \<Rightarrow> enforcer \<Rightarrow> enforcer \<Rightarrow> bool" where
  "emits P s s' \<longleftrightarrow> (\<exists>xs. s' = s\<lparr>en_out := en_out s @ xs\<rparr> \<and> list_all P xs)"

text \<open>\<open>tries P B\<close>: an attempt with a truth value as its result; if it reports success, one of
  the system calls satisfies \<open>B\<close>.\<close>

definition tries :: "(enf_out \<Rightarrow> bool) \<Rightarrow> (enf_out \<Rightarrow> bool) \<Rightarrow> enforcer \<Rightarrow> bool \<times> enforcer \<Rightarrow> bool" where
  "tries P B s r \<longleftrightarrow>
     (\<exists>xs. snd r = s\<lparr>en_out := en_out s @ xs\<rparr> \<and> list_all P xs \<and> (fst r \<longrightarrow> list_ex B xs))"

text \<open>The target is blocked: by a rule of a filter that was accepted, for an address of the local
  host on one port only.\<close>

definition blocked_by :: "string \<Rightarrow> enf_out \<Rightarrow> bool" where
  "blocked_by a x \<longleftrightarrow> succeeded x \<and> (if local_address a then \<exists>port. port \<noteq> 0 \<and> drops_port a port x else drops a x)"

text \<open>The cascade that \<open>block_ip_address\<close> and \<open>isolate_target\<close> both spell out.\<close>

definition drop_cascade :: "enf_env \<Rightarrow> string \<Rightarrow> enforcer \<Rightarrow> bool \<times> enforcer" where
  "drop_cascade E ip s =
     (let r = apply_ebpf_drop E ip s;
          r = (if \<not> fst r \<and> be_and (en_backends s) be_NFTABLES then apply_nftables_drop E ip (snd r) else r)
      in if \<not> fst r \<and> be_and (en_backends s) be_IPTABLES then apply_iptables_drop E ip (snd r) else r)"

text \<open>The state and the calls so far explain the isolated targets: each of them was asked for, was not
  safe-listed, has an address that the text of the target or a registration gives, and a filter
  has accepted a rule for it.\<close>

definition explained :: "enf_call list \<Rightarrow> enforcer \<Rightarrow> string \<Rightarrow> bool" where
  "explained cs s t \<longleftrightarrow>
     IsolateTarget t \<in> set cs
     \<and> (\<exists>ip. (is_valid_ip t \<and> ip = t \<or> RegisterPeerIp t ip \<in> set cs) \<and> (\<exists>x \<in> set (en_out s). blocked_by (c_string ip) x))"

definition enf_inv :: "enf_call list \<Rightarrow> enforcer \<Rightarrow> bool" where
  "enf_inv cs s \<longleftrightarrow>
     list_all spares_local (en_out s)
     \<and> (\<forall>n ip. en_peer_ip s n = Some ip \<longrightarrow> RegisterPeerIp n ip \<in> set cs)
     \<and> (\<forall>t \<in> en_isolated s. explained cs s t)
     \<and> dom (en_pidfds s) \<subseteq> en_suspended s \<and> finite (en_suspended s)"

text \<open>A concrete system: no BPF map, every command succeeds, one rule is listed.\<close>

definition demo_enf_env :: enf_env where
  "demo_enf_env =
     \<lparr>ee_now = (\<lambda>_. 10000000000), ee_exec = (\<lambda>_ _. True),
      ee_capture = (\<lambda>_ _. Captured [''ip saddr 10.0.0.10 counter drop # handle 7'']),
      ee_nft_executable = True, ee_bpf_get = (\<lambda>_ _. False), ee_bpf_update = (\<lambda>_ _ _. False),
      ee_bpf_delete = (\<lambda>_ _ _. False), ee_kill = (\<lambda>_ _ _. True), ee_pidfd_open = (\<lambda>_ _. - 1),
      ee_pidfd_send = (\<lambda>_ _ _. False)\<rparr>"

definition demo_calls :: "(enf_env \<times> enf_call) list" where
  "demo_calls = map (Pair demo_enf_env)
     [AddSafeNode ''ALPHA'', RegisterPeerIp ''BRAVO'' ''10.0.0.1'', RegisterPeerIp ''CHARLIE'' ''127.0.0.1'',
      RegisterPeerPort ''CHARLIE'' 9020, IsolateTarget ''BRAVO'', IsolateTarget ''CHARLIE'']"

definition demo_enforcer :: enforcer where
  "demo_enforcer = enf_run demo_calls (new_enforcer demo_enf_env)"


section \<open>System calls\<close>

named_theorems enf_emits "a further system call extends what was emitted"
named_theorems enf_tries "attempts of the backends"

lemma emits_refl [simp]: "emits P s s"
  by (auto simp: emits_def intro: exI [of _ "[]"])

lemma emits_trans [trans]: "emits P s s' \<Longrightarrow> emits P s' s'' \<Longrightarrow> emits P s s''"
  by (force simp: emits_def)

lemma emits_mono: "emits P s s' \<Longrightarrow> (\<And>x. P x \<Longrightarrow> Q x) \<Longrightarrow> emits Q s s'"
  by (fastforce simp: emits_def list_all_iff)

lemma emits_emit [simp]: "emits P s (enf_emit x s) \<longleftrightarrow> P x"
  by (cases s) (auto simp: emits_def enf_emit_def)

lemma emits_then_emit [enf_emits]: "P x \<Longrightarrow> emits P s s' \<Longrightarrow> emits P s (enf_emit x s')"
  by (erule emits_trans) simp

lemma emits_same:
  assumes "emits P s s'"
  shows "en_isolated s' = en_isolated s" "en_safe s' = en_safe s" "en_peer_ip s' = en_peer_ip s"
    "en_peer_port s' = en_peer_port s" "en_backends s' = en_backends s" "en_last_enforce s' = en_last_enforce s"
    "en_suspended s' = en_suspended s" "en_pidfds s' = en_pidfds s" "en_node_id s' = en_node_id s"
  using assms by (auto simp: emits_def)

lemma emits_out: "emits P s s' \<Longrightarrow> x \<in> set (en_out s') \<Longrightarrow> x \<in> set (en_out s) \<or> P x"
  by (auto simp: emits_def list_all_iff)

lemma emits_prefix: "emits P s s' \<Longrightarrow> set (en_out s) \<subseteq> set (en_out s')"
  by (auto simp: emits_def)

lemma c_string_idem [simp]: "c_string (c_string s) = c_string s"
  by (simp add: c_string_def)

lemma local_address_c_string [simp]: "local_address (c_string a) = local_address a"
  by (simp add: local_address_def is_loopback_def is_loopback_ipv6_def)


section \<open>Attempts\<close>

lemma tries_emits: "tries P B s r \<Longrightarrow> emits P s (snd r)"
  by (auto simp: tries_def emits_def)

lemma tries_fails [simp]: "tries P B s (False, s)"
  by (auto simp: tries_def intro: exI [of _ "[]"])

lemma tries_False: "emits P s s' \<Longrightarrow> tries P B s (False, s')"
  by (auto simp: tries_def emits_def)

lemma tries_emits_first: "emits P s s' \<Longrightarrow> tries P B s' r \<Longrightarrow> tries P B s r"
  by (force simp: tries_def emits_def)

lemma tries_emits_then: "tries P B s r \<Longrightarrow> emits P (snd r) s'' \<Longrightarrow> tries P B s (fst r, s'')"
  by (force simp: tries_def emits_def)

lemma tries_once: "P x \<Longrightarrow> (ok \<Longrightarrow> B x) \<Longrightarrow> tries P B s (ok, enf_emit x s)"
  by (auto simp: tries_def enf_emit_def intro!: exI [of _ "[x]"])

text \<open>The next backend is tried only if the ones before it failed.\<close>

lemma tries_else:
  assumes "tries P B s r" "\<And>s'. tries P B s' (f s')"
  shows "tries P B s (if \<not> fst r \<and> c then f (snd r) else r)"
proof (cases "\<not> fst r \<and> c")
  case True
  then show ?thesis using tries_emits_first [OF tries_emits [OF assms(1)] assms(2)] by simp
next
  case False
  then show ?thesis using assms(1) by (simp only: if_False)
qed

lemma tries_twice:
  assumes "tries P B s r" "tries P B (snd r) r'"
  shows "tries P B s (fst r \<or> fst r', snd r')"
  using assms by (force simp: tries_def)

lemma fork_exec_wait_tries:
  assumes "\<And>ok. P (Exec argv ok)" "B (Exec argv True)"
  shows "tries P B s (fork_exec_wait E argv s)"
  using assms by (auto simp: fork_exec_wait_def Let_def intro!: tries_once)

lemma drops_rules [simp]:
  "drops a (Exec (nft_add_rule [''ip'', ''saddr'', b]) ok) \<longleftrightarrow> a = b"
  "drops a (Exec (nft_add_rule [''meta'', ''iif'', ''lo'', ''ip'', ''saddr'', b]) ok) \<longleftrightarrow> a = b"
  "drops a (Exec (iptables_rule ''-A'' b) ok) \<longleftrightarrow> a = b"
  "\<not> drops a (Exec (port_rule b proto port) ok)"
  "\<not> drops a (Exec (iptables_rule ''-D'' b) ok)"
  by (auto simp: drops_def nft_add_rule_def iptables_rule_def port_rule_def)

lemma drops_ebpf [simp]: "drops a (BpfUpdate path key ok) \<longleftrightarrow> a = inet_ntop4 key"
  by (simp add: drops_def)

lemma spares_rules [simp]:
  "spares_local (Exec (nft_add_rule [''ip'', ''saddr'', b]) ok) \<longleftrightarrow> \<not> local_address b"
  "spares_local (Exec (nft_add_rule [''meta'', ''iif'', ''lo'', ''ip'', ''saddr'', b]) ok) \<longleftrightarrow> \<not> local_address b"
  "spares_local (Exec (iptables_rule ''-A'' b) ok) \<longleftrightarrow> \<not> local_address b"
  "spares_local (BpfUpdate path key ok) \<longleftrightarrow> \<not> local_address (inet_ntop4 key)"
  by (auto simp: spares_local_def)

lemma spares_others [simp]:
  "spares_local (Exec (port_rule b proto port) ok)" "spares_local (Exec (iptables_rule ''-D'' b) ok)"
  "spares_local (MakeDir d)" "spares_local (BpfOpen path ok)" "spares_local (BpfDelete path key ok)"
  "spares_local (Signal pid sig ok)" "spares_local (PidfdOpen w fd)" "spares_local (PidfdSignal fd sig ok)"
  "spares_local (PidfdClose fd)" "spares_local (AuditLog action detail h)"
  by (simp_all add: spares_local_def) (simp_all add: drops_def)

lemma set_join_fields: "c \<in> set (join_fields d xs) \<Longrightarrow> c = d \<or> (\<exists>x \<in> set xs. c \<in> set x)"
  by (induction d xs rule: join_fields.induct) auto

lemma inet_ntop4_no_zero: "CHR 0x00 \<notin> set (inet_ntop4 octets)"
  using nat_str_no_sep [of "CHR 0x00"]
  by (auto simp: inet_ntop4_def is_digit_def dest!: set_join_fields)

lemma valid_ipv4_text: "is_valid_ipv4 ip \<Longrightarrow> inet_pton4 (c_string ip) = Some key \<Longrightarrow> inet_ntop4 key = ip \<and> c_string ip = ip"
  using inet_ntop4_no_zero [of key] by (auto simp: is_valid_ipv4_def c_string_id)


section \<open>The backends\<close>

lemma tries_spares: "tries filtering B s r \<Longrightarrow> emits spares_local s (snd r)"
  by (erule emits_mono [OF tries_emits]) (simp add: filtering_def)

lemma apply_ebpf_drop_tries [enf_tries]:
  assumes "\<not> local_address ip"
  shows "tries filtering (blocked_by (c_string ip)) s (apply_ebpf_drop E ip s)"
  using assms valid_ipv4_text [of ip]
  by (auto simp: apply_ebpf_drop_def bpf_obj_get_def Let_def blocked_by_def filtering_def
      intro!: tries_False tries_emits_first [OF _ tries_once] split: option.split)

lemma apply_nftables_drop_tries [enf_tries]:
  assumes "\<not> local_address ip"
  shows "tries filtering (blocked_by (c_string ip)) s (apply_nftables_drop E ip s)"
  unfolding apply_nftables_drop_def Let_def case_prod_beta
  by (intro tries_emits_then tries_emits fork_exec_wait_tries)
     (use assms in \<open>simp_all add: blocked_by_def filtering_def\<close>)

lemma apply_iptables_drop_tries [enf_tries]:
  assumes "\<not> local_address ip"
  shows "tries filtering (blocked_by (c_string ip)) s (apply_iptables_drop E ip s)"
  using assms unfolding apply_iptables_drop_def iptables_rule_def [symmetric]
  by (intro fork_exec_wait_tries) (simp_all add: blocked_by_def filtering_def)

lemma apply_nftables_port_drop_tries [enf_tries]:
  assumes "local_address ip"
  shows "tries filtering (blocked_by (c_string ip)) s (apply_nftables_port_drop E ip port s)"
proof (cases "port = 0")
  case False
  then show ?thesis
    using assms unfolding apply_nftables_port_drop_def port_rule_def [symmetric] Let_def case_prod_beta if_not_P [OF False]
    by (intro tries_twice fork_exec_wait_tries) (auto simp: blocked_by_def drops_port_def filtering_def)
qed (simp add: apply_nftables_port_drop_def)


section \<open>The cascade\<close>

lemma drop_cascade_tries:
  assumes "\<not> local_address ip"
  shows "tries filtering (blocked_by (c_string ip)) s (drop_cascade E ip s)"
  unfolding drop_cascade_def Let_def using assms
  by (intro tries_else enf_tries)

lemma apply_ebpf_drop_backends [simp]: "en_backends (snd (apply_ebpf_drop E ip s)) = en_backends s"
  by (simp add: apply_ebpf_drop_def bpf_obj_get_def Let_def enf_emit_def split: option.split)

lemma apply_nftables_drop_backends [simp]: "en_backends (snd (apply_nftables_drop E ip s)) = en_backends s"
  by (simp add: apply_nftables_drop_def fork_exec_wait_def Let_def enf_emit_def)

lemma block_ip_address_cascade:
  "block_ip_address E ip s = (if \<not> is_valid_ip ip \<or> local_address ip then (False, s) else drop_cascade E ip s)"
proof (cases "apply_ebpf_drop E ip s")
  case (Pair ebpf s1)
  moreover have "en_backends s1 = en_backends s" using apply_ebpf_drop_backends [of E ip s] Pair by simp
  ultimately show ?thesis
    by (auto simp: block_ip_address_def drop_cascade_def local_address_def Let_def split: prod.split)
qed

lemma isolate_ip_cascade:
  "isolate_ip E target ip s = (let r = drop_cascade E ip s in (fst r, record_isolation E target (fst r) (snd r)))"
  by (auto simp: isolate_ip_def drop_cascade_def Let_def split: prod.split)

lemma block_ip_address_tries: "tries filtering (blocked_by (c_string ip)) s (block_ip_address E ip s)"
  by (simp add: block_ip_address_cascade drop_cascade_tries)

text \<open>What \<open>isolate_target\<close> does: it changes nothing but the times, or it tries to block the
  address and records the target exactly if that succeeded.\<close>

lemma isolate_target_cases:
  obtains
    (unchanged) ok time where "isolate_target E t s = (ok, s\<lparr>en_last_enforce := time\<rparr>)" "ok \<longrightarrow> t \<in> en_isolated s"
  | (tried) r ip where "isolate_target E t s = (fst r, record_isolation E t (fst r) (snd r))"
      "\<not> is_safe s t" "t \<notin> en_isolated s" "resolve_target s t = ip" "ip \<noteq> []"
      "tries filtering (blocked_by (c_string ip)) s r"
proof -
  let ?ip = "resolve_target s t"
  have same: "s = s\<lparr>en_last_enforce := en_last_enforce s\<rparr>" by simp
  consider "dsecs (ee_now E (en_out s) - en_last_enforce s) < ENFORCE_COOLDOWN_SEC \<and> en_isolated s \<noteq> {}
      \<or> t \<notin> en_isolated s \<and> (is_safe s t \<or> ?ip = [])"
    | "t \<in> en_isolated s" "\<not> (dsecs (ee_now E (en_out s) - en_last_enforce s) < ENFORCE_COOLDOWN_SEC \<and> en_isolated s \<noteq> {})"
    | "t \<notin> en_isolated s" "\<not> is_safe s t" "?ip \<noteq> []" "\<not> (dsecs (ee_now E (en_out s) - en_last_enforce s) < ENFORCE_COOLDOWN_SEC \<and> en_isolated s \<noteq> {})"
    by blast
  then show thesis
  proof cases
    case 1
    then have "isolate_target E t s = (False, s\<lparr>en_last_enforce := en_last_enforce s\<rparr>)"
      by (auto simp: isolate_target_def is_safe_def is_safe_locked_def Let_def)
    then show thesis by (rule unchanged) simp
  next
    case 2
    then have "isolate_target E t s = (True, s\<lparr>en_last_enforce := ee_now E (en_out s)\<rparr>)"
      by (auto simp: isolate_target_def Let_def)
    then show thesis by (rule unchanged) (simp add: 2)
  next
    case 3
    then have iso: "isolate_target E t s = (if local_address ?ip then isolate_port E t ?ip s else isolate_ip E t ?ip s)"
      by (auto simp: isolate_target_def is_safe_def is_safe_locked_def local_address_def Let_def)
    show thesis
    proof (cases "local_address ?ip")
      case False
      show thesis
        by (rule tried [of "drop_cascade E ?ip s" ?ip])
           (use 3 False iso in \<open>simp_all add: isolate_ip_cascade drop_cascade_tries Let_def\<close>)
    next
      case True
      let ?r = "if resolve_port s t \<noteq> 0 \<and> be_and (en_backends s) be_NFTABLES
        then apply_nftables_port_drop E ?ip (resolve_port s t) s else (False, s)"
      show thesis
        by (rule tried [of ?r ?ip])
           (use 3 True iso in \<open>auto simp: isolate_port_def apply_nftables_port_drop_tries record_isolation_def Let_def split: prod.split\<close>)
    qed
  qed
qed


section \<open>Release, suspension, construction\<close>

lemma spares_exec [simp]:
  "q \<noteq> ''add'' \<Longrightarrow> q \<noteq> ''-A'' \<Longrightarrow> spares_local (Exec (p # q # argv) ok)"
  "r \<noteq> ''rule'' \<Longrightarrow> spares_local (Exec (p # ''add'' # r # argv) ok)"
  by (auto simp: spares_local_def drops_def nft_add_rule_def iptables_rule_def)

lemma fork_exec_wait_emits [enf_emits]:
  "(\<And>ok. P (Exec argv ok)) \<Longrightarrow> emits P s s' \<Longrightarrow> emits P s (snd (fork_exec_wait E argv s'))"
  by (simp add: fork_exec_wait_def Let_def emits_then_emit)

lemma fork_exec_capture_emits [enf_emits]:
  "(\<And>ok. P (Exec argv ok)) \<Longrightarrow> emits P s s' \<Longrightarrow> emits P s (snd (fork_exec_capture E argv s'))"
  by (simp add: fork_exec_capture_def emits_then_emit split: capture.split)

lemma bpf_obj_get_emits [enf_emits]: "emits spares_local s s' \<Longrightarrow> emits spares_local s (snd (bpf_obj_get E path s'))"
  by (simp add: bpf_obj_get_def Let_def emits_then_emit)

lemma send_kill_emits [enf_emits]: "emits spares_local s s' \<Longrightarrow> emits spares_local s (snd (send_kill E pid sig s'))"
  by (simp add: send_kill_def Let_def emits_then_emit)

lemma pidfd_send_signal_emits [enf_emits]:
  "emits spares_local s s' \<Longrightarrow> emits spares_local s (snd (pidfd_send_signal E fd sig s'))"
  by (simp add: pidfd_send_signal_def Let_def emits_then_emit)

lemma delete_nft_handle_emits [enf_emits]:
  "(\<And>p q argv ok. P (Exec (p # ''delete'' # argv) ok)) \<Longrightarrow> emits P s s' \<Longrightarrow> emits P s (snd (delete_nft_handle E h s'))"
  by (simp add: delete_nft_handle_def fork_exec_wait_emits)

lemma delete_handles_emits [enf_emits]:
  "(\<And>p q argv ok. P (Exec (p # ''delete'' # argv) ok)) \<Longrightarrow> emits P s s' \<Longrightarrow> emits P s (snd (delete_handles E hs any s'))"
  by (induction hs arbitrary: any s') (auto simp: Let_def case_prod_beta delete_nft_handle_emits)

lemma emits_fold_state: "(\<And>x s'. emits P s s' \<Longrightarrow> emits P s (f x s')) \<Longrightarrow> emits P s s' \<Longrightarrow> emits P s (fold f xs s')"
  by (induction xs arbitrary: s') auto

lemma remove_ebpf_drop_emits [enf_emits]:
  "emits spares_local s s' \<Longrightarrow> emits spares_local s (snd (remove_ebpf_drop E ip s'))"
  by (auto simp: remove_ebpf_drop_def Let_def case_prod_beta split: option.split intro!: enf_emits)

lemma remove_nftables_rules_matching_emits [enf_emits]:
  assumes "emits spares_local s s'"
  shows "emits spares_local s (snd (remove_nftables_rules_matching E m s'))"
proof -
  have "emits spares_local s (snd (list_nftables_rules E s'))"
    unfolding list_nftables_rules_def using assms by (auto intro!: enf_emits)
  then show ?thesis
    by (auto simp: remove_nftables_rules_matching_def Let_def case_prod_beta intro!: enf_emits)
qed

lemma remove_nftables_port_drop_emits [enf_emits]:
  "emits spares_local s s' \<Longrightarrow> emits spares_local s (snd (remove_nftables_port_drop E ip port s'))"
  by (auto simp: remove_nftables_port_drop_def Let_def case_prod_beta intro!: enf_emits)

lemma release_target_emits:
  "emits spares_local (s\<lparr>en_isolated := en_isolated s - {t}\<rparr>) (release_target E t s)"
  by (auto simp: release_target_def Let_def remove_nftables_drop_def remove_iptables_drop_def intro!: enf_emits)

lemma suspend_process_effect:
  "\<exists>fds. dom fds \<subseteq> insert pid (dom (en_pidfds s))
     \<and> emits spares_local (s\<lparr>en_suspended := insert pid (en_suspended s), en_pidfds := fds\<rparr>) (suspend_process E pid s)"
proof (cases "pid \<in> en_suspended s")
  case True
  then have "insert pid (en_suspended s) = en_suspended s" by blast
  then show ?thesis using True by (auto simp: suspend_process_def intro!: exI [of _ "en_pidfds s"])
next
  case False
  let ?fd = "ee_pidfd_open E (en_out (snd (send_kill E pid ''SIGSTOP'' (s\<lparr>en_suspended := insert pid (en_suspended s)\<rparr>)))) pid"
  let ?fds = "if ?fd \<ge> 0 then (en_pidfds s)(pid \<mapsto> ?fd) else en_pidfds s"
  have "emits spares_local (s\<lparr>en_suspended := insert pid (en_suspended s), en_pidfds := ?fds\<rparr>) (suspend_process E pid s)"
    using False
    by (cases s) (auto simp: suspend_process_def send_kill_def enf_emit_def emits_def Let_def)
  moreover have "dom ?fds \<subseteq> insert pid (dom (en_pidfds s))" by auto
  ultimately show ?thesis by blast
qed

text \<open>A reset sends the signals that continue and terminate a process, and nothing else.\<close>

lemma reset_process_emits:
  assumes "\<And>fd sig ok. P (PidfdSignal fd sig ok)" "\<And>fd. P (PidfdClose fd)"
    "\<And>p ok. P (Signal p ''0'' ok)" "\<And>p ok. P (Signal p ''SIGCONT'' ok)" "\<And>p ok. P (Signal p ''SIGTERM'' ok)"
  shows "emits P s s' \<Longrightarrow> emits P s (reset_process E pid s')"
  by (auto simp: reset_process_def pidfd_send_signal_def send_kill_def Let_def case_prod_beta assms
      split: option.split intro!: emits_then_emit)

lemma reset_enforcement_effect:
  assumes "\<And>fd sig ok. P (PidfdSignal fd sig ok)" "\<And>fd. P (PidfdClose fd)"
    "\<And>p ok. P (Signal p ''0'' ok)" "\<And>p ok. P (Signal p ''SIGCONT'' ok)" "\<And>p ok. P (Signal p ''SIGTERM'' ok)"
  shows "\<exists>s'. emits P s s' \<and> reset_enforcement E s = s'\<lparr>en_suspended := {}, en_pidfds := Map.empty\<rparr>"
proof (intro exI conjI)
  show "emits P s (fold (reset_process E) (sorted_list_of_set (en_suspended s)) s)"
    by (rule emits_fold_state) (auto intro: reset_process_emits assms)
qed (simp add: reset_enforcement_def Let_def)

lemmas reset_spares = reset_enforcement_effect [of spares_local, simplified]

lemma ensure_emits [enf_emits]:
  "emits spares_local s s' \<Longrightarrow> emits spares_local s (snd (ensure_ebpf_map E s'))"
  "emits spares_local s s' \<Longrightarrow> emits spares_local s (snd (ensure_nftables_table E s'))"
  by (auto simp: ensure_ebpf_map_def ensure_nftables_table_def Let_def case_prod_beta intro!: enf_emits)

lemma available_backends_emits: "emits spares_local s (snd (available_backends E s))"
  by (auto simp: available_backends_def Let_def case_prod_beta intro!: enf_emits)

lemma new_enforcer_inv: "enf_inv cs (new_enforcer E)"
proof -
  define s0 :: enforcer where "s0 = \<lparr>en_node_id = [], en_isolated = {}, en_safe = {}, en_suspended = {}, en_pidfds = Map.empty,
               en_peer_ip = Map.empty, en_peer_port = Map.empty, en_last_enforce = 0,
               en_backends = be_NONE, en_out = []\<rparr>"
  have "emits spares_local s0 (snd (available_backends E s0))" by (rule available_backends_emits)
  then show ?thesis
    unfolding new_enforcer_def s0_def [symmetric] Let_def case_prod_beta
    by (auto simp: enf_inv_def emits_def s0_def)
qed

lemma blocked_not_emptied: "explained cs s t \<Longrightarrow> set cs \<subseteq> set cs' \<Longrightarrow> set (en_out s) \<subseteq> set (en_out s') \<Longrightarrow> explained cs' s' t"
  unfolding explained_def by blast

lemma enf_inv_emits:
  assumes "enf_inv cs s" "emits spares_local s s'"
  shows "enf_inv cs s'"
  using assms emits_same [OF assms(2)] emits_prefix [OF assms(2)] blocked_not_emptied [of cs s _ cs s']
  unfolding enf_inv_def by (auto simp: list_all_iff dest: emits_out [OF assms(2)])

lemma enf_inv_calls: "enf_inv cs s \<Longrightarrow> set cs \<subseteq> set cs' \<Longrightarrow> enf_inv cs' s"
  unfolding enf_inv_def using blocked_not_emptied [of cs s _ cs' s] by blast

lemma isolate_target_inv:
  assumes "enf_inv cs s" "IsolateTarget t \<in> set cs"
  shows "enf_inv cs (snd (isolate_target E t s))"
proof (cases rule: isolate_target_cases [of E t s])
  case (unchanged ok time)
  then show ?thesis using assms(1) by (simp add: enf_inv_def explained_def)
next
  case (tried r ip)
  have "(is_valid_ip t \<and> ip = t) \<or> RegisterPeerIp t ip \<in> set cs"
    using tried(4,5) assms(1) by (auto simp: resolve_target_def enf_inv_def split: if_splits option.splits)
  moreover have "\<exists>x \<in> set (en_out (snd r)). blocked_by (c_string ip) x" if "fst r"
    using tried(6) that by (auto simp: tries_def list_ex_iff)
  ultimately have "explained cs (snd r) t" if "fst r" using that assms(2) by (auto simp: explained_def)
  moreover have "enf_inv cs (snd r)" by (rule enf_inv_emits [OF assms(1) tries_spares [OF tried(6)]])
  ultimately show ?thesis using tried(1) by (auto simp: record_isolation_def enf_inv_def explained_def)
qed

lemma enf_step_inv:
  assumes "enf_inv cs s" "c \<in> set cs"
  shows "enf_inv cs (enf_step E c s)"
proof (cases c)
  case (IsolateTarget t)
  then show ?thesis using isolate_target_inv assms by simp
next
  case (BlockIpAddress ip)
  then show ?thesis using enf_inv_emits [OF assms(1) tries_spares [OF block_ip_address_tries]] by simp
next
  case (ReleaseTarget t)
  have "enf_inv cs (s\<lparr>en_isolated := en_isolated s - {t}\<rparr>)" using assms(1) by (auto simp: enf_inv_def explained_def)
  from enf_inv_emits [OF this release_target_emits] show ?thesis using ReleaseTarget by simp
next
  case (SuspendProcess pid)
  obtain fds where fds: "dom fds \<subseteq> insert pid (dom (en_pidfds s))"
    "emits spares_local (s\<lparr>en_suspended := insert pid (en_suspended s), en_pidfds := fds\<rparr>) (suspend_process E pid s)"
    using suspend_process_effect by blast
  have "dom fds \<subseteq> insert pid (en_suspended s)" using assms(1) fds(1) unfolding enf_inv_def by blast
  then have "enf_inv cs (s\<lparr>en_suspended := insert pid (en_suspended s), en_pidfds := fds\<rparr>)"
    using assms(1) by (simp add: enf_inv_def explained_def)
  from enf_inv_emits [OF this fds(2)] show ?thesis using SuspendProcess by simp
next
  case ResetEnforcement
  obtain s' where s': "emits spares_local s s'" "reset_enforcement E s = s'\<lparr>en_suspended := {}, en_pidfds := Map.empty\<rparr>"
    using reset_spares by blast
  have "enf_inv cs s'" by (rule enf_inv_emits [OF assms(1) s'(1)])
  then show ?thesis using s'(2) ResetEnforcement by (simp add: enf_inv_def explained_def)
qed (use assms in \<open>auto simp: enf_inv_def explained_def set_node_id_def register_peer_ip_def register_peer_port_def add_safe_node_def\<close>)

lemma enf_run_inv:
  assumes "enf_inv cs s" "snd ` set ecs \<subseteq> set cs"
  shows "enf_inv cs (enf_run ecs s)"
  using assms unfolding enf_run_def
  by (induction ecs arbitrary: s) (auto simp: enf_step_inv)


lemma enf_step_safe:
  assumes "is_safe s n" "n \<notin> en_isolated s"
  shows "is_safe (enf_step E c s) n \<and> n \<notin> en_isolated (enf_step E c s)"
proof (cases c)
  case (IsolateTarget t)
  show ?thesis
  proof (cases rule: isolate_target_cases [of E t s])
    case (tried r ip)
    then have "n \<noteq> t" using assms(1) by auto
    then show ?thesis using emits_same [OF tries_spares [OF tried(6)]] assms tried(1) IsolateTarget
      by (simp add: is_safe_def record_isolation_def)
  qed (use assms IsolateTarget in \<open>simp add: is_safe_def\<close>)
next
  case (BlockIpAddress ip)
  then show ?thesis using emits_same [OF tries_spares [OF block_ip_address_tries [of ip s E]]] assms by (simp add: is_safe_def)
next
  case (ReleaseTarget t)
  then show ?thesis using emits_same [OF release_target_emits [of s t E]] assms by (simp add: is_safe_def)
next
  case (SuspendProcess pid)
  then show ?thesis using suspend_process_effect [of pid s E] assms by (auto simp: is_safe_def dest: emits_same)
next
  case ResetEnforcement
  then show ?thesis using reset_spares [of s E] assms by (auto simp: is_safe_def dest: emits_same)
qed (use assms in \<open>auto simp: is_safe_def set_node_id_def register_peer_ip_def register_peer_port_def add_safe_node_def\<close>)

lemma enf_run_safe:
  "is_safe s n \<Longrightarrow> n \<notin> en_isolated s \<Longrightarrow> is_safe (enf_run cs s) n \<and> n \<notin> en_isolated (enf_run cs s)"
  unfolding enf_run_def by (induction cs arbitrary: s) (auto dest: enf_step_safe)


section \<open>Properties\<close>


text \<open>
  C15. Isolation is explained: a target the enforcer holds as isolated was handed to
  \<open>isolate_target\<close>; its address is its own text or was registered for it; and a packet
  filter has accepted a rule for that address - for the local host a rule for one
  port, otherwise one for all traffic.
\<close>

theorem isolation_explained:
  assumes "t \<in> en_isolated (enf_run cs (new_enforcer E))"
  shows "IsolateTarget t \<in> snd ` set cs
     \<and> (\<exists>ip. (is_valid_ip t \<and> ip = t \<or> RegisterPeerIp t ip \<in> snd ` set cs)
           \<and> (\<exists>x \<in> set (en_out (enf_run cs (new_enforcer E))). blocked_by (c_string ip) x))"
proof -
  have "enf_inv (map snd cs) (enf_run cs (new_enforcer E))" by (rule enf_run_inv [OF new_enforcer_inv]) simp
  then show ?thesis using assms unfolding enf_inv_def explained_def by simp
qed

text \<open>
  The safe list protects its nodes for good: a node on the list that is not isolated is isolated
  by no later sequence of calls.
\<close>

theorem safe_node_never_isolated:
  assumes "is_safe s n" "n \<notin> en_isolated s"
  shows "n \<notin> en_isolated (enf_run cs s)"
  using enf_run_safe assms by blast


section \<open>Handles of rules\<close>

lemma stoi_nat_str: "n < 2 ^ 31 \<Longrightarrow> stoi (nat_str n) = Some (int n, [])"
  using sto_parse_nat_str [of "[]" n] by (simp add: stoi_def sto_range_def)

lemma handle_comment_printed: "handle_comment ('' handle '' @ nat_str h) = Some (nat_str h)"
proof -
  have digits: "takeWhile is_digit (nat_str h) = nat_str h" "dropWhile is_digit (nat_str h) = []"
    by (simp_all add: nat_str_digits)
  obtain c cs where c: "nat_str h = c # cs" by (cases "nat_str h") auto
  then have "\<not> is_space c" using nat_str_digits [of c h] by (auto simp: is_digit_def is_space_def)
  with c have "dropWhile is_space (nat_str h) = nat_str h" by simp
  then show ?thesis
    by (simp add: handle_comment_def Let_def starts_with_def is_space_def [of "CHR '' ''"] is_space_def [of "CHR ''h''"] digits)
qed

lemma rule_handle_printed:
  assumes "CHR ''#'' \<notin> set spec" "CHR 0x0D \<notin> set spec"
  shows "rule_handle (spec @ '' # handle '' @ nat_str h) = Some (nat_str h)"
proof -
  let ?line = "spec @ '' # handle '' @ nat_str h"
  let ?tail = "'' handle '' @ nat_str h"
  have line: "?line = (spec @ '' '') @ CHR ''#'' # ?tail" by simp
  have no: "CHR ''#'' \<notin> set ?tail" using nat_str_no_sep [of "CHR ''#''" h] by (simp add: is_digit_def)
  have "takeWhile (\<lambda>c. c \<noteq> CHR ''#'') (rev ?line) = rev ?tail"
    unfolding line using no by (simp add: takeWhile_tail takeWhile_append)
  then show ?thesis using assms handle_comment_printed [of h] by (simp add: rule_handle_def Let_def)
qed

lemma line_handle_printed:
  assumes "CHR ''#'' \<notin> set spec" "CHR 0x0D \<notin> set spec" "str_contains m spec" "h < 2 ^ 31"
  shows "line_handle m (spec @ '' # handle '' @ nat_str h) = Some (int h)"
proof -
  have "takeWhile (\<lambda>c. c \<noteq> CHR ''#'') (spec @ '' # handle '' @ nat_str h) = spec @ '' ''"
    using assms(1) by (simp add: takeWhile_append)
  moreover have "str_contains m (spec @ '' '')" using assms(3) unfolding str_contains_iff by (metis append.assoc)
  ultimately show ?thesis
    using rule_handle_printed [OF assms(1,2), of h] assms(4) by (simp add: line_handle_def stoi_nat_str)
qed

lemma line_handle_other:
  assumes "CHR ''#'' \<notin> set spec" "CHR 0x0D \<notin> set spec" "\<not> str_contains m (spec @ '' '')"
  shows "line_handle m (spec @ '' # handle '' @ nat_str h) = None"
proof -
  have "takeWhile (\<lambda>c. c \<noteq> CHR ''#'') (spec @ '' # handle '' @ nat_str h) = spec @ '' ''"
    using assms(1) by (simp add: takeWhile_append)
  then show ?thesis using rule_handle_printed [OF assms(1,2), of h] assms(3) by (simp add: line_handle_def)
qed


lemma find_nft_handles_iff:
  "h \<in> set (find_nft_handles output m) \<longleftrightarrow> (\<exists>line \<in> set (getline_tokens (CHR 0x0A) output). line_handle m line = Some h)"
  by (force simp: find_nft_handles_def List.map_filter_def)

lemma delete_handles_covers:
  assumes "h \<in> set hs"
  shows "\<exists>ok. Exec [''/usr/sbin/nft'', ''delete'', ''rule'', ''ip'', ''neuro_mesh'', ''INPUT'', ''handle'', int_str h] ok
    \<in> set (en_out (snd (delete_handles E hs any s)))" (is "\<exists>ok. ?x ok \<in> _")
  using assms
proof (induction hs arbitrary: any s)
  case (Cons h' hs)
  show ?case
  proof (cases "h = h'")
    case True
    then have "\<exists>ok. ?x ok \<in> set (en_out (snd (delete_nft_handle E h' s)))"
      by (auto simp: delete_nft_handle_def fork_exec_wait_def enf_emit_def Let_def)
    moreover have "emits (\<lambda>_. True) (snd (delete_nft_handle E h' s)) (snd (delete_handles E (h' # hs) any s))"
      by (simp add: Let_def case_prod_beta delete_handles_emits)
    ultimately show ?thesis using emits_prefix by blast
  qed (use Cons in \<open>simp add: Let_def case_prod_beta\<close>)
qed simp

lemma capture_loop_single: "CHR 0x00 \<notin> set buf \<Longrightarrow> length buf \<le> kMaxCaptureBytes \<Longrightarrow> capture_loop [] [buf] = buf"
  by (simp add: c_string_id)

text \<open>The captured output stays below its limit.\<close>

lemma capture_loop_bound: "length acc \<le> kMaxCaptureBytes \<Longrightarrow> length (capture_loop acc bufs) \<le> kMaxCaptureBytes"
proof (induction bufs arbitrary: acc)
  case (Cons buf bufs)
  have "length (c_string buf) \<le> length buf" by (simp add: c_string_def length_takeWhile_le)
  then show ?case using Cons by simp
qed simp

lemma resolve_target_isolated [simp]: "resolve_target (s\<lparr>en_isolated := S\<rparr>) t = resolve_target s t"
  by (simp add: resolve_target_def)

text \<open>
  Releasing a target deletes every rule in whose text its address occurs: the address may be
  followed by anything, also by a further digit, so that the rule of another address that begins
  with the same text goes with it and its traffic passes again.
\<close>

theorem release_deletes_longer_addresses:
  assumes "t \<in> en_isolated s" "resolve_target s t = ip" "ip \<noteq> []" "\<not> is_loopback ip" "\<not> is_loopback_ipv6 ip"
    and "\<And>out argv. ee_capture E out argv = Captured [listing]" "length listing < 256" "CHR 0x00 \<notin> set listing"
    and "spec @ '' # handle '' @ nat_str h \<in> set (getline_tokens (CHR 0x0A) listing)"
    and "spec = before @ ''ip saddr '' @ ip @ behind" "CHR ''#'' \<notin> set spec" "CHR 0x0D \<notin> set spec" "h < 2 ^ 31"
  shows "\<exists>ok. Exec [''/usr/sbin/nft'', ''delete'', ''rule'', ''ip'', ''neuro_mesh'', ''INPUT'', ''handle'', nat_str h] ok
    \<in> set (en_out (release_target E t s))"
proof -
  let ?s1 = "snd (remove_ebpf_drop E ip (s\<lparr>en_isolated := en_isolated s - {t}\<rparr>))"
  let ?s2 = "snd (remove_nftables_drop E ip ?s1)"
  have "str_contains (''ip saddr '' @ ip) spec" using assms(10) by (auto simp: str_contains_iff)
  then have "line_handle (''ip saddr '' @ ip) (spec @ '' # handle '' @ nat_str h) = Some (int h)"
    by (intro line_handle_printed assms(11,12,13))
  then have handle: "int h \<in> set (find_nft_handles listing (''ip saddr '' @ ip))"
    using assms(9) unfolding find_nft_handles_iff by blast
  have "fst (list_nftables_rules E ?s1) = listing"
    using assms(6,7,8) capture_loop_single [of listing]
    by (simp add: list_nftables_rules_def fork_exec_capture_def kMaxCaptureBytes_def)
  moreover have "listing \<noteq> []" using assms(9) by auto
  ultimately have "\<exists>ok. Exec [''/usr/sbin/nft'', ''delete'', ''rule'', ''ip'', ''neuro_mesh'', ''INPUT'', ''handle'', int_str (int h)] ok
      \<in> set (en_out ?s2)"
    using delete_handles_covers [OF handle]
    by (simp add: remove_nftables_drop_def remove_nftables_rules_matching_def Let_def case_prod_beta)
  moreover have "emits (\<lambda>_. True) ?s2 (release_target E t s)"
    using assms(1-5) by (auto simp: release_target_def Let_def remove_iptables_drop_def intro!: enf_emits)
  ultimately show ?thesis by (auto simp: int_str_def dest: emits_prefix)
qed

text \<open>
  The address of a safe-listed node is recognised only if its name has no lower-case letter: after
  the node has been safe-listed and its address registered, the node is safe and resolves to the
  address, yet the address counts as unprotected, since the list holds names in capitals and the
  addresses are looked up under the names as given.
\<close>

theorem safe_address_missed:
  assumes "normalize_id n \<noteq> n" "is_valid_ip ip" "\<not> is_valid_ip n"
    and s_def: "s = register_peer_ip n ip (add_safe_node n (new_enforcer E))"
  shows "is_safe s n \<and> resolve_target s n = ip \<and> \<not> is_ip_safe s ip"
proof -
  have [simp]: "en_safe (new_enforcer E) = {}" "en_peer_ip (new_enforcer E) = Map.empty"
    using emits_same(2,3) [OF available_backends_emits]
    by (simp_all add: new_enforcer_def Let_def case_prod_beta)
  have "n \<noteq> []" using assms(1) by (auto simp: normalize_id_def)
  then show ?thesis
    using assms(1-3) by (auto simp: s_def register_peer_ip_def add_safe_node_def is_safe_def resolve_target_def is_ip_safe_def)
qed


lemma demo_isolated: "''BRAVO'' \<in> en_isolated demo_enforcer \<and> ''CHARLIE'' \<notin> en_isolated demo_enforcer
   \<and> is_safe demo_enforcer ''alpha'' \<and> resolve_target demo_enforcer ''BRAVO'' = ''10.0.0.1''
   \<and> Exec (nft_add_rule [''ip'', ''saddr'', ''10.0.0.1'']) True \<in> set (en_out demo_enforcer)"
  by code_simp



theorem isolation_explained_witness:
  "\<exists>ip. (is_valid_ip ''BRAVO'' \<and> ip = ''BRAVO'' \<or> RegisterPeerIp ''BRAVO'' ip \<in> snd ` set demo_calls)
     \<and> (\<exists>x \<in> set (en_out demo_enforcer). blocked_by (c_string ip) x)"
  using isolation_explained [of "''BRAVO''" demo_calls demo_enf_env] demo_isolated by (simp add: demo_enforcer_def)

theorem safe_node_never_isolated_witness:
  "''alpha'' \<notin> en_isolated (enf_run [(demo_enf_env, IsolateTarget ''alpha''), (demo_enf_env, ResetEnforcement)] demo_enforcer)"
  by (rule safe_node_never_isolated) code_simp+

theorem release_deletes_longer_addresses_witness:
  "\<exists>ok. Exec [''/usr/sbin/nft'', ''delete'', ''rule'', ''ip'', ''neuro_mesh'', ''INPUT'', ''handle'', nat_str 7] ok
    \<in> set (en_out (release_target demo_enf_env ''BRAVO'' demo_enforcer))"
proof (rule release_deletes_longer_addresses [of _ _ "''10.0.0.1''" _ "''ip saddr 10.0.0.10 counter drop # handle 7''"
    "''ip saddr 10.0.0.10 counter drop''" _ "[]" "''0 counter drop''"])
  show "''ip saddr 10.0.0.10 counter drop'' @ '' # handle '' @ nat_str 7
      \<in> set (getline_tokens CHR 0x0A ''ip saddr 10.0.0.10 counter drop # handle 7'')" by code_simp
  show "\<not> is_loopback ''10.0.0.1''" "\<not> is_loopback_ipv6 ''10.0.0.1''" by code_simp+
qed (use demo_isolated in \<open>simp_all add: demo_enf_env_def\<close>)

theorem safe_address_missed_witness:
  "let s = register_peer_ip ''n1'' ''10.0.0.1'' (add_safe_node ''n1'' (new_enforcer demo_enf_env))
   in is_safe s ''n1'' \<and> resolve_target s ''n1'' = ''10.0.0.1'' \<and> \<not> is_ip_safe s ''10.0.0.1''"
  unfolding Let_def
  by (rule safe_address_missed [OF _ _ _ refl]) code_simp+

end
