(* ===== verification/Mitigation.thy ===== *)
theory Mitigation
  imports Crypto Enforcer
begin

text \<open>
  \<open>enforcer/MitigationEngine.{hpp,cpp}\<close>: from the evidence of a decided round to signals and
  packet filters. The JSON library is the argument \<open>parse\<close>: what a text denotes, as far as the engine asks
  for it. The engine has no state of its own but the pointer to the enforcer; its system calls are
  appended to the trace of the enforcer. A line of the enforcement log keeps the action, the detail and
  the shortened hash, not its time stamp.
\<close>


section \<open>Evidence\<close>

datatype json_value = JsonString string | JsonInt int | JsonOther

datatype json_doc = JsonError | JsonNoObject | JsonObject "string \<rightharpoonup> json_value"

type_synonym json_parser = "string \<Rightarrow> json_doc"

record mit_env = enf_env +
  mi_getpid :: "32 word"
  mi_esrch :: "enf_out list \<Rightarrow> bool"       \<comment> \<open>\<open>errno\<close> after a failed signal is \<open>ESRCH\<close>\<close>
  mi_has_enforcer :: bool

definition extract_str :: "json_parser \<Rightarrow> string \<Rightarrow> string \<Rightarrow> string" where
  "extract_str parse json key =
     (case parse json of
        JsonObject j \<Rightarrow> (case j key of Some (JsonString v) \<Rightarrow> v | _ \<Rightarrow> [])
      | _ \<Rightarrow> [])"

text \<open>\<open>get<int64_t>\<close> converts an unsigned number modulo \<open>2^64\<close>.\<close>

definition extract_int :: "json_parser \<Rightarrow> string \<Rightarrow> string \<Rightarrow> int" where
  "extract_int parse json key =
     (case parse json of
        JsonObject j \<Rightarrow> (case j key of Some (JsonInt v) \<Rightarrow> sint (word_of_int v :: 64 word) | _ \<Rightarrow> - 1)
      | _ \<Rightarrow> - 1)"

definition valid_fields :: "string list" where
  "valid_fields = [''event'', ''verdict'', ''src_ip'', ''pid'', ''node'', ''entropy'', ''source'']"

definition validate_evidence_schema :: "json_parser \<Rightarrow> string \<Rightarrow> bool" where
  "validate_evidence_schema parse json =
     (if json = [] \<or> length json > 8192 then False
      else case parse json of
             JsonObject j \<Rightarrow> list_ex (\<lambda>field. j field \<noteq> None) valid_fields
           | _ \<Rightarrow> False)"


section \<open>Processes\<close>

definition validate_pid :: "mit_env \<Rightarrow> 32 word \<Rightarrow> enforcer \<Rightarrow> bool \<times> enforcer" where
  "validate_pid E pid s =
     (if pid \<le> 1 then (False, s)
      else if pid = mi_getpid E then (False, s)
      else send_kill (enf_env.truncate E) pid ''0'' s)"

definition terminate_process :: "mit_env \<Rightarrow> 32 word \<Rightarrow> enforcer \<Rightarrow> bool \<times> enforcer" where
  "terminate_process E pid s =
     (let (valid, s) = validate_pid E pid s in
      if \<not> valid then (False, s)
      else
        let (killed, s) = send_kill (enf_env.truncate E) pid ''SIGKILL'' s in
        if killed then (True, s) else (mi_esrch E (en_out s), s))"


section \<open>The response\<close>

definition me_block_ip_address :: "mit_env \<Rightarrow> string \<Rightarrow> enforcer \<Rightarrow> bool \<times> enforcer" where
  "me_block_ip_address E ip s =
     (if \<not> mi_has_enforcer E then (False, s) else block_ip_address (enf_env.truncate E) ip s)"

definition log_enforcement :: "string \<Rightarrow> string \<Rightarrow> string \<Rightarrow> enforcer \<Rightarrow> enforcer" where
  "log_enforcement action detail consensus_hash s = enf_emit (AuditLog action detail (take 16 consensus_hash)) s"

text \<open>The three parts of \<open>execute_response\<close>, in their order.\<close>

definition kill_part :: "mit_env \<Rightarrow> string \<Rightarrow> int \<Rightarrow> string \<Rightarrow> enforcer \<Rightarrow> bool \<times> enforcer" where
  "kill_part E event_type raw_pid consensus_hash s =
     (if event_type = ''privilege_escalation'' \<and> raw_pid > 0
      then
        let pid = (word_of_int raw_pid :: 32 word);
            s = log_enforcement ''KILL'' (''pid='' @ nat_str (unat pid) @ '' event='' @ event_type) consensus_hash s;
            (killed, s) = terminate_process E pid s
        in if killed
           then (True, log_enforcement ''KILL_OK'' (''pid='' @ nat_str (unat pid) @ '' SIGKILL delivered'') consensus_hash s)
           else (False, log_enforcement ''KILL_FAIL'' (''pid='' @ nat_str (unat pid) @ '' not terminated'') consensus_hash s)
      else (False, s))"

definition block_part :: "mit_env \<Rightarrow> string \<Rightarrow> string \<Rightarrow> string \<Rightarrow> string \<Rightarrow> enforcer \<Rightarrow> bool \<times> enforcer" where
  "block_part E event_type verdict src_ip consensus_hash s =
     (if src_ip \<noteq> [] \<and> (event_type = ''lateral_movement'' \<or> verdict = ''THREAT'' \<or> verdict = ''CRITICAL'')
      then if mi_has_enforcer E \<and> is_ip_safe s src_ip
           then (False, log_enforcement ''BLOCK_SAFELISTED'' (''ip='' @ src_ip @ '' belongs to safe-listed node'') consensus_hash s)
           else
             let s = log_enforcement ''BLOCK'' (''ip='' @ src_ip @ '' event='' @ event_type) consensus_hash s;
                 (blocked, s) = me_block_ip_address E src_ip s
             in if blocked
                then (True, log_enforcement ''BLOCK_OK'' (''ip='' @ src_ip @ '' traffic dropped'') consensus_hash s)
                else (False, log_enforcement ''BLOCK_FAIL'' (''ip='' @ src_ip @ '' enforcement cascade failed'') consensus_hash s)
      else (False, s))"

definition isolate_part :: "mit_env \<Rightarrow> string \<Rightarrow> enforcer \<Rightarrow> bool \<times> enforcer" where
  "isolate_part E target_id s =
     (if mi_has_enforcer E \<and> target_id \<noteq> [] then isolate_target (enf_env.truncate E) target_id s else (False, s))"

definition execute_response :: "json_parser \<Rightarrow> openssl \<Rightarrow> mit_env \<Rightarrow> string \<Rightarrow> string \<Rightarrow> enforcer \<Rightarrow> bool \<times> enforcer" where
  "execute_response parse L E evidence_json target_id s =
     (if \<not> validate_evidence_schema parse evidence_json then (False, s)
      else
        let consensus_hash = sha256_hex L evidence_json in
        if consensus_hash = [] then (False, s)
        else
          let event_type = extract_str parse evidence_json ''event'';
              verdict = extract_str parse evidence_json ''verdict'';
              src_ip = extract_str parse evidence_json ''src_ip'';
              raw_pid = extract_int parse evidence_json ''pid'';
              (killed, s) = kill_part E event_type raw_pid consensus_hash s;
              (blocked, s) = block_part E event_type verdict src_ip consensus_hash s;
              (isolated, s) = isolate_part E target_id s
          in (killed \<or> blocked \<or> isolated, s))"


section \<open>Vocabulary of the statements\<close>

text \<open>What a response did, from its traces.\<close>

definition response_out :: "enforcer \<Rightarrow> enforcer \<Rightarrow> enf_out list" where
  "response_out s s' = drop (length (en_out s)) (en_out s')"

text \<open>\<open>adds P\<close>: the trace is extended by calls that satisfy \<open>P\<close>.\<close>

definition adds :: "(enf_out \<Rightarrow> bool) \<Rightarrow> enforcer \<Rightarrow> enforcer \<Rightarrow> bool" where
  "adds P s s' \<longleftrightarrow> (\<exists>xs. en_out s' = en_out s @ xs \<and> list_all P xs)"

text \<open>A signal that evidence may justify: to the process it names, which is neither the process group of
  the node, nor process 1, nor the node.\<close>

fun justified :: "json_parser \<Rightarrow> mit_env \<Rightarrow> string \<Rightarrow> enf_out \<Rightarrow> bool" where
  "justified parse E ev (Signal p sig ok) \<longleftrightarrow>
     extract_str parse ev ''event'' = ''privilege_escalation'' \<and> extract_int parse ev ''pid'' > 0
     \<and> p = sint (word_of_int (extract_int parse ev ''pid'') :: 32 word)
     \<and> p \<noteq> 0 \<and> p \<noteq> 1 \<and> p \<noteq> sint (mi_getpid E)"
| "justified parse E ev (PidfdSignal fd sig ok) \<longleftrightarrow> False"
| "justified parse E ev _ \<longleftrightarrow> True"

text \<open>A line of the log carries the hash of the evidence.\<close>

fun logged_with :: "string \<Rightarrow> enf_out \<Rightarrow> bool" where
  "logged_with h (AuditLog action detail h') \<longleftrightarrow> h' = take 16 h"
| "logged_with h _ \<longleftrightarrow> True"

text \<open>A node that is safe-listed and not isolated stays so.\<close>

definition keeps_safe :: "string \<Rightarrow> enforcer \<Rightarrow> enforcer \<Rightarrow> bool" where
  "keeps_safe n s s' \<longleftrightarrow> (is_safe s n \<and> n \<notin> en_isolated s \<longrightarrow> is_safe s' n \<and> n \<notin> en_isolated s')"

text \<open>Evidence with the identifier \<open>2^32 - 1\<close>, for a parser that reads this text as it is.\<close>

definition demo_mit_env :: mit_env where
  "demo_mit_env = enf_env.extend demo_enf_env \<lparr>mi_getpid = 42, mi_esrch = (\<lambda>_. False), mi_has_enforcer = True\<rparr>"

definition demo_evidence :: string where
  \<open>demo_evidence = ''{"event":"privilege_escalation","pid":4294967295}''\<close>

definition demo_parser :: json_parser where
  "demo_parser text =
     (if text = demo_evidence
      then JsonObject [''event'' \<mapsto> JsonString ''privilege_escalation'', ''pid'' \<mapsto> JsonInt 4294967295] else JsonError)"


section \<open>The contract between the engine and the enforcer\<close>

text \<open>A relation between states that the two entry points of the enforcer keep, and the signals and
  log lines of the engine, holds between the states before and after a response.\<close>

locale responding =
  fixes R :: "enforcer \<Rightarrow> enforcer \<Rightarrow> bool"
    and parse :: json_parser and L :: openssl and E :: mit_env and ev :: string
  assumes reflexive: "R s s"
    and chain: "R s s' \<Longrightarrow> R s' s'' \<Longrightarrow> R s s''"
    and blocks: "R s (snd (block_ip_address (enf_env.truncate E) ip s))"
    and isolates: "R s (snd (isolate_target (enf_env.truncate E) t s))"
    and logs: "h = sha256_hex L ev \<Longrightarrow> R s (log_enforcement action detail h s)"
    and signals: "extract_str parse ev ''event'' = ''privilege_escalation'' \<Longrightarrow> extract_int parse ev ''pid'' > 0
        \<Longrightarrow> pid = word_of_int (extract_int parse ev ''pid'') \<Longrightarrow> 1 < pid \<Longrightarrow> pid \<noteq> mi_getpid E
        \<Longrightarrow> R s (snd (send_kill (enf_env.truncate E) pid sig s))"
begin

lemmas extend = chain [OF _ blocks] chain [OF _ isolates] chain [OF _ logs [OF refl]]

lemma terminates:
  assumes "extract_str parse ev ''event'' = ''privilege_escalation''" "extract_int parse ev ''pid'' > 0" "R s s'"
  shows "R s (snd (terminate_process E (word_of_int (extract_int parse ev ''pid'')) s'))"
proof -
  have "R s (snd (send_kill (enf_env.truncate E) (word_of_int (extract_int parse ev ''pid'')) sig s'))"
    if "1 < (word_of_int (extract_int parse ev ''pid'') :: 32 word)" "word_of_int (extract_int parse ev ''pid'') \<noteq> mi_getpid E" "R s s'" for sig s'
    by (rule chain [OF that(3) signals [OF assms(1,2) refl that(1,2)]])
  then show ?thesis
    using assms(3) by (auto simp: terminate_process_def validate_pid_def Let_def case_prod_beta not_le)
qed

lemma kills: "R s s' \<Longrightarrow> R s (snd (kill_part E (extract_str parse ev ''event'') (extract_int parse ev ''pid'') (sha256_hex L ev) s'))"
  by (auto simp: kill_part_def Let_def case_prod_beta intro!: extend terminates)

lemma blocks_part: "R s s' \<Longrightarrow> R s (snd (block_part E event_type verdict src_ip (sha256_hex L ev) s'))"
  by (auto simp: block_part_def me_block_ip_address_def Let_def case_prod_beta intro!: extend)

lemma responds: "R s (snd (execute_response parse L E ev t s))"
  by (auto simp: execute_response_def isolate_part_def Let_def case_prod_beta intro!: extend kills blocks_part reflexive)

lemma responds_after_kill:
  assumes "validate_evidence_schema parse ev" "sha256_hex L ev \<noteq> []"
  shows "R (snd (kill_part E (extract_str parse ev ''event'') (extract_int parse ev ''pid'') (sha256_hex L ev) s))
    (snd (execute_response parse L E ev t s))"
  using assms
  by (auto simp: execute_response_def isolate_part_def Let_def case_prod_beta intro!: extend blocks_part reflexive)

end

lemma sint_inj: "sint (v :: 32 word) = sint w \<longleftrightarrow> v = w"
  using signed_word_eqI by blast

lemma adds_refl: "adds P s s"
  by (simp add: adds_def)

lemma adds_trans: "adds P s s' \<Longrightarrow> adds P s' s'' \<Longrightarrow> adds P s s''"
  by (force simp: adds_def)

lemma adds_emit [simp]: "adds P s (enf_emit x s) \<longleftrightarrow> P x"
  by (auto simp: adds_def enf_emit_def)

lemma adds_emits: "emits Q s s' \<Longrightarrow> (\<And>x. Q x \<Longrightarrow> P x) \<Longrightarrow> adds P s s'"
  by (force simp: adds_def emits_def list_all_iff)

lemma isolate_target_adds:
  assumes "\<And>x. filtering x \<Longrightarrow> P x"
  shows "adds P s (snd (isolate_target E t s))"
proof (cases rule: isolate_target_cases [of E t s])
  case (unchanged ok time)
  then show ?thesis by (simp add: adds_def)
next
  case (tried r ip)
  then show ?thesis using adds_emits [OF tries_emits [OF tried(6)] assms]
    by (auto simp: record_isolation_def adds_def)
qed


lemma block_ip_address_adds: "(\<And>x. filtering x \<Longrightarrow> P x) \<Longrightarrow> adds P s (snd (block_ip_address E ip s))"
  using adds_emits [OF tries_emits [OF block_ip_address_tries]] by blast

interpretation targets: responding "adds (justified parse E ev)" parse L E ev
  for parse L E ev
proof unfold_locales
  have quiet: "justified parse E ev x" if "filtering x" for x using that by (cases x) (auto simp: filtering_def)
  show "adds (justified parse E ev) s (snd (block_ip_address (enf_env.truncate E) ip s))" for s ip
    by (rule block_ip_address_adds [OF quiet])
  show "adds (justified parse E ev) s (snd (isolate_target (enf_env.truncate E) t s))" for s t
    by (rule isolate_target_adds [OF quiet])
  show "adds (justified parse E ev) s (snd (send_kill (enf_env.truncate E) pid sig s))"
    if "extract_str parse ev ''event'' = ''privilege_escalation''" "extract_int parse ev ''pid'' > 0"
      "pid = word_of_int (extract_int parse ev ''pid'')" "1 < pid" "pid \<noteq> mi_getpid E" for s pid sig
  proof -
    have "sint pid \<noteq> sint (0 :: 32 word)" "sint pid \<noteq> sint (1 :: 32 word)" "sint pid \<noteq> sint (mi_getpid E)"
      unfolding sint_inj using that(4,5) by auto
    then show ?thesis using that by (simp add: send_kill_def Let_def)
  qed
qed (auto simp: adds_refl log_enforcement_def intro: adds_trans)

interpretation audited: responding "adds (logged_with (sha256_hex L ev))" parse L E ev
  for parse L E ev
proof unfold_locales
  have quiet: "logged_with h x" if "filtering x" for h x using that by (cases x) (auto simp: filtering_def)
  show "adds (logged_with (sha256_hex L ev)) s (snd (block_ip_address (enf_env.truncate E) ip s))" for s ip
    by (rule block_ip_address_adds [OF quiet])
  show "adds (logged_with (sha256_hex L ev)) s (snd (isolate_target (enf_env.truncate E) t s))" for s t
    by (rule isolate_target_adds [OF quiet])
qed (auto simp: adds_refl log_enforcement_def send_kill_def Let_def intro: adds_trans)

interpretation grows: responding "adds (\<lambda>_. True)" parse L E ev
  for parse L E ev
  by unfold_locales
    (auto simp: adds_refl log_enforcement_def send_kill_def Let_def intro: adds_trans block_ip_address_adds isolate_target_adds)

interpretation safe_nodes: responding "keeps_safe n" parse L E ev
  for n parse L E ev
proof unfold_locales
  show "keeps_safe n s (snd (block_ip_address (enf_env.truncate E) ip s))" for s ip
    using enf_step_safe [of s n "enf_env.truncate E" "BlockIpAddress ip"] by (simp add: keeps_safe_def)
  show "keeps_safe n s (snd (isolate_target (enf_env.truncate E) t s))" for s t
    using enf_step_safe [of s n "enf_env.truncate E" "IsolateTarget t"] by (simp add: keeps_safe_def)
qed (auto simp: keeps_safe_def is_safe_def log_enforcement_def enf_emit_def send_kill_def Let_def)

interpretation local_host: responding "adds spares_local" parse L E ev
  for parse L E ev
proof unfold_locales
  show "adds spares_local s (snd (block_ip_address (enf_env.truncate E) ip s))" for s ip
    by (rule block_ip_address_adds) (simp add: filtering_def)
  show "adds spares_local s (snd (isolate_target (enf_env.truncate E) t s))" for s t
    by (rule isolate_target_adds) (simp add: filtering_def)
qed (auto simp: adds_refl log_enforcement_def send_kill_def Let_def intro: adds_trans)



section \<open>Properties\<close>


lemma sint_32: "- (2 ^ 31) \<le> i \<Longrightarrow> i < 2 ^ 31 \<Longrightarrow> sint (word_of_int i :: 32 word) = i"
  by (simp add: sint_sbintrunc' signed_take_bit_int_eq_self)

lemma sint_64: "- (2 ^ 63) \<le> i \<Longrightarrow> i < 2 ^ 63 \<Longrightarrow> sint (word_of_int i :: 64 word) = i"
  by (simp add: sint_sbintrunc' signed_take_bit_int_eq_self)

lemma less_32: "1 < i \<Longrightarrow> i < 2 ^ 32 \<Longrightarrow> 1 < (word_of_int i :: 32 word)"
  by (simp add: word_less_def uint_word_of_int take_bit_int_eq_self)

lemma wrapped_pid:
  assumes "raw = 2 ^ 32 - k" "1 \<le> k" "k \<le> 2 ^ 31"
  shows "(word_of_int raw :: 32 word) = word_of_int (- k)" "sint (word_of_int raw :: 32 word) = - k" "1 < (word_of_int raw :: 32 word)"
proof -
  show same: "(word_of_int raw :: 32 word) = word_of_int (- k)"
    by (simp add: word_of_int_eq_iff take_bit_eq_mod mod_eq_dvd_iff assms(1))
  show "sint (word_of_int raw :: 32 word) = - k" unfolding same by (rule sint_32) (use assms in simp_all)
  show "1 < (word_of_int raw :: 32 word)" by (rule less_32) (use assms in simp_all)
qed

text \<open>
  A process identifier beyond 32 bits is reduced: evidence of a privilege escalation with the
  identifier \<open>2^32 - k\<close> makes a node that may signal it send \<open>SIGKILL\<close> to \<open>-k\<close>, which is every
  process for \<open>k = 1\<close> and the process group \<open>k\<close> otherwise.
\<close>

theorem wrapped_pid_kills_group:
  assumes "length ev \<le> 8192" "ev \<noteq> []" "parse ev = JsonObject j" "j ''event'' = Some (JsonString ''privilege_escalation'')"
    and "j ''pid'' = Some (JsonInt (2 ^ 32 - k))" "1 \<le> k" "k \<le> 2 ^ 31"
    and "sha256_hex L ev \<noteq> []" "mi_getpid E \<noteq> word_of_int (- k)" "\<And>out. ee_kill E out (- k) ''0''"
  shows "\<exists>ok. Signal (- k) ''SIGKILL'' ok \<in> set (en_out (snd (execute_response parse L E ev t s)))"
proof -
  define raw where "raw = 2 ^ 32 - k"
  have [simp]: "sint (word_of_int raw :: 64 word) = raw" by (rule sint_64) (use assms(6,7) in \<open>simp_all add: raw_def\<close>)
  have "0 < raw" using assms(7) by (simp add: raw_def)
  have pid: "extract_str parse ev ''event'' = ''privilege_escalation''" "extract_int parse ev ''pid'' = raw"
    using assms(3,4) assms(5) [folded raw_def] by (simp_all add: extract_str_def extract_int_def)
  have valid: "validate_evidence_schema parse ev"
    using assms(1-4) by (simp add: validate_evidence_schema_def valid_fields_def)
  note wrap = wrapped_pid [OF raw_def assms(6,7)]
  let ?h = "sha256_hex L ev"
  let ?s1 = "snd (kill_part E ''privilege_escalation'' raw ?h s)"
  have "ee_kill (enf_env.truncate E) out (- k) ''0''" for out using assms(10) by (simp add: enf_env.truncate_def)
  then have "\<exists>ok. Signal (- k) ''SIGKILL'' ok \<in> set (en_out ?s1)"
    using assms(9) wrap \<open>0 < raw\<close>
    by (auto simp: kill_part_def terminate_process_def validate_pid_def send_kill_def log_enforcement_def enf_emit_def Let_def)
  moreover have "adds (\<lambda>_. True) ?s1 (snd (execute_response parse L E ev t s))"
    using grows.responds_after_kill [OF valid assms(8), of E s t] by (simp add: pid)
  ultimately show ?thesis by (auto simp: adds_def)
qed


theorem wrapped_pid_kills_group_witness:
  "\<exists>ok. Signal (- 1) ''SIGKILL'' ok
     \<in> set (en_out (snd (execute_response demo_parser demo_ssl demo_mit_env demo_evidence ''BRAVO'' demo_enforcer)))"
proof (rule wrapped_pid_kills_group)
  show "demo_parser demo_evidence
      = JsonObject [''event'' \<mapsto> JsonString ''privilege_escalation'', ''pid'' \<mapsto> JsonInt 4294967295]"
    by (simp add: demo_parser_def)
  show "length demo_evidence \<le> 8192" "demo_evidence \<noteq> []" "sha256_hex demo_ssl demo_evidence \<noteq> []"
    "mi_getpid demo_mit_env \<noteq> word_of_int (- 1)"
    by code_simp+
qed (simp_all add: demo_mit_env_def demo_enf_env_def enf_env.extend_def)

end
