(* ===== verification/Sensor.thy ===== *)
theory Sensor
  imports Mitigation
begin

text \<open>
  The sensor: the programs of \<open>kernel/sensor.bpf.c\<close>, the event queue of
  \<open>cell/NodeAgent.{hpp,cpp}\<close> and the anomaly score of \<open>cell/InferenceEngine.{hpp,cpp}\<close>. A packet is the list of
  its bytes; a BPF map is a map from keys, as the bytes in memory, to values. The helpers of the
  kernel that read user memory, the ring buffer, \<open>libbpf\<close>, the ONNX run time and \<open>log2\<close> are arguments.
\<close>


section \<open>The packet filter in the kernel\<close>

datatype xdp_action = XDP_PASS | XDP_DROP

definition xdp_neuro_mesh_dropper :: "(nat list \<rightharpoonup> nat) \<Rightarrow> nat list \<Rightarrow> xdp_action" where
  "xdp_neuro_mesh_dropper xdp_blacklist data =
     (if length data < 14 then XDP_PASS
      else if take 2 (drop 12 data) \<noteq> [8, 0] then XDP_PASS
      else if length data < 14 + 20 then XDP_PASS
      else
        let src_ip = take 4 (drop (14 + 12) data) in
        if xdp_blacklist src_ip = Some 1 then XDP_DROP
        else
          let lockdown_key = [255, 255, 255, 255] in
          if xdp_blacklist lockdown_key = Some 1 then XDP_DROP else XDP_PASS)"


section \<open>Probes\<close>

record kernel_event =
  ke_pid :: "32 word"
  ke_event_type :: "32 word"
  ke_comm :: string        \<comment> \<open>16 bytes\<close>
  ke_payload :: string     \<comment> \<open>256 bytes\<close>

text \<open>What the helpers return during one probe: the current process, and user memory; a read that
  faults leaves zero bytes.\<close>

record probe_env =
  pb_reserve :: bool
  pb_pid_tgid :: "64 word"
  pb_comm :: string                                      \<comment> \<open>at most 15 characters\<close>
  pb_read :: "64 word \<Rightarrow> nat \<Rightarrow> string option"            \<comment> \<open>address, length\<close>
  pb_read_str :: "64 word \<Rightarrow> nat \<Rightarrow> string option"        \<comment> \<open>without the final zero byte\<close>
  pb_msghdr :: "64 word \<Rightarrow> (64 word \<times> 64 word) option"   \<comment> \<open>\<open>msg_iov\<close>, \<open>msg_iovlen\<close>\<close>
  pb_iovec :: "64 word \<Rightarrow> (64 word \<times> 64 word) option"    \<comment> \<open>\<open>iov_base\<close>, \<open>iov_len\<close>\<close>

definition pad_zero :: "nat \<Rightarrow> string \<Rightarrow> string" where
  "pad_zero n s = take n s @ replicate (n - length s) (CHR 0x00)"

definition init_event :: "probe_env \<Rightarrow> 32 word \<Rightarrow> kernel_event" where
  "init_event B type =
     \<lparr>ke_pid = ucast (drop_bit 32 (pb_pid_tgid B)), ke_event_type = type,
      ke_comm = pad_zero 16 (pb_comm B), ke_payload = replicate 256 (CHR 0x00)\<rparr>"

definition probe_read_user :: "probe_env \<Rightarrow> 64 word \<Rightarrow> nat \<Rightarrow> kernel_event \<Rightarrow> kernel_event" where
  "probe_read_user B src len event =
     event\<lparr>ke_payload := pad_zero 256 (case pb_read B src len of None \<Rightarrow> [] | Some bytes \<Rightarrow> take len bytes)\<rparr>"

text \<open>Each probe returns the event it submits, if it could reserve room for one.\<close>

definition trace_execve :: "probe_env \<Rightarrow> 64 word \<Rightarrow> kernel_event option" where
  "trace_execve B filename =
     (if \<not> pb_reserve B then None
      else
        let event = init_event B 1 in
        Some (if filename \<noteq> 0
              then event\<lparr>ke_payload := pad_zero 256 (case pb_read_str B filename 256 of None \<Rightarrow> [] | Some s \<Rightarrow> take 255 s)\<rparr>
              else event))"

definition trace_sendto :: "probe_env \<Rightarrow> 64 word \<Rightarrow> 64 word \<Rightarrow> kernel_event option" where
  "trace_sendto B buf len =
     (if \<not> pb_reserve B then None
      else
        let event = init_event B 2 in
        Some (if len > 0 \<and> buf \<noteq> 0 \<and> len \<le> 256 then probe_read_user B buf (unat len) event else event))"

definition trace_sendmsg :: "probe_env \<Rightarrow> 64 word \<Rightarrow> kernel_event option" where
  "trace_sendmsg B msg =
     (if \<not> pb_reserve B then None
      else
        let event = init_event B 2 in
        Some (if msg \<noteq> 0
              then case pb_msghdr B msg of
                     None \<Rightarrow> event
                   | Some (msg_iov, msg_iovlen) \<Rightarrow>
                       if msg_iovlen > 0 \<and> msg_iov \<noteq> 0
                       then case pb_iovec B msg_iov of
                              None \<Rightarrow> event
                            | Some (iov_base, iov_len) \<Rightarrow>
                                if iov_len > 0 \<and> iov_base \<noteq> 0
                                then probe_read_user B iov_base (if iov_len < 256 then unat iov_len else 256) event
                                else event
                       else event
              else event))"

text \<open>\<open>addr_len\<close> is an \<open>int\<close>; it is compared with a \<open>size_t\<close> only when it is positive.\<close>

definition trace_connect :: "probe_env \<Rightarrow> 64 word \<Rightarrow> 64 word \<Rightarrow> kernel_event option" where
  "trace_connect B addr parm3 =
     (if \<not> pb_reserve B then None
      else
        let event = init_event B 3; addr_len = sint (ucast parm3 :: 32 word) in
        Some (if addr \<noteq> 0 \<and> addr_len > 0
              then probe_read_user B addr (if addr_len < 256 then nat addr_len else 256) event
              else event\<lparr>ke_payload := pad_zero 256 ''NET_CONNECT''\<rparr>))"


section \<open>The event queue\<close>

record telemetry_queue =
  tq_queue :: "kernel_event list"
  tq_drops :: nat

definition tq_max_size :: nat where "tq_max_size = 5000"

definition tq_push :: "kernel_event \<Rightarrow> telemetry_queue \<Rightarrow> telemetry_queue" where
  "tq_push event q =
     (if length (tq_queue q) < tq_max_size then q\<lparr>tq_queue := tq_queue q @ [event]\<rparr>
      else q\<lparr>tq_drops := tq_drops q + 1\<rparr>)"

definition tq_pop :: "telemetry_queue \<Rightarrow> (kernel_event \<times> telemetry_queue) option" where
  "tq_pop q = (case tq_queue q of [] \<Rightarrow> None | e # es \<Rightarrow> Some (e, q\<lparr>tq_queue := es\<rparr>))"

text \<open>The loop that drains the ring buffer: each poll hands a batch of events to the queue; a poll
  without events ends it.\<close>

fun drain_ring :: "kernel_event list list \<Rightarrow> telemetry_queue \<Rightarrow> telemetry_queue" where
  "drain_ring [] q = q"
| "drain_ring (batch # batches) q = (if batch = [] then q else drain_ring batches (fold tq_push batch q))"

function drain_queue :: "telemetry_queue \<Rightarrow> kernel_event list \<times> telemetry_queue" where
  "drain_queue q =
     (case tq_pop q of
        None \<Rightarrow> ([], q)
      | Some (e, q') \<Rightarrow> let (es, q'') = drain_queue q' in (e # es, q''))"
  by pat_completeness auto
termination
  by (relation "measure (\<lambda>q. length (tq_queue q))") (auto simp: tq_pop_def split: list.splits)

declare drain_queue.simps [simp del]

definition poll_events :: "kernel_event list list \<Rightarrow> telemetry_queue \<Rightarrow> kernel_event list \<times> telemetry_queue" where
  "poll_events batches q = drain_queue (drain_ring batches q)"


section \<open>Attaching the programs\<close>

record agent_env =
  ae_skeleton :: bool
  ae_root :: bool
  ae_unprivileged_disabled :: int         \<comment> \<open>0 if the file cannot be read\<close>
  ae_attach :: "string \<Rightarrow> bool"
  ae_getenv_iface :: "string option"
  ae_interfaces :: "string list"          \<comment> \<open>entries of \<open>/sys/class/net\<close>\<close>
  ae_ifindex :: "string \<Rightarrow> int"
  ae_attach_xdp :: "int \<Rightarrow> bool"
  ae_ring_buffer :: bool

definition skeleton_error :: "agent_env \<Rightarrow> string" where
  "skeleton_error A =
     ''Failed to open/load eBPF skeleton '' @ [CHR 0xE2, CHR 0x80, CHR 0x94, CHR '' ''] @
     (if \<not> ae_root A
      then if ae_unprivileged_disabled A \<ge> 1
           then ''kernel has unprivileged_bpf_disabled='' @ int_str (ae_unprivileged_disabled A)
                @ '' and we are not root. Run as root, grant CAP_BPF+CAP_PERFMON, ''
                @ ''or use --privileged in Docker. Falling back to /proc/net/dev entropy.''
           else ''bpf() syscall returned EPERM. Run as root or with --cap-add=CAP_BPF,CAP_PERFMON. ''
                @ ''Falling back to /proc/net/dev entropy.''
      else ''bpf() syscall failed. Check dmesg for verifier errors. Falling back to /proc/net/dev entropy.'')"

definition kprobes :: "string list" where
  "kprobes = [''trace_execve'', ''trace_sendto'', ''trace_sendmsg'', ''trace_connect'']"

text \<open>Candidates for the packet filter, without repetition, in the order of preference.\<close>

fun unique_ifaces :: "string set \<Rightarrow> string list \<Rightarrow> string list" where
  "unique_ifaces seen [] = []"
| "unique_ifaces seen (n # ns) = (if n \<in> seen then unique_ifaces seen ns else n # unique_ifaces (insert n seen) ns)"

definition xdp_interface :: "agent_env \<Rightarrow> string option" where
  "xdp_interface A =
     find (\<lambda>n. ae_ifindex A n > 0 \<and> ae_attach_xdp A (ae_ifindex A n))
       (unique_ifaces {}
         ((case ae_getenv_iface A of None \<Rightarrow> [] | Some n \<Rightarrow> [n])
          @ filter (\<lambda>n. n = [] \<or> hd n \<noteq> CHR ''.'') (ae_interfaces A) @ [''eth0'', ''lo'']))"

text \<open>The error, and the interface the packet filter is attached to.\<close>

definition load_and_attach_ebpf :: "agent_env \<Rightarrow> string + string option" where
  "load_and_attach_ebpf A =
     (if \<not> ae_skeleton A then Inl (skeleton_error A)
      else case find (\<lambda>n. \<not> ae_attach A n) kprobes of
             Some n \<Rightarrow> Inl (''Failed to attach '' @ n)
           | None \<Rightarrow> if \<not> ae_ring_buffer A then Inl ''Ring buffer creation failed'' else Inr (xdp_interface A))"

definition create_agent :: "agent_env \<Rightarrow> string + telemetry_queue" where
  "create_agent A =
     (case load_and_attach_ebpf A of Inl err \<Rightarrow> Inl err | Inr _ \<Rightarrow> Inr \<lparr>tq_queue = [], tq_drops = 0\<rparr>)"

text \<open>Where the agent pins the map of blocked addresses.\<close>

definition pin_path :: "string \<Rightarrow> string" where
  "pin_path node_id = ''/sys/fs/bpf/neuro_mesh_'' @ node_id @ ''/xdp_blacklist''"


section \<open>The anomaly score\<close>

record inference_engine =
  ie_loaded :: bool
  ie_threshold :: rat
  ie_last_score :: rat
  ie_input :: "rat list"
  ie_run_failure_logged :: bool
  ie_output_failure_logged :: bool

datatype onnx_result = RunFailed | InvalidOutput | Scores rat

definition new_inference :: "nat \<Rightarrow> nat \<Rightarrow> rat \<Rightarrow> string + inference_engine" where
  "new_inference n_inputs n_outputs threshold =
     (if n_inputs \<noteq> 1 then Inl (''Model input mismatch: expected 1, got '' @ nat_str n_inputs)
      else if n_outputs < 1 then Inl ''Model has no outputs''
      else Inr \<lparr>ie_loaded = True, ie_threshold = threshold, ie_last_score = 0, ie_input = replicate 5 0,
                ie_run_failure_logged = False, ie_output_failure_logged = False\<rparr>)"

text \<open>The output named \<open>scores\<close>, the last one of that name, else the first.\<close>

definition score_index :: "string list \<Rightarrow> nat" where
  "score_index names = fold (\<lambda>(i, n) idx. if n = ''scores'' then i else idx) (enumerate 0 names) 0"

text \<open>The sum over the byte values in their order, every operation rounded.\<close>

definition compute_entropy :: "(rat \<Rightarrow> rat) \<Rightarrow> string \<Rightarrow> rat" where
  "compute_entropy log2 data =
     (if data = [] then 0
      else
        let inv_len = fl (1 / fl (of_nat (length data))) in
        fold (\<lambda>i entropy.
            let freq = length (filter (\<lambda>c. of_char c = i) data) in
            if freq = 0 then entropy
            else let p = fl (of_nat freq * inv_len) in fl (entropy - fl (p * log2 p)))
          [0..<256 :: nat] 0)"

definition byte_ratio :: "(char \<Rightarrow> bool) \<Rightarrow> string \<Rightarrow> rat" where
  "byte_ratio P payload =
     (if payload = [] then 0
      else fl32 (fl32 (of_nat (length (filter P payload))) / fl32 (of_nat (length payload))))"

definition printable_ascii :: "char \<Rightarrow> bool" where
  "printable_ascii c \<longleftrightarrow> 32 \<le> (of_char c :: nat) \<and> (of_char c :: nat) \<le> 126"

definition extract_features :: "(rat \<Rightarrow> rat) \<Rightarrow> string \<Rightarrow> string \<Rightarrow> rat list" where
  "extract_features log2 comm payload =
     [fl32 (compute_entropy log2 payload), fl32 (of_nat (length payload)), fl32 (compute_entropy log2 comm),
      byte_ratio (\<lambda>c. c = CHR 0x00) payload, byte_ratio printable_ascii payload]"

definition ie_analyze ::
  "(rat \<Rightarrow> rat) \<Rightarrow> (rat list \<Rightarrow> onnx_result) \<Rightarrow> string \<Rightarrow> string \<Rightarrow> inference_engine \<Rightarrow> bool \<times> inference_engine" where
  "ie_analyze log2 run comm payload e =
     (if \<not> ie_loaded e then (False, e)
      else
        let e = e\<lparr>ie_input := extract_features log2 comm payload\<rparr> in
        case run (ie_input e) of
          RunFailed \<Rightarrow> (False, e\<lparr>ie_run_failure_logged := True\<rparr>)
        | InvalidOutput \<Rightarrow> (False, e\<lparr>ie_run_failure_logged := False, ie_output_failure_logged := True\<rparr>)
        | Scores score \<Rightarrow>
            (score < ie_threshold e,
             e\<lparr>ie_run_failure_logged := False, ie_output_failure_logged := False, ie_last_score := score\<rparr>))"

definition ie_verdict :: "inference_engine \<Rightarrow> string" where
  "ie_verdict e = (if ie_last_score e < ie_threshold e then ''CRITICAL'' else ''NONE'')"

definition ie_decay :: "rat \<Rightarrow> inference_engine \<Rightarrow> inference_engine" where
  "ie_decay factor e =
     (let current = ie_last_score e in
      if current > 0 then e\<lparr>ie_last_score := fl32 (current * fl32 (1 - factor))\<rparr>
      else if current < 0 then e\<lparr>ie_last_score := fl32 (current * fl32 (1 - factor))\<rparr>
      else e)"


section \<open>Vocabulary of the statements\<close>

text \<open>The contents of the pinned map after the calls of a trace: an update that succeeded stores 1, a
  deletion that succeeded removes the key.\<close>

fun bpf_effect :: "string \<Rightarrow> enf_out \<Rightarrow> (nat list \<rightharpoonup> nat) \<Rightarrow> (nat list \<rightharpoonup> nat)" where
  "bpf_effect path (BpfUpdate p key ok) m = (if ok \<and> p = path then m(key \<mapsto> 1) else m)"
| "bpf_effect path (BpfDelete p key ok) m = (if ok \<and> p = path then m(key := None) else m)"
| "bpf_effect path _ m = m"

definition blacklist_of :: "string \<Rightarrow> enf_out list \<Rightarrow> (nat list \<rightharpoonup> nat)" where
  "blacklist_of path out = fold (bpf_effect path) out Map.empty"

text \<open>The packet filter of the node, on the map the enforcer writes.\<close>

definition packet_verdict :: "enforcer \<Rightarrow> nat list \<Rightarrow> xdp_action" where
  "packet_verdict s data = xdp_neuro_mesh_dropper (blacklist_of (c_string (map_path s)) (en_out s)) data"

definition ipv4_packet :: "nat list \<Rightarrow> bool" where
  "ipv4_packet data \<longleftrightarrow> 34 \<le> length data \<and> take 2 (drop 12 data) = [8, 0]"

definition source_address :: "nat list \<Rightarrow> nat list" where
  "source_address data = take 4 (drop 26 data)"

text \<open>The events of a poll.\<close>

definition ring_events :: "kernel_event list list \<Rightarrow> kernel_event list" where
  "ring_events batches = concat (takeWhile (\<lambda>b. b \<noteq> []) batches)"

definition well_formed_event :: "kernel_event \<Rightarrow> bool" where
  "well_formed_event e \<longleftrightarrow> length (ke_comm e) = 16 \<and> length (ke_payload e) = 256 \<and> CHR 0x00 \<in> set (ke_comm e)
     \<and> (ke_event_type e = 1 \<longrightarrow> CHR 0x00 \<in> set (ke_payload e))"

definition bpf_env :: enf_env where
  "bpf_env = demo_enf_env\<lparr>ee_bpf_get := (\<lambda>_ _. True), ee_bpf_update := (\<lambda>_ _ _. True)\<rparr>"

definition demo_packet :: "nat list" where
  "demo_packet = replicate 12 0 @ [8, 0] @ replicate 12 0 @ [10, 0, 0, 1] @ replicate 4 0"

definition demo_probe :: probe_env where
  "demo_probe =
     \<lparr>pb_reserve = True, pb_pid_tgid = 42, pb_comm = ''sh'', pb_read = (\<lambda>_ n. Some (replicate n (CHR ''x''))),
      pb_read_str = (\<lambda>_ _. Some ''/bin/sh''), pb_msghdr = (\<lambda>_. None), pb_iovec = (\<lambda>_. None)\<rparr>"


section \<open>Packets and the enforcer\<close>

lemma blacklist_of_emit [simp]: "blacklist_of path (out @ [x]) = bpf_effect path x (blacklist_of path out)"
  by (simp add: blacklist_of_def)

lemma map_path_out [simp]: "map_path (s\<lparr>en_out := out\<rparr>) = map_path s"
  by (simp add: map_path_def)

lemma xdp_cases:
  "ipv4_packet data \<Longrightarrow> xdp_neuro_mesh_dropper m data
     = (if m (source_address data) = Some 1 \<or> m [255, 255, 255, 255] = Some 1 then XDP_DROP else XDP_PASS)"
  by (simp add: xdp_neuro_mesh_dropper_def ipv4_packet_def source_address_def Let_def)

text \<open>The enforcer opens the map that the agent pins.\<close>

lemma map_path_pinned: "n \<noteq> [] \<Longrightarrow> map_path (set_node_id n s) = pin_path n"
  by (simp add: map_path_def set_node_id_def pin_path_def)

lemma apply_ebpf_drop_effect:
  assumes "apply_ebpf_drop E ip s = (True, s')"
  obtains key where "inet_pton4 ip = Some key" "inet_ntop4 key = ip"
    "blacklist_of (c_string (map_path s')) (en_out s') = (blacklist_of (c_string (map_path s)) (en_out s))(key \<mapsto> 1)"
proof -
  from assms obtain key where key: "inet_pton4 (c_string ip) = Some key" "is_valid_ipv4 ip"
    and s': "s' = enf_emit (BpfUpdate (c_string (map_path s)) key True) (enf_emit (BpfOpen (c_string (map_path s)) True) s)"
    by (auto simp: apply_ebpf_drop_def bpf_obj_get_def Let_def split: if_splits option.splits)
  have printed: "inet_ntop4 key = ip" "c_string ip = ip" using valid_ipv4_text [OF key(2,1)] by simp_all
  with key have "inet_pton4 ip = Some key" by simp
  moreover have "blacklist_of (c_string (map_path s')) (en_out s') = (blacklist_of (c_string (map_path s)) (en_out s))(key \<mapsto> 1)"
    by (simp add: s' enf_emit_def blacklist_of_def)
  ultimately show thesis using that printed(1) by blast
qed

text \<open>
  C17. The filter in the kernel does what the enforcer asked for: after a successful block through
  eBPF, an IPv4 packet from the address is dropped; the fate of any other packet is unchanged - unless
  the address is the broadcast address.
\<close>

theorem ebpf_block_exact:
  assumes "apply_ebpf_drop E ip s = (True, s')" "ipv4_packet data" "ip \<noteq> ''255.255.255.255''"
  shows "packet_verdict s' data =
    (if inet_pton4 ip = Some (source_address data) then XDP_DROP else packet_verdict s data)"
proof -
  from assms(1) obtain key where key: "inet_pton4 ip = Some key" "inet_ntop4 key = ip"
    "blacklist_of (c_string (map_path s')) (en_out s') = (blacklist_of (c_string (map_path s)) (en_out s))(key \<mapsto> 1)"
    by (rule apply_ebpf_drop_effect)
  have "inet_ntop4 [255, 255, 255, 255] = ''255.255.255.255''"
    by (simp add: inet_ntop4_def nat_str.simps digit_char_def char_of_eq_iff)
  then have "key \<noteq> [255, 255, 255, 255]" using assms(3) key(2) by metis
  then show ?thesis using key(1) by (simp add: packet_verdict_def xdp_cases [OF assms(2)] key(3))
qed

text \<open>
  Blocking the broadcast address cuts the node off: \<open>255.255.255.255\<close> passes every check of
  \<open>block_ip_address\<close>, and its bytes are the key that the program in the kernel reads as a lock-down, so
  that every IPv4 packet is dropped, whatever its source.
\<close>

theorem broadcast_block_locks_down:
  assumes "\<And>out path. ee_bpf_get E out path" "\<And>out path key. ee_bpf_update E out path key" "ipv4_packet data"
  shows "fst (block_ip_address E ''255.255.255.255'' s)
    \<and> packet_verdict (snd (block_ip_address E ''255.255.255.255'' s)) data = XDP_DROP"
proof -
  let ?ip = "''255.255.255.255''"
  have ip: "is_valid_ipv4 ?ip" "is_valid_ip ?ip" "\<not> local_address ?ip" "inet_pton4 ?ip = Some [255, 255, 255, 255]" "c_string ?ip = ?ip"
    by code_simp+
  then obtain s' where s': "apply_ebpf_drop E ?ip s = (True, s')"
    using assms(1,2) by (simp add: apply_ebpf_drop_def bpf_obj_get_def Let_def)
  then have block: "block_ip_address E ?ip s = (True, s')"
    using ip by (simp add: block_ip_address_def local_address_def)
  from s' obtain key where "inet_pton4 ?ip = Some key"
    "blacklist_of (c_string (map_path s')) (en_out s') = (blacklist_of (c_string (map_path s)) (en_out s))(key \<mapsto> 1)"
    by (rule apply_ebpf_drop_effect)
  then show ?thesis using block ip(4) by (simp add: packet_verdict_def xdp_cases [OF assms(3)])
qed


section \<open>The event queue\<close>

lemma fold_push:
  "length es \<le> tq_max_size \<Longrightarrow> fold tq_push evs \<lparr>tq_queue = es, tq_drops = d\<rparr>
     = \<lparr>tq_queue = take tq_max_size (es @ evs), tq_drops = d + (length (es @ evs) - tq_max_size)\<rparr>"
proof (induction evs arbitrary: es d)
  case (Cons e evs)
  show ?case
  proof (cases "length es < tq_max_size")
    case True
    then show ?thesis using Cons.IH [of "es @ [e]" d] by (simp add: tq_push_def)
  next
    case False
    then have "length es = tq_max_size" using Cons.prems by simp
    then show ?thesis using Cons.IH [of es "d + 1"] by (simp add: tq_push_def)
  qed
qed simp

lemma drain_ring_fold: "drain_ring batches q = fold tq_push (ring_events batches) q"
  by (induction batches q rule: drain_ring.induct) (auto simp: ring_events_def)

lemma drain_queue_all: "drain_queue q = (tq_queue q, q\<lparr>tq_queue := []\<rparr>)"
proof (induction q rule: drain_queue.induct)
  case (1 q)
  then show ?case by (subst drain_queue.simps) (auto simp: tq_pop_def split: list.splits)
qed



section \<open>Events\<close>

lemma length_pad_zero [simp]: "length (pad_zero n s) = n"
  by (simp add: pad_zero_def)

lemma pad_zero_terminated: "length s < n \<Longrightarrow> CHR 0x00 \<in> set (pad_zero n s)"
  by (simp add: pad_zero_def)

lemma init_event_well_formed: "length (pb_comm B) \<le> 15 \<Longrightarrow> well_formed_event (init_event B ty)"
  by (simp add: well_formed_event_def init_event_def pad_zero_terminated)

lemma with_payload_well_formed:
  "well_formed_event e \<Longrightarrow> ke_event_type e \<noteq> 1 \<or> length s < 256 \<Longrightarrow> well_formed_event (e\<lparr>ke_payload := pad_zero 256 s\<rparr>)"
  by (auto simp: well_formed_event_def pad_zero_terminated)

lemma probe_read_user_well_formed:
  "well_formed_event e \<Longrightarrow> ke_event_type e \<noteq> 1 \<Longrightarrow> well_formed_event (probe_read_user B src len e)"
  by (simp add: probe_read_user_def with_payload_well_formed)

lemma init_event_type [simp]: "ke_event_type (init_event B ty) = ty"
  by (simp add: init_event_def)

lemma trace_execve_well_formed:
  assumes "length (pb_comm B) \<le> 15" "trace_execve B a = Some e"
  shows "well_formed_event e"
proof -
  have "length (case pb_read_str B a 256 of None \<Rightarrow> [] | Some s \<Rightarrow> take 255 s) < 256" by (auto split: option.split)
  then show ?thesis
    using assms by (auto simp: trace_execve_def Let_def init_event_well_formed split: if_splits intro: with_payload_well_formed)
qed

lemma trace_sendto_well_formed:
  "length (pb_comm B) \<le> 15 \<Longrightarrow> trace_sendto B a b = Some e \<Longrightarrow> well_formed_event e"
  by (auto simp: trace_sendto_def Let_def init_event_well_formed split: if_splits intro: probe_read_user_well_formed)

lemma trace_sendmsg_well_formed:
  assumes "length (pb_comm B) \<le> 15" "trace_sendmsg B a = Some e"
  shows "well_formed_event e"
proof -
  have "e = init_event B 2 \<or> (\<exists>base len. e = probe_read_user B base len (init_event B 2))"
    using assms(2) unfolding trace_sendmsg_def Let_def by (simp split: if_splits option.splits prod.splits) blast+
  then show ?thesis using assms(1) by (auto simp: init_event_well_formed intro: probe_read_user_well_formed)
qed

lemma trace_connect_well_formed:
  assumes "length (pb_comm B) \<le> 15" "trace_connect B a b = Some e"
  shows "well_formed_event e"
proof -
  have "(\<exists>len. e = probe_read_user B a len (init_event B 3)) \<or> e = init_event B 3\<lparr>ke_payload := pad_zero 256 ''NET_CONNECT''\<rparr>"
    using assms(2) unfolding trace_connect_def Let_def by (simp split: if_splits) blast+
  then show ?thesis
    using assms(1) by (auto simp: init_event_well_formed intro: probe_read_user_well_formed with_payload_well_formed)
qed



text \<open>A message of exactly 256 bytes without a zero byte fills the payload, and no terminator is left;
  the heartbeat reads it as a C string.\<close>

lemma sendto_unterminated:
  assumes "pb_reserve B" "buf \<noteq> 0" "pb_read B buf 256 = Some bytes" "length bytes = 256" "CHR 0x00 \<notin> set bytes"
  shows "\<exists>e. trace_sendto B buf 256 = Some e \<and> CHR 0x00 \<notin> set (ke_payload e)"
  using assms by (simp add: trace_sendto_def probe_read_user_def pad_zero_def Let_def)

text \<open>The ratio of zero bytes of a text that was read as a C string is zero.\<close>

lemma null_ratio_zero: "extract_features log2 comm (c_string payload) ! 3 = 0"
proof -
  have "filter (\<lambda>c. c = CHR 0x00) (c_string payload) = []"
    by (auto simp: c_string_def filter_empty_conv dest: set_takeWhileD)
  then show ?thesis by (simp add: extract_features_def byte_ratio_def fl32_def)
qed

lemma demo_block: "apply_ebpf_drop bpf_env ''10.0.0.1'' (new_enforcer bpf_env)
   = (True, snd (apply_ebpf_drop bpf_env ''10.0.0.1'' (new_enforcer bpf_env)))"
proof -
  have "fst (apply_ebpf_drop bpf_env ''10.0.0.1'' (new_enforcer bpf_env))" by code_simp
  then show ?thesis by (simp add: prod_eq_iff)
qed

lemma demo_packet_source: "ipv4_packet demo_packet" "inet_pton4 ''10.0.0.1'' = Some (source_address demo_packet)"
  by code_simp+

theorem ebpf_block_exact_witness:
  "packet_verdict (snd (apply_ebpf_drop bpf_env ''10.0.0.1'' (new_enforcer bpf_env))) demo_packet = XDP_DROP"
  using ebpf_block_exact [OF demo_block demo_packet_source(1)] demo_packet_source(2) by simp

theorem broadcast_block_locks_down_witness:
  "packet_verdict (snd (block_ip_address bpf_env ''255.255.255.255'' (new_enforcer bpf_env))) demo_packet = XDP_DROP"
  using broadcast_block_locks_down [of bpf_env demo_packet "new_enforcer bpf_env"]
    demo_packet_source(1) by (simp add: bpf_env_def)

end
