(* ===== verification/Float_Text.thy ===== *)
theory Float_Text
  imports Cpp
begin

text \<open>
  How the sources print a floating-point number: \<open>std::to_string\<close> with six decimal
  places, and the insertion into an \<open>std::ostringstream\<close> with six significant digits. Counters below a million
  come out exactly; larger ones are rounded.
\<close>


section \<open>Fixed notation\<close>

text \<open>\<open>std::to_string\<close> of a floating-point number: six decimal places.\<close>

definition fixed6 :: "rat \<Rightarrow> string" where
  "fixed6 x =
     (let n = nat \<bar>round_even (x * 1000000)\<bar>; digits = nat_str (n mod 1000000)
      in (if x < 0 then ''-'' else []) @ nat_str (n div 1000000) @ ''.'' @ replicate (6 - length digits) (CHR ''0'') @ digits)"


section \<open>General notation\<close>

text \<open>
  \<open>operator<<\<close> of an \<open>std::ostream\<close> with its default format, the conversion
  \<open>%g\<close>: six significant digits, rounded to even, trailing zeros removed, in scientific
  notation when the exponent is below -4 or above 5.
\<close>

definition pow10 :: "int \<Rightarrow> rat" where
  "pow10 e = (if e \<ge> 0 then 10 ^ nat e else 1 / 10 ^ nat (- e))"

definition dec_exponent :: "rat \<Rightarrow> int" where
  "dec_exponent x =
     (if 1 \<le> x then int (length (nat_str (nat \<lfloor>x\<rfloor>))) - 1
      else - int (length (nat_str (nat (\<lceil>1 / x\<rceil> - 1)))))"

definition strip_zeros :: "string \<Rightarrow> string" where
  "strip_zeros s = rev (dropWhile (\<lambda>c. c = CHR ''0'') (rev s))"

definition with_fraction :: "string \<Rightarrow> string \<Rightarrow> string" where
  "with_fraction whole digits = (let f = strip_zeros digits in whole @ (if f = [] then [] else CHR ''.'' # f))"

definition significand :: "rat \<Rightarrow> nat \<times> int" where
  "significand y =
     (let e = dec_exponent y; m = nat (round_even (y * pow10 (5 - e)))
      in if m = 1000000 then (100000, e + 1) else (m, e))"

definition general6 :: "rat \<Rightarrow> string" where
  "general6 x =
     (if x = 0 then ''0''
      else
        let (m, e) = significand \<bar>x\<bar>; ds = nat_str m; es = nat_str (nat \<bar>e\<bar>)
        in (if x < 0 then ''-'' else [])
           @ (if 0 \<le> e \<and> e < 6 then with_fraction (take (nat e + 1) ds) (drop (nat e + 1) ds)
              else if - 4 \<le> e \<and> e < 0 then ''0.'' @ replicate (nat (- e - 1)) (CHR ''0'') @ strip_zeros ds
              else with_fraction (take 1 ds) (drop 1 ds) @ ''e'' @ (if e < 0 then ''-'' else ''+'')
                   @ replicate (2 - length es) (CHR ''0'') @ es))"


section \<open>Whole numbers\<close>

lemma nat_str_upper: "n < 10 ^ length (nat_str n)"
proof (induction n rule: nat_str.induct)
  case (1 n)
  show ?case
  proof (cases "n < 10")
    case False
    with 1 have "n div 10 < 10 ^ length (nat_str (n div 10))" by simp
    then have "n < 10 * 10 ^ length (nat_str (n div 10))" by linarith
    with False show ?thesis by (subst nat_str.simps) simp
  qed (subst nat_str.simps, simp)
qed

lemma nat_str_lower: "0 < n \<Longrightarrow> 10 ^ (length (nat_str n) - 1) \<le> n"
proof (induction n rule: nat_str.induct)
  case (1 n)
  show ?case
  proof (cases "n < 10")
    case True
    then show ?thesis using 1(2) by (subst nat_str.simps) simp
  next
    case False
    then have "10 ^ (length (nat_str (n div 10)) - 1) \<le> n div 10" using 1 by simp
    moreover obtain k where "length (nat_str (n div 10)) = Suc k"
      using nat_str_nonempty [of "n div 10"] by (cases "nat_str (n div 10)") auto
    ultimately have "10 ^ k \<le> n div 10" by simp
    then have "10 * 10 ^ k \<le> n" by linarith
    moreover have "length (nat_str n) = Suc (Suc k)"
      using False \<open>length (nat_str (n div 10)) = Suc k\<close> by (subst nat_str.simps) simp
    ultimately show ?thesis by simp
  qed
qed

lemma length_nat_str_le: "n < 10 ^ k \<Longrightarrow> 0 < k \<Longrightarrow> length (nat_str n) \<le> k"
proof (cases "n = 0")
  case False
  assume less: "n < 10 ^ k" and pos: "0 < k"
  have "(10::nat) ^ (length (nat_str n) - 1) < 10 ^ k" using nat_str_lower [of n] False less by linarith
  then have "length (nat_str n) - 1 < k" by (rule power_less_imp_less_exp [rotated]) simp
  then show ?thesis by simp
qed (simp add: nat_str.simps)

lemma digit_char_0 [simp]: "digit_char 0 = CHR ''0''"
  by (simp add: digit_char_def char_of_eq_iff)

lemma nat_str_shift: "0 < n \<Longrightarrow> nat_str (n * 10 ^ j) = nat_str n @ replicate j (CHR ''0'')"
proof (induction j)
  case (Suc j)
  have "10 * (n * 10 ^ j) \<ge> 10" using Suc.prems by simp
  then have "nat_str (10 * (n * 10 ^ j)) = nat_str (n * 10 ^ j) @ [digit_char 0]"
    by (subst nat_str.simps) simp
  with Suc show ?case by (simp add: ac_simps replicate_append_same)
qed simp

lemma strip_zeros_replicate [simp]: "strip_zeros (replicate j (CHR ''0'')) = []"
  by (simp add: strip_zeros_def)

lemma round_even_int [simp]: "round_even (of_int n) = n"
  by (simp add: round_even_def)

lemma round_even_nat [simp]: "round_even (of_nat n) = int n"
  using round_even_int [of "int n"] by simp

text \<open>Whole numbers below a million are printed with all their digits.\<close>

lemma general6_nat:
  assumes "n < 1000000"
  shows "general6 (of_nat n) = nat_str n"
proof (cases "n = 0")
  case False
  define k where "k = length (nat_str n)"
  have k: "0 < k" "k \<le> 6" using length_nat_str_le [of n 6] assms by (auto simp: k_def)
  have exp: "dec_exponent (of_nat n) = int k - 1" using False by (simp add: dec_exponent_def k_def)
  have "n * 10 ^ (6 - k) < 10 ^ k * 10 ^ (6 - k)" using nat_str_upper [of n] by (simp add: k_def)
  also have "\<dots> = 1000000" using k(2) by (simp flip: power_add)
  finally have small: "n * 10 ^ (6 - k) \<noteq> 1000000" by simp
  have "pow10 (5 - (int k - 1)) = 10 ^ (6 - k)" using k by (simp add: pow10_def nat_diff_distrib)
  then have "of_nat n * pow10 (5 - (int k - 1)) = of_nat (n * 10 ^ (6 - k))" by simp
  then have "significand (of_nat n) = (n * 10 ^ (6 - k), int k - 1)"
    using small by (simp add: significand_def exp Let_def del: of_nat_mult of_nat_power)
  moreover have "nat (int k - 1) + 1 = k" using k(1) by simp
  ultimately show ?thesis
    using False k by (simp add: general6_def Let_def nat_str_shift with_fraction_def k_def)
qed (simp add: general6_def nat_str.simps)

text \<open>Beyond a million a step of a counter is no longer seen.\<close>

lemma significand_million: "significand 1000000 = (100000, 6)" "significand 1000001 = (100000, 6)"
proof -
  have "length (nat_str 1000000) = 7" "length (nat_str 1000001) = 7" by (simp_all add: nat_str.simps)
  then have "dec_exponent 1000000 = 6" "dec_exponent 1000001 = 6" by (simp_all add: dec_exponent_def)
  moreover have "\<lfloor>1000001 / 10 :: rat\<rfloor> = 100000" by (simp add: floor_eq_iff)
  ultimately show "significand 1000000 = (100000, 6)" "significand 1000001 = (100000, 6)"
    by (simp_all add: significand_def pow10_def round_even_def Let_def)
qed

lemma general6_million: "general6 1000000 = general6 1000001"
  by (simp add: general6_def significand_million)

end
