(* ===== verification/Daemon.thy ===== *)
theory Daemon
  imports MeshSafety Sensor Rate_Limit Float_Text
begin

text \<open>
  \<open>main.cpp\<close>: the process that owns the components - the mesh node, the enforcer with the mitigation
  engine, the sensor with the anomaly score, the control socket and the heartbeat. The state is the record
  \<open>daemon\<close>; an event is an event of the mesh node, a client of the control socket or a tick of the
  heartbeat. What the mesh node hands to the enforcer and to the mitigation engine is delivered in the
  order of its trace. \<open>None\<close> stands for undefined behaviour.
\<close>


section \<open>State and environment\<close>

record heartbeat_state =
  hb_seq :: int
  hb_first :: bool
  hb_last_consensus_us :: int
  hb_prev_bytes :: uint64
  hb_prev_time :: "time option"

record daemon =
  dm_node_id :: node_id
  dm_mesh :: mesh_node
  dm_enforcer :: enforcer
  dm_inference :: "inference_engine option"
  dm_agent :: "telemetry_queue option"
  dm_limits :: "32 word \<rightharpoonup> time list"
  dm_token :: string
  dm_running :: bool
  dm_heartbeat :: heartbeat_state
  dm_replies :: "string list"

record daemon_env =
  de_mesh :: mesh_env
  de_mit :: mit_env
  de_parse :: json_parser
  de_uid :: "32 word"
  de_uid_ord :: "32 word list"            \<comment> \<open>order of the table of limits\<close>
  de_evict_now :: time                    \<comment> \<open>the second reading of the clock\<close>
  de_pid :: "32 word"
  de_ring :: "kernel_event list list"
  de_log2 :: "rat \<Rightarrow> rat"
  de_onnx :: "rat list \<Rightarrow> onnx_result"
  de_loadavg :: "rat option"
  de_nproc :: int
  de_cgroup_v2 :: "string option"         \<comment> \<open>contents of the files, if they can be opened\<close>
  de_cgroup_v1 :: "string option"
  de_sysinfo :: "(uint64 \<times> uint64) option" \<comment> \<open>total and free memory\<close>
  de_net_dev :: "string option"


section \<open>The control socket\<close>

definition IPC_RATE_LIMIT_PER_SEC :: nat where "IPC_RATE_LIMIT_PER_SEC = 10"

text \<open>The window of one user.\<close>

definition ipc_window :: "time \<Rightarrow> time list \<Rightarrow> bool \<times> time list" where
  "ipc_window now window =
     (let window = dropWhile (\<lambda>t. dsecs (now - t) \<ge> 1) window in
      if length window \<ge> IPC_RATE_LIMIT_PER_SEC then (False, window) else (True, window @ [now]))"

definition drop_empty_windows :: "(32 word \<rightharpoonup> time list) \<Rightarrow> (32 word \<rightharpoonup> time list)" where
  "drop_empty_windows limits = (\<lambda>uid. if limits uid = Some [] then None else limits uid)"

fun oldest_window :: "(32 word \<rightharpoonup> time list) \<Rightarrow> time \<Rightarrow> 32 word option \<Rightarrow> 32 word list \<Rightarrow> 32 word option" where
  "oldest_window limits oldest_time oldest [] = oldest"
| "oldest_window limits oldest_time oldest (uid # uids) =
     (case limits uid of
        Some (t # ts) \<Rightarrow> if t < oldest_time then oldest_window limits t (Some uid) uids
                         else oldest_window limits oldest_time oldest uids
      | _ \<Rightarrow> oldest_window limits oldest_time oldest uids)"

definition ipc_rate_check ::
  "daemon_env \<Rightarrow> 32 word \<Rightarrow> (32 word \<rightharpoonup> time list) \<Rightarrow> bool \<times> (32 word \<rightharpoonup> time list)" where
  "ipc_rate_check E uid limits =
     (let now = env_now (de_mesh E);
          limits = (if card (dom limits) > 256 then drop_empty_windows limits else limits);
          limits = (if card (dom limits) > 256
                    then case oldest_window limits (de_evict_now E) None (de_uid_ord E) of
                           None \<Rightarrow> limits | Some u \<Rightarrow> limits(u := None)
                    else limits);
          (ok, window) = ipc_window now (case limits uid of None \<Rightarrow> [] | Some w \<Rightarrow> w)
      in (ok, limits(uid \<mapsto> window)))"

text \<open>One connection: the user the kernel reports, and what the first and the second \<open>read\<close> return;
  the empty text stands for a failure or the end of the stream.\<close>

record ipc_session =
  is_uid :: "32 word option"
  is_first :: string
  is_second :: string

definition is_newline :: "char \<Rightarrow> bool" where
  "is_newline c \<longleftrightarrow> c = CHR 0x0A \<or> c = CHR 0x0D"

definition trim_token :: "string \<Rightarrow> string" where
  "trim_token s = rev (dropWhile (\<lambda>c. is_newline c \<or> c = CHR '' '') (rev s))"

definition received_token :: "string \<Rightarrow> string" where
  "received_token auth_line =
     trim_token (if starts_with ''AUTH '' auth_line then takeWhile (\<lambda>c. \<not> is_newline c) (drop 5 auth_line) else auth_line)"

text \<open>What follows the first line.\<close>

definition trailing_command :: "string \<Rightarrow> string" where
  "trailing_command auth_line = dropWhile is_newline (drop 1 (dropWhile (\<lambda>c. c \<noteq> CHR 0x0A) auth_line))"

datatype ipc_input = InputClosed | InputRefused string | InputCommand string

definition ipc_read :: "string \<Rightarrow> ipc_session \<Rightarrow> ipc_input" where
  "ipc_read token S =
     (if token \<noteq> []
      then if is_first S = [] then InputClosed
           else let auth_line = c_string (is_first S) in
                if received_token auth_line \<noteq> token then InputRefused ''REJECT:AUTH_TOKEN\<newline>''
                else let cmd = trailing_command auth_line in
                     if cmd \<noteq> [] then InputCommand cmd
                     else if is_second S = [] then InputClosed else InputCommand (c_string (is_second S))
      else if is_first S = [] then InputClosed else InputCommand (c_string (is_first S)))"

datatype ipc_request =
    StartRound node_id string string      \<comment> \<open>target, evidence, acknowledgement\<close>
  | ResetRequest
  | ShutdownRequest
  | RefuseRequest string
  | IgnoreRequest

definition round_request :: "string \<Rightarrow> string \<Rightarrow> ipc_request" where
  "round_request ack payload =
     (if CHR '' '' \<notin> set payload then IgnoreRequest
      else
        let target = takeWhile (\<lambda>c. c \<noteq> CHR '' '') payload; evidence = drop (length target + 1) payload in
        if target = [] \<or> length target > 64 then RefuseRequest ''REJECT:INVALID_TARGET\<newline>''
        else if evidence = [] \<or> length evidence > 65536 then RefuseRequest ''REJECT:EVIDENCE_TOO_LARGE\<newline>''
        else if hd evidence \<noteq> CHR ''{'' \<or> CHR 0x00 \<in> set evidence then RefuseRequest ''REJECT:INVALID_EVIDENCE\<newline>''
        else StartRound target evidence ack)"

definition ipc_parse :: "string \<Rightarrow> ipc_request" where
  "ipc_parse cmd =
     (if starts_with ''CMD:INJECT '' cmd then round_request ''ACK:INJECT\<newline>'' (drop 11 cmd)
      else if starts_with ''CMD:ISOLATE '' cmd then round_request ''ACK:ISOLATE\<newline>'' (drop 12 cmd)
      else if cmd = ''CMD:RESET'' then ResetRequest
      else if cmd = ''CMD:SHUTDOWN'' then ShutdownRequest
      else IgnoreRequest)"


section \<open>Composition\<close>

text \<open>A call of the mesh node into the enforcer or the mitigation engine.\<close>

fun deliver :: "daemon_env \<Rightarrow> mesh_out \<Rightarrow> enforcer \<Rightarrow> enforcer" where
  "deliver E (EnforcerIp n ip) s = register_peer_ip n ip s"
| "deliver E (EnforcerPort n port) s = register_peer_port n (word_of_int port) s"
| "deliver E (Mitigate evidence target) s =
     snd (execute_response (de_parse E) (env_ssl (de_mesh E)) (de_mit E) evidence target s)"
| "deliver E _ s = s"

definition mesh_event_step :: "daemon_env \<Rightarrow> mesh_event \<Rightarrow> daemon \<Rightarrow> daemon option" where
  "mesh_event_step E ev d =
     (case mesh_step (de_mesh E) ev (dm_mesh d) of
        None \<Rightarrow> None
      | Some m \<Rightarrow>
          Some (d\<lparr>dm_mesh := m,
                  dm_enforcer := fold (deliver E) (drop (length (mn_out (dm_mesh d))) (mn_out m)) (dm_enforcer d)\<rparr>))"

definition reply :: "string \<Rightarrow> daemon \<Rightarrow> daemon" where
  "reply msg d = d\<lparr>dm_replies := dm_replies d @ [msg]\<rparr>"

definition ipc_execute :: "daemon_env \<Rightarrow> string \<Rightarrow> daemon \<Rightarrow> daemon option" where
  "ipc_execute E cmd d =
     (case ipc_parse cmd of
        StartRound target evidence ack \<Rightarrow>
          map_option (reply ack) (mesh_event_step E (InitiateConsensus target evidence) d)
      | ResetRequest \<Rightarrow> Some (d\<lparr>dm_enforcer := reset_enforcement (enf_env.truncate (de_mit E)) (dm_enforcer d)\<rparr>)
      | ShutdownRequest \<Rightarrow> Some (d\<lparr>dm_running := False\<rparr>)
      | RefuseRequest msg \<Rightarrow> Some (reply msg d)
      | IgnoreRequest \<Rightarrow> Some d)"

definition ipc_client :: "daemon_env \<Rightarrow> ipc_session \<Rightarrow> daemon \<Rightarrow> daemon option" where
  "ipc_client E S d =
     (case is_uid S of
        None \<Rightarrow> Some d
      | Some uid \<Rightarrow>
          if uid \<noteq> 0 \<and> uid \<noteq> de_uid E then Some (reply ''REJECT:AUTH\<newline>'' d)
          else
            let (ok, limits) = ipc_rate_check E uid (dm_limits d); d = d\<lparr>dm_limits := limits\<rparr> in
            if \<not> ok then Some (reply ''REJECT:RATE_LIMIT\<newline>'' d)
            else case ipc_read (dm_token d) S of
                   InputClosed \<Rightarrow> Some d
                 | InputRefused msg \<Rightarrow> Some (reply msg d)
                 | InputCommand cmd \<Rightarrow> ipc_execute E cmd d)"


section \<open>Measurements\<close>

text \<open>The number a conversion of \<open>scanf\<close> reads: white space, a sign, digits; and the rest.\<close>

definition scan_number :: "string \<Rightarrow> (bool \<times> nat \<times> string) option" where
  "scan_number s = sto_parse s"

definition scan_ld :: "string \<Rightarrow> int option" where
  "scan_ld s =
     (case scan_number s of None \<Rightarrow> None
      | Some (neg, v, _) \<Rightarrow> Some (if neg then max (- (2 ^ 63)) (- int v) else min (2 ^ 63 - 1) (int v)))"

definition scan_lu :: "string \<Rightarrow> (uint64 \<times> string) option" where
  "scan_lu s =
     (case scan_number s of None \<Rightarrow> None
      | Some (neg, v, rest) \<Rightarrow>
          Some (if v \<ge> 2 ^ 64 then - 1 else if neg then - of_nat v else of_nat v, rest))"

definition cgroup_memory_mb :: "daemon_env \<Rightarrow> int" where
  "cgroup_memory_mb E =
     (case Option.bind (de_cgroup_v2 E) scan_ld of
        Some bytes \<Rightarrow> trunc_div bytes (1024 * 1024)
      | None \<Rightarrow>
          (case Option.bind (de_cgroup_v1 E) scan_ld of
             Some bytes \<Rightarrow> trunc_div bytes (1024 * 1024)
           | None \<Rightarrow>
               (case de_sysinfo E of
                  Some (totalram, freeram) \<Rightarrow> sint ((totalram - freeram) div (1024 * 1024))
                | None \<Rightarrow> 0)))"

text \<open>The pieces \<open>fgets\<close> reads into a buffer of 256 bytes.\<close>

function fgets_lines :: "string \<Rightarrow> string list" where
  "fgets_lines s =
     (if s = [] then []
      else
        let line = takeWhile (\<lambda>c. c \<noteq> CHR 0x0A) s; n = min 255 (length line + 1)
        in take n s # fgets_lines (drop n s))"
  by pat_completeness auto
termination
  by (relation "measure length") auto

declare fgets_lines.simps [simp del]

text \<open>The call of \<open>sscanf\<close>: nine numbers, of which the first and the last are kept.\<close>

fun skip_numbers :: "nat \<Rightarrow> string \<Rightarrow> string option" where
  "skip_numbers 0 s = Some s"
| "skip_numbers (Suc n) s = (case scan_number s of None \<Rightarrow> None | Some (_, _, rest) \<Rightarrow> skip_numbers n rest)"

definition line_bytes :: "string \<Rightarrow> uint64" where
  "line_bytes line =
     (let text = c_string line in
      if CHR '':'' \<notin> set text then 0
      else case scan_lu (drop 1 (dropWhile (\<lambda>c. c \<noteq> CHR '':'') text)) of
             None \<Rightarrow> 0
           | Some (rx_bytes, rest) \<Rightarrow>
               (case Option.bind (skip_numbers 7 rest) scan_lu of
                  None \<Rightarrow> rx_bytes
                | Some (tx_bytes, _) \<Rightarrow> rx_bytes + tx_bytes))"

definition kMaxRate :: rat where "kMaxRate = 50 * 1024 * 1024"

definition network_entropy_score :: "daemon_env \<Rightarrow> heartbeat_state \<Rightarrow> rat \<times> heartbeat_state" where
  "network_entropy_score E h =
     (let now = env_now (de_mesh E);
          prev_time = (case hb_prev_time h of None \<Rightarrow> now | Some t \<Rightarrow> t);
          h = h\<lparr>hb_prev_time := Some prev_time\<rparr>
      in case de_net_dev E of
           None \<Rightarrow> (0, h)
         | Some contents \<Rightarrow>
             let total = sum_list (map line_bytes (drop 2 (fgets_lines contents)));
                 dt = fl32 (fl32 (of_int (now - prev_time)) / 1000000000)
             in if dt < fl32 (1 / 2) then (0, h\<lparr>hb_prev_bytes := total\<rparr>)
                else
                  let byte_rate = fl32 (fl32 (of_int (uint (total - hb_prev_bytes h))) / dt)
                  in (min 1 (fl32 (byte_rate / kMaxRate)), h\<lparr>hb_prev_bytes := total, hb_prev_time := Some now\<rparr>))"

definition onnx_to_entropy :: "rat \<Rightarrow> rat" where
  "onnx_to_entropy score =
     (let kThreshold = fl32 (- 5 / 100); kMinScore = fl32 (- 2 / 10) in
      if score \<ge> kThreshold then 0
      else min 1 (fl32 (fl32 (kThreshold - score) / fl32 (kThreshold - kMinScore))))"


section \<open>The heartbeat\<close>

text \<open>The constructor of \<open>std::string\<close> from a character array: undefined without a zero byte.\<close>

definition array_string :: "string \<Rightarrow> string option" where
  "array_string a = (if CHR 0x00 \<in> set a then Some (c_string a) else None)"

fun analyze_events :: "daemon_env \<Rightarrow> kernel_event list \<Rightarrow> inference_engine \<Rightarrow> inference_engine option" where
  "analyze_events E [] e = Some e"
| "analyze_events E (ev # evs) e =
     (if ke_pid ev = de_pid E then analyze_events E evs e
      else case (array_string (ke_comm ev), array_string (ke_payload ev)) of
             (Some comm, Some payload) \<Rightarrow> analyze_events E evs (snd (ie_analyze (de_log2 E) (de_onnx E) comm payload e))
           | _ \<Rightarrow> None)"

text \<open>The sensor part of a tick.\<close>

definition sense :: "daemon_env \<Rightarrow> daemon \<Rightarrow> daemon option" where
  "sense E d =
     (case (dm_inference d, dm_agent d) of
        (Some e, Some q) \<Rightarrow>
          let (events, q) = poll_events (de_ring E) q; d = d\<lparr>dm_agent := Some q\<rparr> in
          if events = [] then Some (d\<lparr>dm_inference := Some (ie_decay (fl32 (3 / 10)) e)\<rparr>)
          else map_option (\<lambda>e. d\<lparr>dm_inference := Some e\<rparr>) (analyze_events E events e)
      | _ \<Rightarrow> Some d)"

definition cpu_load :: "daemon_env \<Rightarrow> rat" where
  "cpu_load E =
     (case de_loadavg E of
        None \<Rightarrow> 0
      | Some load \<Rightarrow> if de_nproc E > 0 then fl (load / fl (of_int (de_nproc E))) else load)"

definition threat_level :: "rat \<Rightarrow> string" where
  "threat_level entropy =
     (if entropy > fl32 (65 / 100) then ''CRITICAL'' else if entropy > fl32 (6 / 10) then ''ALERT'' else ''NONE'')"

fun quoted_list :: "string list \<Rightarrow> string" where
  "quoted_list [] = []"
| "quoted_list [x] = [CHR 0x22] @ x @ [CHR 0x22]"
| "quoted_list (x # y # zs) = [CHR 0x22] @ x @ [CHR 0x22] @ '','' @ quoted_list (y # zs)"

definition self_evidence :: "rat \<Rightarrow> node_id \<Rightarrow> string" where
  "self_evidence entropy node_id =
     ''{\"entropy\":'' @ fixed6 entropy @ '',\"node\":\"'' @ node_id @ ''\"'' @ '',\"source\":\"self_detected\"}''"

text \<open>The self-initiated round: not before 30 seconds have passed since the first alarm or the last round.\<close>

definition self_consensus :: "daemon_env \<Rightarrow> rat \<Rightarrow> daemon \<Rightarrow> daemon option" where
  "self_consensus E entropy d =
     (if entropy > fl32 (65 / 100) \<and> node_peer_count (dm_mesh d) > 1
      then
        let t = now_us (de_mesh E); h = dm_heartbeat d;
            h = (if hb_first h then h\<lparr>hb_last_consensus_us := t, hb_first := False\<rparr> else h)
        in if t - hb_last_consensus_us h > 30000000
           then mesh_event_step E (InitiateConsensus (dm_node_id d) (self_evidence entropy (dm_node_id d)))
                  (d\<lparr>dm_heartbeat := h\<lparr>hb_last_consensus_us := t\<rparr>\<rparr>)
           else Some (d\<lparr>dm_heartbeat := h\<rparr>)
      else Some d)"

definition heartbeat_json :: "daemon_env \<Rightarrow> rat \<Rightarrow> string list \<Rightarrow> daemon \<Rightarrow> string" where
  "heartbeat_json E entropy peer_ids d =
     (let threat = threat_level entropy in
      ''{\"seq\":'' @ int_str (hb_seq (dm_heartbeat d))
      @ '',\"node\":\"'' @ dm_node_id d @ ''\"''
      @ '',\"event\":\"heartbeat\"''
      @ '',\"peers\":'' @ int_str (node_peer_count (dm_mesh d))
      @ '',\"peer_list\":['' @ quoted_list peer_ids @ '']''
      @ '',\"cpu\":'' @ fixed6 (cpu_load E)
      @ '',\"mem_mb\":'' @ int_str (cgroup_memory_mb E)
      @ '',\"entropy\":'' @ fixed6 entropy
      @ '',\"threat\":\"'' @ threat @ ''\"''
      @ '','' @ (if threat = ''CRITICAL'' \<or> threat = ''ALERT''
                 then ''\"mitre_attack\":[\"T1021\",\"T1571\",\"T1059\"]'' else ''\"mitre_attack\":[]'') @ ''}'')"

definition blended_entropy :: "daemon_env \<Rightarrow> daemon \<Rightarrow> rat \<times> daemon" where
  "blended_entropy E d =
     (let onnx_score = (case dm_inference d of None \<Rightarrow> 0 | Some e \<Rightarrow> ie_last_score e);
          (net_score, h) = network_entropy_score E (dm_heartbeat d);
          entropy = max (onnx_to_entropy onnx_score) net_score;
          entropy = (if is_targeted_recently (env_now (de_mesh E)) (dm_mesh d) then max entropy (fl32 (68 / 100)) else entropy)
      in (entropy, d\<lparr>dm_heartbeat := h\<rparr>))"

definition heartbeat_tick :: "daemon_env \<Rightarrow> daemon \<Rightarrow> daemon option" where
  "heartbeat_tick E d =
     (let peer_ids = get_all_peer_ids (env_ord (de_mesh E)) (mn_peers (dm_mesh d)) in
      case sense E d of
        None \<Rightarrow> None
      | Some d \<Rightarrow>
          let (entropy, d) = blended_entropy E d in
          (case self_consensus E entropy d of
             None \<Rightarrow> None
           | Some d \<Rightarrow>
               map_option (\<lambda>d. d\<lparr>dm_heartbeat := (dm_heartbeat d)\<lparr>hb_seq := hb_seq (dm_heartbeat d) + 1\<rparr>\<rparr>)
                 (mesh_event_step E (GossipTelemetry (heartbeat_json E entropy peer_ids d)) d)))"


section \<open>Start\<close>

text \<open>The port of the telemetry socket; a text in the environment that is not a port falls back to the first one.\<close>

definition node_ports :: "(string \<times> int) list" where
  "node_ports =
     [(''ALPHA'', 9000), (''BRAVO'', 9010), (''CHARLIE'', 9020), (''DELTA'', 9030), (''ECHO'', 9040),
      (''NODE_1'', 9000), (''NODE_2'', 9010), (''NODE_3'', 9020), (''NODE_4'', 9030), (''NODE_5'', 9040)]"

definition websocket_port :: "string option \<Rightarrow> string \<Rightarrow> int" where
  "websocket_port env_ws_port node_id =
     (case env_ws_port of
        Some text \<Rightarrow>
          (case scan_number text of
             Some (neg, v, rest) \<Rightarrow> if rest = [] \<and> \<not> neg \<and> 0 < v \<and> v < 65536 then int v else 9000
           | None \<Rightarrow> 9000)
      | None \<Rightarrow> (case map_of node_ports node_id of Some port \<Rightarrow> port | None \<Rightarrow> 9000))"

text \<open>The entries of \<open>NEURO_PEERS\<close>: an address, the last colon, a port.\<close>

definition seed_entry :: "string \<Rightarrow> (string \<times> int) option" where
  "seed_entry entry =
     (let behind = rev (takeWhile (\<lambda>c. c \<noteq> CHR '':'') (rev entry)); colon = length entry - length behind - 1 in
      if CHR '':'' \<notin> set entry \<or> colon = 0 \<or> behind = [] then None
      else case stoi behind of
             None \<Rightarrow> None
           | Some (port, _) \<Rightarrow> if port \<le> 0 \<or> port > 65535 then None else Some (take colon entry, port))"

definition parse_seed_peers :: "string \<Rightarrow> (string \<times> int) list" where
  "parse_seed_peers env = List.map_filter seed_entry (getline_tokens (CHR '','') env)"

text \<open>\<open>main\<close> up to the start of the threads. The mesh node, the model and the sensor are given as they
  result from their constructors.\<close>

definition boot ::
  "daemon_env \<Rightarrow> string list \<Rightarrow> (node_id \<Rightarrow> mesh_node) \<Rightarrow> inference_engine option \<Rightarrow> telemetry_queue option \<Rightarrow>
   (string \<Rightarrow> string option) \<Rightarrow> (string \<Rightarrow> nat list option) \<Rightarrow> daemon" where
  "boot E argv mesh inference agent getenv lookup =
     (let node_id = (case argv of [] \<Rightarrow> ''ALPHA'' | n # _ \<Rightarrow> n);
          jailer = add_safe_node node_id (set_node_id node_id (new_enforcer (enf_env.truncate (de_mit E))));
          m = mesh node_id;
          m = (case getenv ''NEURO_PEERS'' of
                 None \<Rightarrow> m
               | Some env \<Rightarrow> let seeds = parse_seed_peers env in if seeds \<noteq> [] then set_seed_peers lookup seeds m else m)
      in \<lparr>dm_node_id = node_id, dm_mesh = m, dm_enforcer = jailer, dm_inference = inference, dm_agent = agent,
          dm_limits = Map.empty, dm_token = (case getenv ''NEURO_IPC_TOKEN'' of None \<Rightarrow> [] | Some t \<Rightarrow> t), dm_running = True,
          dm_heartbeat = \<lparr>hb_seq = 0, hb_first = True, hb_last_consensus_us = 0, hb_prev_bytes = 0, hb_prev_time = None\<rparr>,
          dm_replies = []\<rparr>)"

datatype daemon_event = MeshEvent mesh_event | IpcClient ipc_session | HeartbeatTick

fun daemon_step :: "daemon_env \<Rightarrow> daemon_event \<Rightarrow> daemon \<Rightarrow> daemon option" where
  "daemon_step E (MeshEvent ev) d = mesh_event_step E ev d"
| "daemon_step E (IpcClient S) d = (if dm_running d then ipc_client E S d else Some d)"
| "daemon_step E HeartbeatTick d = (if dm_running d then heartbeat_tick E d else Some d)"

fun daemon_run :: "(daemon_env \<times> daemon_event) list \<Rightarrow> daemon \<Rightarrow> daemon option" where
  "daemon_run [] d = Some d"
| "daemon_run ((E, ev) # evs) d = (case daemon_step E ev d of None \<Rightarrow> None | Some d' \<Rightarrow> daemon_run evs d')"


section \<open>Vocabulary of the statements\<close>

text \<open>A call that enforces something: it drops traffic or kills a process.\<close>

definition enforces :: "enf_out \<Rightarrow> bool" where
  "enforces x \<longleftrightarrow> (\<exists>a. drops a x) \<or> (\<exists>a port. drops_port a port x) \<or> (\<exists>p ok. x = Signal p ''SIGKILL'' ok)"

text \<open>The members have decided the round of this evidence and target.\<close>

definition committed :: "mesh_env \<Rightarrow> string \<Rightarrow> node_id \<Rightarrow> mesh_node \<Rightarrow> bool" where
  "committed E e t s \<longleftrightarrow> \<not> is_ban_round e \<and> 1 \<le> pm_peer_count (mn_peers s)
     \<and> quorum_size (mn_pbft s) \<le> int (card (voters (mn_pbft s) (round_key_of (env_ssl E) e t) ''COMMIT''))"

text \<open>The call belongs to the response to this evidence and target.\<close>

definition response_has :: "daemon_env \<Rightarrow> string \<Rightarrow> node_id \<Rightarrow> enf_out \<Rightarrow> bool" where
  "response_has E e t x \<longleftrightarrow>
     (\<exists>s. x \<in> set (response_out s (snd (execute_response (de_parse E) (env_ssl (de_mesh E)) (de_mit E) e t s))))"

text \<open>What the control socket may change.\<close>

definition controls :: "daemon \<Rightarrow> daemon \<Rightarrow> bool" where
  "controls d d' \<longleftrightarrow> dm_mesh d' \<noteq> dm_mesh d \<or> dm_enforcer d' \<noteq> dm_enforcer d \<or> dm_running d' \<noteq> dm_running d"

text \<open>A process whose mesh node lacks one vote, with a parser that reads the evidence of that vote as it is.\<close>

definition pid_parser :: json_parser where
  "pid_parser text = (if text = ''{\"pid\":1}'' then JsonObject [''pid'' \<mapsto> JsonInt 1] else JsonError)"

definition demo_daemon_env :: daemon_env where
  "demo_daemon_env =
     \<lparr>de_mesh = demo_env, de_mit = demo_mit_env, de_parse = pid_parser, de_uid = 1000, de_uid_ord = [], de_evict_now = 0,
      de_pid = 42, de_ring = [], de_log2 = (\<lambda>x. x), de_onnx = (\<lambda>_. RunFailed), de_loadavg = None, de_nproc = 1,
      de_cgroup_v2 = None, de_cgroup_v1 = None, de_sysinfo = None, de_net_dev = None\<rparr>"

definition demo_boot :: daemon where
  "demo_boot = boot demo_daemon_env [''A''] (\<lambda>_. demo_node) None None (\<lambda>_. None) (\<lambda>_. None)"

definition demo_victim :: enforcer where
  "demo_victim = register_peer_ip ''T'' ''10.0.0.1'' (new_enforcer demo_enf_env)"

definition demo_daemon :: daemon where
  "demo_daemon = demo_boot\<lparr>dm_mesh := brink_node, dm_enforcer := demo_victim\<rparr>"

definition demo_shutdown :: ipc_session where
  "demo_shutdown = \<lparr>is_uid = Some 0, is_first = ''CMD:SHUTDOWN'', is_second = []\<rparr>"


section \<open>The contract between the process and the enforcer\<close>

text \<open>A relation on the states of the enforcer that its registrations, the response to evidence and
  the reset keep is kept by every run of the process.\<close>

locale enforcing_daemon =
  fixes R :: "enforcer \<Rightarrow> enforcer \<Rightarrow> bool"
  assumes reflexive: "R s s"
    and chain: "R s s' \<Longrightarrow> R s' s'' \<Longrightarrow> R s s''"
    and registers_ip: "R s (register_peer_ip n ip s)"
    and registers_port: "R s (register_peer_port n port s)"
    and responds: "R s (snd (execute_response parse L E e t s))"
    and resets: "R s (reset_enforcement E' s)"
begin

lemma delivers: "R s (deliver E x s)"
  by (cases x) (simp_all add: reflexive registers_ip registers_port responds)

lemma delivers_all: "R s (fold (deliver E) xs s)"
proof (induction xs arbitrary: s)
  case (Cons x xs)
  show ?case using chain [OF delivers Cons.IH] by simp
qed (simp add: reflexive)

lemma mesh_events: "mesh_event_step E ev d = Some d' \<Longrightarrow> R (dm_enforcer d) (dm_enforcer d')"
  by (auto simp: mesh_event_step_def delivers_all split: option.splits)

lemma ipc_clients:
  assumes "ipc_client E S d = Some d'"
  shows "R (dm_enforcer d) (dm_enforcer d')"
proof -
  have exec: "R (dm_enforcer d) (dm_enforcer d')" if "ipc_execute E cmd d = Some d'" for cmd d d'
    using that reflexive resets
    by (auto simp: ipc_execute_def reply_def dest: mesh_events split: ipc_request.splits)
  show ?thesis
    using assms reflexive exec [of _ "d\<lparr>dm_limits := _\<rparr>"]
    by (auto simp: ipc_client_def reply_def Let_def split: option.splits if_splits prod.splits ipc_input.splits)
qed

lemma senses: "sense E d = Some d' \<Longrightarrow> dm_enforcer d' = dm_enforcer d"
  by (auto simp: sense_def Let_def split: option.splits if_splits prod.splits)

lemma consensus: "self_consensus E x d = Some d' \<Longrightarrow> R (dm_enforcer d) (dm_enforcer d')"
  using mesh_events [of E _ "d\<lparr>dm_heartbeat := _\<rparr>"] reflexive
  by (auto simp: self_consensus_def Let_def split: if_splits)

lemma ticks:
  assumes "heartbeat_tick E d = Some d'"
  shows "R (dm_enforcer d) (dm_enforcer d')"
proof -
  have blend: "dm_enforcer (snd (blended_entropy E d)) = dm_enforcer d" for d
    by (simp add: blended_entropy_def Let_def case_prod_beta)
  obtain d1 d2 d3 j where d1: "sense E d = Some d1" and d2: "self_consensus E (fst (blended_entropy E d1)) (snd (blended_entropy E d1)) = Some d2"
    and d3: "mesh_event_step E (GossipTelemetry j) d2 = Some d3" "dm_enforcer d' = dm_enforcer d3"
    using assms by (auto simp: heartbeat_tick_def Let_def case_prod_beta split: option.splits)
  from consensus [OF d2] mesh_events [OF d3(1)] show ?thesis
    unfolding blend senses [OF d1] d3(2) by (rule chain)
qed

lemma steps: "daemon_step E ev d = Some d' \<Longrightarrow> R (dm_enforcer d) (dm_enforcer d')"
  by (cases ev) (auto simp: reflexive dest: mesh_events ipc_clients ticks split: if_splits)

lemma runs: "daemon_run evs d = Some d' \<Longrightarrow> R (dm_enforcer d) (dm_enforcer d')"
proof (induction evs d rule: daemon_run.induct)
  case (2 E ev evs d)
  then show ?case by (auto dest: steps intro: chain split: option.splits)
qed (simp add: reflexive)

end

interpretation self_safe: enforcing_daemon "keeps_safe n" for n
proof unfold_locales
  show "keeps_safe n s (register_peer_ip m ip s)" for s m ip
    using enf_step_safe [of s n undefined "RegisterPeerIp m ip"] by (simp add: keeps_safe_def)
  show "keeps_safe n s (register_peer_port m port s)" for s m port
    using enf_step_safe [of s n undefined "RegisterPeerPort m port"] by (simp add: keeps_safe_def)
  show "keeps_safe n s (reset_enforcement E s)" for s E
    using enf_step_safe [of s n E ResetEnforcement] by (simp add: keeps_safe_def)
  show "keeps_safe n s (snd (execute_response parse L E e t s))" for s parse L E e t
    by (rule safe_nodes.responds)
qed (auto simp: keeps_safe_def)

lemma reset_adds:
  assumes "\<And>fd sig ok. P (PidfdSignal fd sig ok)" "\<And>fd. P (PidfdClose fd)"
    "\<And>p ok. P (Signal p ''0'' ok)" "\<And>p ok. P (Signal p ''SIGCONT'' ok)" "\<And>p ok. P (Signal p ''SIGTERM'' ok)"
  shows "adds P s (reset_enforcement E s)"
  using reset_enforcement_effect [of P s E, OF assms] by (auto simp: emits_def adds_def)

interpretation spared: enforcing_daemon "adds spares_local"
  by unfold_locales
    (auto simp: adds_refl adds_def register_peer_ip_def register_peer_port_def
      intro: adds_trans [unfolded adds_def] local_host.responds [unfolded adds_def] reset_adds [unfolded adds_def])

interpretation traced: enforcing_daemon "adds (\<lambda>_. True)"
  by unfold_locales
    (auto simp: adds_refl adds_def register_peer_ip_def register_peer_port_def
      intro: adds_trans [unfolded adds_def] grows.responds [unfolded adds_def] reset_adds [unfolded adds_def])


section \<open>Enforcement and consensus\<close>

lemma response_out_trans:
  "adds (\<lambda>_. True) s s1 \<Longrightarrow> adds (\<lambda>_. True) s1 s2 \<Longrightarrow> response_out s s2 = response_out s s1 @ response_out s1 s2"
  by (auto simp: adds_def response_out_def)

lemma response_out_same [simp]: "response_out s s = []"
  by (simp add: response_out_def)

lemma deliver_out:
  assumes "x \<in> set (response_out s (fold (deliver E) outs s))"
  shows "\<exists>e t. Mitigate e t \<in> set outs \<and> response_has E e t x"
  using assms
proof (induction outs arbitrary: s)
  case (Cons o1 outs)
  let ?s1 = "deliver E o1 s"
  have "response_out s (fold (deliver E) (o1 # outs) s) = response_out s ?s1 @ response_out ?s1 (fold (deliver E) outs ?s1)"
    using response_out_trans [OF traced.delivers traced.delivers_all] by simp
  with Cons.prems consider "x \<in> set (response_out s ?s1)" | "x \<in> set (response_out ?s1 (fold (deliver E) outs ?s1))"
    by auto
  then show ?case
  proof cases
    case 1
    then show ?thesis
      by (cases o1) (auto simp: response_has_def response_out_def register_peer_ip_def register_peer_port_def)
  next
    case 2
    then show ?thesis using Cons.IH by fastforce
  qed
qed simp

lemma mesh_event_response:
  assumes "mesh_event_step E ev d = Some d'" "x \<in> set (response_out (dm_enforcer d) (dm_enforcer d'))"
  shows "\<exists>e t. committed (de_mesh E) e t (dm_mesh d') \<and> response_has E e t x"
proof -
  obtain m where m: "mesh_step (de_mesh E) ev (dm_mesh d) = Some m"
    and d': "d' = d\<lparr>dm_mesh := m, dm_enforcer := fold (deliver E) (drop (length (mn_out (dm_mesh d))) (mn_out m)) (dm_enforcer d)\<rparr>"
    using assms(1) by (auto simp: mesh_event_step_def split: option.splits)
  from assms(2) obtain e t where "Mitigate e t \<in> set (drop (length (mn_out (dm_mesh d))) (mn_out m))" "response_has E e t x"
    unfolding d' using deliver_out by force
  moreover from mitigation_decided [OF m this(1)] have "committed (de_mesh E) e t m" by (simp add: committed_def)
  ultimately show ?thesis unfolding d' by auto
qed

lemma reset_not_enforces:
  assumes "x \<in> set (response_out s (reset_enforcement E s))"
  shows "\<not> enforces x"
proof -
  have "adds (\<lambda>x. \<not> enforces x) s (reset_enforcement E s)"
    by (rule reset_adds) (auto simp: enforces_def drops_def drops_port_def)
  then show ?thesis using assms by (auto simp: adds_def response_out_def list_all_iff)
qed

lemma ipc_client_response:
  assumes "ipc_client E S d = Some d'" "x \<in> set (response_out (dm_enforcer d) (dm_enforcer d'))" "enforces x"
  shows "\<exists>e t. committed (de_mesh E) e t (dm_mesh d') \<and> response_has E e t x"
proof -
  have exec: "\<exists>e t. committed (de_mesh E) e t (dm_mesh d') \<and> response_has E e t x"
    if "ipc_execute E cmd d = Some d'" "x \<in> set (response_out (dm_enforcer d) (dm_enforcer d'))" for cmd d
    using that reset_not_enforces assms(3)
    by (auto simp: ipc_execute_def reply_def dest!: mesh_event_response split: ipc_request.splits) blast
  show ?thesis
    using assms(1,2) exec [of _ "d\<lparr>dm_limits := _\<rparr>"]
    by (auto simp: ipc_client_def reply_def Let_def split: option.splits if_splits prod.splits ipc_input.splits)
qed

lemma gossip_keeps_round: "mesh_event_step E (GossipTelemetry j) d = Some d' \<Longrightarrow>
    committed M e t (dm_mesh d) \<Longrightarrow> committed M e t (dm_mesh d')"
  by (auto simp: mesh_event_step_def gossip_telemetry_def on_peers_def set_own_telemetry_def push_telemetry_def emit_def
      send_udp_discovery_def committed_def pm_peer_count_def Let_def)

lemma heartbeat_response:
  assumes "heartbeat_tick E d = Some d'" "x \<in> set (response_out (dm_enforcer d) (dm_enforcer d'))"
  shows "\<exists>e t. committed (de_mesh E) e t (dm_mesh d') \<and> response_has E e t x"
proof -
  have blend: "dm_enforcer (snd (blended_entropy E d)) = dm_enforcer d" for d
    by (simp add: blended_entropy_def Let_def case_prod_beta)
  obtain d1 d2 d3 j where d1: "sense E d = Some d1" and d2: "self_consensus E (fst (blended_entropy E d1)) (snd (blended_entropy E d1)) = Some d2"
    and d3: "mesh_event_step E (GossipTelemetry j) d2 = Some d3" "dm_enforcer d' = dm_enforcer d3" "dm_mesh d' = dm_mesh d3"
    using assms(1) by (auto simp: heartbeat_tick_def Let_def case_prod_beta split: option.splits)
  let ?b = "snd (blended_entropy E d1)"
  have same: "dm_enforcer ?b = dm_enforcer d" unfolding blend using traced.senses [OF d1] by simp
  have "response_out (dm_enforcer d) (dm_enforcer d')
      = response_out (dm_enforcer d) (dm_enforcer d2) @ response_out (dm_enforcer d2) (dm_enforcer d3)"
    using response_out_trans [OF traced.consensus [OF d2] traced.mesh_events [OF d3(1)]] by (simp add: same d3(2))
  with assms(2) consider "x \<in> set (response_out (dm_enforcer ?b) (dm_enforcer d2))" | "x \<in> set (response_out (dm_enforcer d2) (dm_enforcer d3))"
    unfolding same by auto
  then show ?thesis
  proof cases
    case 1
    then have "\<exists>e t. committed (de_mesh E) e t (dm_mesh d2) \<and> response_has E e t x"
      using d2 by (auto simp: self_consensus_def Let_def dest!: mesh_event_response split: if_splits)
    then show ?thesis using gossip_keeps_round [OF d3(1)] d3(3) by metis
  next
    case 2
    then show ?thesis using mesh_event_response [OF d3(1)] d3(3) by simp
  qed
qed


section \<open>Properties\<close>

text \<open>
  C3. No enforcement without a quorum, for the whole process: when the processing of any event - a
  message of the mesh, a command on the control socket or a tick of the heartbeat - drops traffic or kills a
  process, then the members of the mesh have committed a round, its evidence orders no ban, the node has
  another peer, and the call belongs to the response to exactly the evidence and the target of that
  round.
\<close>

theorem enforcement_needs_quorum:
  assumes "daemon_step E ev d = Some d'" "x \<in> set (response_out (dm_enforcer d) (dm_enforcer d'))" "enforces x"
  shows "\<exists>e t. committed (de_mesh E) e t (dm_mesh d') \<and> response_has E e t x"
proof (cases ev)
  case (MeshEvent m)
  then show ?thesis using assms mesh_event_response by simp
next
  case (IpcClient S)
  then show ?thesis using assms ipc_client_response by (auto split: if_splits)
next
  case HeartbeatTick
  then show ?thesis using assms heartbeat_response by (auto split: if_splits)
qed

lemma new_enforcer_fields:
  "en_safe (new_enforcer E) = {}" "en_isolated (new_enforcer E) = {}" "list_all spares_local (en_out (new_enforcer E))"
  using emits_same(1,2) [OF available_backends_emits] new_enforcer_inv [of "[]" E]
  by (simp_all add: new_enforcer_def Let_def case_prod_beta enf_inv_def)


text \<open>
  C18. Only the operator controls the process: a client of the control socket that changes the mesh node or the
  enforcer or stops the process runs as root or as the user of the process, has not exhausted its
  rate, presents the token if one is configured, and sends a well-formed command.
\<close>

theorem ipc_needs_authority:
  assumes "ipc_client E S d = Some d'" "controls d d'"
  shows "\<exists>uid cmd. is_uid S = Some uid \<and> (uid = 0 \<or> uid = de_uid E) \<and> fst (ipc_rate_check E uid (dm_limits d))
    \<and> (dm_token d \<noteq> [] \<longrightarrow> received_token (c_string (is_first S)) = dm_token d)
    \<and> ipc_read (dm_token d) S = InputCommand cmd
    \<and> (ipc_parse cmd \<in> {ResetRequest, ShutdownRequest} \<or> (\<exists>t e ack. ipc_parse cmd = StartRound t e ack \<and> t \<noteq> [] \<and> hd e = CHR ''{''))"
proof -
  have round: "t \<noteq> [] \<and> hd e = CHR ''{''" if "round_request a p = StartRound t e ack" for a p t e ack
    using that by (auto simp: round_request_def Let_def split: if_splits)
  obtain uid where uid: "is_uid S = Some uid" "uid = 0 \<or> uid = de_uid E"
    using assms by (auto simp: ipc_client_def controls_def reply_def split: option.splits if_splits)
  then have check: "fst (ipc_rate_check E uid (dm_limits d))"
    using assms by (auto simp: ipc_client_def controls_def reply_def Let_def split: if_splits prod.splits)
  with assms uid obtain cmd where cmd: "ipc_read (dm_token d) S = InputCommand cmd"
    and exec: "ipc_execute E cmd (d\<lparr>dm_limits := snd (ipc_rate_check E uid (dm_limits d))\<rparr>) = Some d'"
    by (auto simp: ipc_client_def controls_def reply_def Let_def split: if_splits prod.splits ipc_input.splits)
  have "dm_token d \<noteq> [] \<longrightarrow> received_token (c_string (is_first S)) = dm_token d"
    using cmd by (auto simp: ipc_read_def Let_def split: if_splits)
  moreover have "ipc_parse cmd \<in> {ResetRequest, ShutdownRequest} \<or> (\<exists>t e ack. ipc_parse cmd = StartRound t e ack)"
    using exec assms(2) by (auto simp: ipc_execute_def controls_def reply_def split: ipc_request.splits)
  moreover have "t \<noteq> [] \<and> hd e = CHR ''{''" if "ipc_parse cmd = StartRound t e ack" for t e ack
    using that round by (auto simp: ipc_parse_def split: if_splits)
  ultimately show ?thesis using uid check cmd by blast
qed


section \<open>The limit of the control socket\<close>

interpretation ipc_limit: rate_limiter "\<lambda>_. True" ipc_window "\<lambda>w. int (length w)" "\<lambda>_. int IPC_RATE_LIMIT_PER_SEC"
proof unfold_locales
  have fresh: "dsecs (t - t) < 1" for t by (simp add: dsecs_def trunc_div_def)
  show "int (length (snd (ipc_window t (snd (ipc_window t s))))) =
      (if fst (ipc_window t (snd (ipc_window t s))) then int (length (snd (ipc_window t s))) + 1 else int (length (snd (ipc_window t s))))" for t s
  proof -
    let ?P = "\<lambda>u. dsecs (t - u) \<ge> 1"
    have again: "dropWhile ?P (snd (ipc_window t s)) = snd (ipc_window t s)"
    proof (cases "dropWhile ?P s")
      case Nil
      have "ipc_window t s = (True, [t])" unfolding ipc_window_def Let_def Nil by (simp add: IPC_RATE_LIMIT_PER_SEC_def)
      then show ?thesis using fresh [of t] by simp
    next
      case (Cons u us)
      then have "\<not> ?P u" by (metis hd_dropWhile list.distinct(1) list.sel(1))
      then show ?thesis using Cons by (simp add: ipc_window_def Let_def)
    qed
    then show ?thesis unfolding ipc_window_def [of t "snd (ipc_window t s)"] by (simp add: Let_def)
  qed
  show "int (length (snd (ipc_window t s))) \<le> int IPC_RATE_LIMIT_PER_SEC"
    if "int (length s) \<le> int IPC_RATE_LIMIT_PER_SEC" for t s
    using that length_dropWhile_le [of "\<lambda>u. dsecs (t - u) \<ge> 1" s] by (simp add: ipc_window_def Let_def)
qed (auto simp: ipc_window_def Let_def)

text \<open>However many connections a user opens at one instant, at most ten of them are served.\<close>

lemma ipc_burst_bounded: "length w \<le> 10 \<Longrightarrow> fst (ipc_limit.burst k t w) \<le> 10"
  using ipc_limit.burst_bounded [of w k t] by (simp add: IPC_RATE_LIMIT_PER_SEC_def)

text \<open>The commands without an argument are compared with the whole text, so the documented form with
  a final newline is ignored.\<close>

lemma newline_command_ignored: "ipc_parse ''CMD:RESET\<newline>'' = IgnoreRequest \<and> ipc_parse ''CMD:SHUTDOWN\<newline>'' = IgnoreRequest"
  by code_simp

text \<open>A reset does not touch the packet filters and forgets no isolated target.\<close>

lemma reset_keeps_rules:
  "en_isolated (reset_enforcement E s) = en_isolated s
   \<and> list_all (\<lambda>x. \<not> filter_call x) (response_out s (reset_enforcement E s))"
proof -
  obtain s' where s': "emits (\<lambda>x. \<not> filter_call x) s s'" "reset_enforcement E s = s'\<lparr>en_suspended := {}, en_pidfds := Map.empty\<rparr>"
    using reset_enforcement_effect [of "\<lambda>x. \<not> filter_call x" s E] by auto
  then show ?thesis using emits_same(1) [OF s'(1)] by (auto simp: emits_def response_out_def)
qed


section \<open>Instances\<close>

lemma demo_response:
  "Exec (nft_add_rule [''ip'', ''saddr'', ''10.0.0.1'']) True
     \<in> set (response_out demo_victim (snd (execute_response pid_parser tiny_ssl demo_mit_env ''{\"pid\":1}'' ''T'' demo_victim)))"
  by code_simp

theorem enforcement_needs_quorum_witness:
  "\<exists>d' e t. daemon_step demo_daemon_env (MeshEvent (ConsensusDatagram ''10.0.0.3'' last_vote_text)) demo_daemon = Some d'
     \<and> committed demo_env e t (dm_mesh d')"
proof -
  let ?ev = "MeshEvent (ConsensusDatagram ''10.0.0.3'' last_vote_text)"
  obtain d' where d': "daemon_step demo_daemon_env ?ev demo_daemon = Some d'"
    by (simp add: mesh_event_step_def)
  then have out: "response_out (dm_enforcer demo_daemon) (dm_enforcer d')
      = response_out demo_victim (snd (execute_response pid_parser tiny_ssl demo_mit_env ''{\"pid\":1}'' ''T'' demo_victim))"
    by (auto simp: mesh_event_step_def demo_daemon_def demo_daemon_env_def brink_mitigates)
  have "\<exists>e t. committed (de_mesh demo_daemon_env) e t (dm_mesh d')
      \<and> response_has demo_daemon_env e t (Exec (nft_add_rule [''ip'', ''saddr'', ''10.0.0.1'']) True)"
    by (rule enforcement_needs_quorum [OF d']) (simp_all only: out demo_response, simp add: enforces_def)
  moreover have "de_mesh demo_daemon_env = demo_env" by (simp add: demo_daemon_env_def)
  ultimately show ?thesis using d' by auto
qed

lemma demo_stops: "ipc_client demo_daemon_env demo_shutdown demo_boot
    = Some (demo_boot\<lparr>dm_limits := [0 \<mapsto> [0]], dm_running := False\<rparr>)"
  by (simp add: ipc_client_def demo_shutdown_def demo_boot_def boot_def ipc_rate_check_def ipc_window_def ipc_read_def
      ipc_execute_def ipc_parse_def starts_with_def c_string_def IPC_RATE_LIMIT_PER_SEC_def demo_daemon_env_def Let_def)


theorem ipc_needs_authority_witness:
  "\<exists>uid cmd. is_uid demo_shutdown = Some uid \<and> (uid = 0 \<or> uid = de_uid demo_daemon_env)
     \<and> fst (ipc_rate_check demo_daemon_env uid (dm_limits demo_boot)) \<and> ipc_read (dm_token demo_boot) demo_shutdown = InputCommand cmd"
proof -
  have "controls demo_boot (demo_boot\<lparr>dm_limits := [0 \<mapsto> [0]], dm_running := False\<rparr>)"
    by (simp add: controls_def demo_boot_def boot_def Let_def)
  from ipc_needs_authority [OF demo_stops this] show ?thesis by blast
qed

end
