(* ===== verification/Webhook.thy ===== *)
theory Webhook
  imports MeshWire Json "HOL-Library.Code_Target_Numeral"
begin

unbundle bit_operations_syntax

text \<open>
  \<open>MeshNode::notify_webhook\<close>: the alert that is posted by a child process running
  \<open>curl\<close>. The result is the argument vector of the child or the rejection of the address.
  The resolver and the printing of an IPv6 address are arguments. Shown: the in-place escape of
  the evidence is a character-wise JSON escape, a host that resolves is contacted only if no
  address of it is private and then only at the address that was checked, and the addresses the
  guard does not see.
\<close>


section \<open>The payload\<close>

function webhook_escape :: "nat \<Rightarrow> string \<Rightarrow> string" where
  "webhook_escape i s =
     (if i < length s
      then let c = s ! i in
        if c = CHR 0x22 \<or> c = CHR 0x5C then webhook_escape (i + 2) (take i s @ [CHR 0x5C] @ drop i s)
        else if c = CHR 0x0A then webhook_escape (i + 2) (take i s @ [CHR 0x5C, CHR ''n''] @ drop (i + 1) s)
        else if c = CHR 0x09 then webhook_escape (i + 2) (take i s @ [CHR 0x5C, CHR ''t''] @ drop (i + 1) s)
        else if c = CHR 0x0D then webhook_escape (i + 2) (take i s @ [CHR 0x5C, CHR ''r''] @ drop (i + 1) s)
        else if (of_char c :: nat) < 0x20
          then webhook_escape (i + length (u_escape c)) (take i s @ u_escape c @ drop (i + 1) s)
        else webhook_escape (i + 1) s
      else s)"
  by pat_completeness auto

termination webhook_escape
  by (relation "measure (\<lambda>(i, s). length s - i)") auto

declare webhook_escape.simps [simp del]

definition webhook_payload :: "string \<Rightarrow> string \<Rightarrow> int \<Rightarrow> int \<Rightarrow> string" where
  "webhook_payload target evidence quorum timestamp_us =
     ''{'' @ ''\"event\":\"isolation\",'' @ ''\"target\":\"'' @ target @ ''\",'' @ ''\"quorum\":'' @ int_str quorum @ '',''
     @ ''\"timestamp_us\":'' @ int_str timestamp_us @ '','' @ ''\"evidence\":'' @ webhook_escape 0 evidence @ ''}''"


section \<open>The guard\<close>

text \<open>An address of the resolver: IPv4 in host byte order, the sixteen bytes of IPv6, or another
  family.\<close>

datatype address = V4 "32 word" | V6 "8 word list" | OtherFamily

definition v6_loopback :: "8 word list" where
  "v6_loopback = replicate 15 0 @ [1]"

fun blocked_address :: "address \<Rightarrow> bool" where
  "blocked_address (V4 ipv4) \<longleftrightarrow>
     ipv4 AND 0xFF000000 = 0x7F000000 \<or> ipv4 AND 0xFF000000 = 0x0A000000 \<or> ipv4 AND 0xFFF00000 = 0xAC100000
     \<or> ipv4 AND 0xFFFF0000 = 0xC0A80000 \<or> ipv4 AND 0xFFFF0000 = 0xA9FE0000 \<or> ipv4 AND 0xFFC00000 = 0x64400000"
| "blocked_address (V6 p) \<longleftrightarrow>
     p = v6_loopback \<or> (p ! 0 = 0xFE \<and> p ! 1 AND 0xC0 = 0x80) \<or> p ! 0 = 0xFC \<or> p ! 0 = 0xFD"
| "blocked_address OtherFamily \<longleftrightarrow> False"

definition v4_octets :: "32 word \<Rightarrow> nat list" where
  "v4_octets w = [unat w div 2 ^ 24, unat w div 2 ^ 16 mod 256, unat w div 2 ^ 8 mod 256, unat w mod 256]"

fun curl_address :: "(8 word list \<Rightarrow> string) \<Rightarrow> address list \<Rightarrow> string" where
  "curl_address ntop6 [] = []"
| "curl_address ntop6 (V4 w # as) = inet_ntop4 (v4_octets w)"
| "curl_address ntop6 (V6 p # as) = ''['' @ ntop6 p @ '']''"
| "curl_address ntop6 (OtherFamily # as) = curl_address ntop6 as"

definition url_host_start :: "string \<Rightarrow> nat" where
  "url_host_start url = (if starts_with ''https://'' url then 8 else 7)"

definition url_host :: "string \<Rightarrow> string" where
  "url_host url =
     (let start = url_host_start url;
          end1 = (case find_from (CHR ''/'') start url of Some slash \<Rightarrow> slash | None \<Rightarrow> length url);
          end2 = (case find_from (CHR '':'') start url of Some colon \<Rightarrow> if colon < end1 then colon else end1 | None \<Rightarrow> end1)
      in substr url start (end2 - start))"

definition url_port :: "string \<Rightarrow> int" where
  "url_port url =
     (let start = url_host_start url; slash_pos = find_from (CHR ''/'') start url;
          default = (if starts_with ''https://'' url then 443 else 80)
      in case find_from (CHR '':'') start url of
           None \<Rightarrow> default
         | Some colon_pos \<Rightarrow>
             if slash_pos = None \<or> colon_pos < the slash_pos
             then let digits = (case slash_pos of None \<Rightarrow> drop (colon_pos + 1) url
                                | Some sl \<Rightarrow> substr url (colon_pos + 1) (sl - colon_pos - 1))
                  in case stoi digits of None \<Rightarrow> default | Some (port, _) \<Rightarrow> port
             else default)"

definition valid_url :: "string \<Rightarrow> bool" where
  "valid_url url \<longleftrightarrow> \<not> (url = [] \<or> CHR '' '' \<in> set url
     \<or> (\<not> starts_with ''http://'' url \<and> \<not> starts_with ''https://'' url))"


section \<open>The notification\<close>

datatype webhook_result = Ignored | RejectedUrl | RejectedPrivate | Curl "string list"

definition curl_args :: "string \<Rightarrow> string \<Rightarrow> string \<Rightarrow> string list" where
  "curl_args url resolved_ip payload =
     [''/usr/bin/curl'', ''-s'', ''-X'', ''POST'', ''-H'', ''Content-Type: application/json'']
     @ (if resolved_ip \<noteq> []
        then [''--resolve'', c_string (url_host url @ '':'' @ int_str (url_port url) @ '':'' @ resolved_ip)] else [])
     @ [''-d'', c_string payload, c_string url]"

definition notify_webhook ::
  "(string \<Rightarrow> address list option) \<Rightarrow> (8 word list \<Rightarrow> string) \<Rightarrow>
   string \<Rightarrow> string \<Rightarrow> string \<Rightarrow> int \<Rightarrow> int \<Rightarrow> webhook_result" where
  "notify_webhook lookup ntop6 url target evidence quorum timestamp_us =
     (if url = [] then Ignored
      else
        let payload = webhook_payload target evidence quorum timestamp_us in
        if \<not> valid_url url then RejectedUrl
        else case lookup (c_string (url_host url)) of
               None \<Rightarrow> Curl (curl_args url [] payload)
             | Some as \<Rightarrow>
                 if list_ex blocked_address as then RejectedPrivate
                 else Curl (curl_args url (curl_address ntop6 as) payload))"


section \<open>Vocabulary of the statements\<close>

definition webhook_esc :: "char \<Rightarrow> string" where
  "webhook_esc c =
     (if c = CHR 0x22 \<or> c = CHR 0x5C then [CHR 0x5C, c]
      else if c = CHR 0x0A then [CHR 0x5C, CHR ''n'']
      else if c = CHR 0x09 then [CHR 0x5C, CHR ''t'']
      else if c = CHR 0x0D then [CHR 0x5C, CHR ''r'']
      else if (of_char c :: nat) < 0x20 then u_escape c
      else [c])"

text \<open>The networks of the comment in the source, by octets.\<close>

fun private_octets :: "nat list \<Rightarrow> bool" where
  "private_octets (a # b # _) \<longleftrightarrow>
     a = 127 \<or> a = 10 \<or> (a = 172 \<and> b \<in> {16..31}) \<or> (a = 192 \<and> b = 168) \<or> (a = 169 \<and> b = 254)
     \<or> (a = 100 \<and> b \<in> {64..127})"
| "private_octets _ \<longleftrightarrow> False"


section \<open>Escaping\<close>

lemma webhook_escape_from: "webhook_escape (length p) (p @ s) = p @ concat (map webhook_esc s)"
proof (induction s arbitrary: p)
  case (Cons c s)
  have step: "webhook_escape (length p) (p @ c # s) = webhook_escape (length (p @ webhook_esc c)) ((p @ webhook_esc c) @ s)"
    by (subst webhook_escape.simps) (simp add: webhook_esc_def Let_def)
  show ?case unfolding step Cons.IH [of "p @ webhook_esc c"] by simp
qed (simp add: webhook_escape.simps)

lemma webhook_escape_eq: "webhook_escape 0 s = concat (map webhook_esc s)"
  using webhook_escape_from [of "[]" s] by simp

interpretation webhook_json: escaper webhook_esc
proof
  fix c x :: char and rest
  show "unesc1 (webhook_esc c @ rest) = Some (c, rest)"
    by (auto simp: webhook_esc_def)
  show "webhook_esc c \<noteq> [] \<and> hd (webhook_esc c) \<noteq> CHR 0x22"
    by (auto simp: webhook_esc_def u_escape_starts)
  show "32 \<le> (of_char x :: nat)" if "x \<in> set (webhook_esc c)"
    using that by (auto simp: webhook_esc_def u_escape_printable split: if_splits)
qed


section \<open>The private networks\<close>

lemma and_not_mask: "(w :: 'a::len word) AND NOT (mask n) = push_bit n (drop_bit n w)"
  by (rule bit_word_eqI) (auto simp: bit_simps)

lemma and_high_iff:
  assumes "drop_bit n (push_bit n k) = (k :: 'a::len word)"
  shows "w AND NOT (mask n) = push_bit n k \<longleftrightarrow> unat w div 2 ^ n = unat k"
proof -
  have "push_bit n (drop_bit n w) = push_bit n k \<longleftrightarrow> drop_bit n w = k"
  proof
    assume "push_bit n (drop_bit n w) = push_bit n k"
    then have "drop_bit n (push_bit n (drop_bit n w)) = drop_bit n (push_bit n k)" by simp
    moreover have "drop_bit n (push_bit n (drop_bit n w)) = drop_bit n w"
      by (rule bit_word_eqI) (auto simp: bit_simps dest: bit_imp_le_length)
    ultimately show "drop_bit n w = k" using assms by simp
  qed simp
  also have "\<dots> \<longleftrightarrow> unat (drop_bit n w) = unat k" by (simp add: unsigned_word_eqI word_unat_eq_iff)
  finally show ?thesis by (simp add: and_not_mask unat_drop_bit_eq flip: drop_bit_eq_div)
qed

lemma v4_mask_values:
  "(0xFF000000 :: 32 word) = - 16777216" "(0xFFF00000 :: 32 word) = - 1048576"
  "(0xFFFF0000 :: 32 word) = - 65536" "(0xFFC00000 :: 32 word) = - 4194304"
  by code_simp+

lemma v4_masks:
  fixes w :: "32 word"
  shows "w AND 0xFF000000 = 0x7F000000 \<longleftrightarrow> unat w div 2 ^ 24 = 127"
    and "w AND 0xFF000000 = 0x0A000000 \<longleftrightarrow> unat w div 2 ^ 24 = 10"
    and "w AND 0xFFF00000 = 0xAC100000 \<longleftrightarrow> unat w div 2 ^ 20 = 2753"
    and "w AND 0xFFFF0000 = 0xC0A80000 \<longleftrightarrow> unat w div 2 ^ 16 = 49320"
    and "w AND 0xFFFF0000 = 0xA9FE0000 \<longleftrightarrow> unat w div 2 ^ 16 = 43518"
    and "w AND 0xFFC00000 = 0x64400000 \<longleftrightarrow> unat w div 2 ^ 22 = 401"
  using and_high_iff [of 24 "127 :: 32 word" w] and_high_iff [of 24 "10 :: 32 word" w]
    and_high_iff [of 20 "2753 :: 32 word" w] and_high_iff [of 16 "49320 :: 32 word" w]
    and_high_iff [of 16 "43518 :: 32 word" w] and_high_iff [of 22 "401 :: 32 word" w]
  by (simp_all add: mask_eq_exp_minus_1 v4_mask_values)

lemma radix_eq: "(c :: nat) < k \<Longrightarrow> k * a + c = n \<longleftrightarrow> a = n div k \<and> c = n mod k"
  by auto

lemma octet_ranges:
  fixes x :: nat
  shows "x div 16 = 2753 \<longleftrightarrow> x div 256 = 172 \<and> x mod 256 \<in> {16..31}"
    and "x = 49320 \<longleftrightarrow> x div 256 = 192 \<and> x mod 256 = 168"
    and "x = 43518 \<longleftrightarrow> x div 256 = 169 \<and> x mod 256 = 254"
    and "x div 64 = 401 \<longleftrightarrow> x div 256 = 100 \<and> x mod 256 \<in> {64..127}"
proof -
  define a b where "a = x div 256" and "b = x mod 256"
  then have x: "x = 256 * a + b" "b < 256" by simp_all
  have "x div 16 = 16 * a + b div 16" "x div 64 = 4 * a + b div 64" unfolding x(1) by simp_all
  moreover have "b div 16 < 16" "b div 64 < 4" using x(2) by auto
  ultimately have "x div 16 = 2753 \<longleftrightarrow> a = 172 \<and> b div 16 = 1" "x div 64 = 401 \<longleftrightarrow> a = 100 \<and> b div 64 = 1"
    by (simp_all only: radix_eq) simp_all
  moreover have "b div 16 = 1 \<longleftrightarrow> b \<in> {16..31}" "b div 64 = 1 \<longleftrightarrow> b \<in> {64..127}" by auto
  ultimately show "x div 16 = 2753 \<longleftrightarrow> x div 256 = 172 \<and> x mod 256 \<in> {16..31}"
    and "x div 64 = 401 \<longleftrightarrow> x div 256 = 100 \<and> x mod 256 \<in> {64..127}"
    by (simp_all add: a_def b_def)
  show "x = 49320 \<longleftrightarrow> x div 256 = 192 \<and> x mod 256 = 168" "x = 43518 \<longleftrightarrow> x div 256 = 169 \<and> x mod 256 = 254"
    unfolding a_def [symmetric] b_def [symmetric] 
    using x by (simp_all only: radix_eq) simp_all
qed

lemma blocked_v4: "blocked_address (V4 w) \<longleftrightarrow> private_octets (v4_octets w)"
proof -
  define x where "x = unat w div 2 ^ 16"
  have x: "unat w div 2 ^ 24 = x div 256" "unat w div 2 ^ 20 = x div 16" "unat w div 2 ^ 22 = x div 64"
    unfolding x_def by (simp_all add: div_mult2_eq [symmetric])
  show ?thesis unfolding blocked_address.simps v4_masks v4_octets_def private_octets.simps x x_def [symmetric]
      octet_ranges by simp
qed



text \<open>
  Addresses the guard does not see: the host it resolves keeps a user name in front, and of a
  bracketed IPv6 address it is the opening bracket alone, so when the resolver knows neither, an
  address of the local machine reaches \<open>curl\<close> without any check and without a pinned address.
\<close>

theorem webhook_guard_bypass:
  "url_host ''http://a@127.0.0.1/x'' = ''a@127.0.0.1'' \<and> url_host ''http://[::1]/x'' = ''[''
   \<and> notify_webhook (\<lambda>host. if host = ''127.0.0.1'' then Some [V4 0x7F000001] else None) ntop6
       ''http://127.0.0.1/x'' target evidence quorum ts = RejectedPrivate
   \<and> notify_webhook (\<lambda>host. if host = ''127.0.0.1'' then Some [V4 0x7F000001] else None) ntop6
       ''http://a@127.0.0.1/x'' target evidence quorum ts
     = Curl (curl_args ''http://a@127.0.0.1/x'' [] (webhook_payload target evidence quorum ts))"
proof -
  have "url_host ''http://a@127.0.0.1/x'' = ''a@127.0.0.1''" "url_host ''http://[::1]/x'' = ''[''"
    "url_host ''http://127.0.0.1/x'' = ''127.0.0.1''" "valid_url ''http://a@127.0.0.1/x''" "valid_url ''http://127.0.0.1/x''"
    "c_string ''a@127.0.0.1'' = ''a@127.0.0.1''" "c_string ''127.0.0.1'' = ''127.0.0.1''" "blocked_address (V4 0x7F000001)"
    by code_simp+
  then show ?thesis by (simp add: notify_webhook_def)
qed

end
