(* ===== verification/StatusExport.thy ===== *)
theory StatusExport
  imports Cpp
begin

text \<open>
  \<open>TelemetryExporter::update_status\<close>, which replaces the status file of the dashboard by writing
  a temporary file and renaming it. The directory names inodes and the inodes hold the bytes, so that an
  open descriptor keeps its file when the name moves. The function is a sequence of system calls, one
  step each; several nodes of a host run it on the same two names.
\<close>


section \<open>The files\<close>

record status_fs =
  sf_temp :: "nat option"
  sf_target :: "nat option"
  sf_data :: "nat \<Rightarrow> string"
  sf_next :: nat
  sf_lock :: "nat \<rightharpoonup> nat"
  sf_warn :: "string list"

text \<open>Results of the calls: \<open>open\<close>, \<open>fcntl\<close>, \<open>write\<close>, \<open>fsync\<close> and \<open>rename\<close>.\<close>

record status_io =
  io_open :: bool
  io_lock :: bool
  io_write :: "nat \<Rightarrow> int"
  io_fsync :: bool
  io_rename :: bool
  io_errno :: string

definition status_payload :: "string \<Rightarrow> string \<Rightarrow> string \<Rightarrow> string" where
  "status_payload node_id status target =
     ''{\"node\": \"'' @ node_id @ ''\", \"event\": \"'' @ status @ ''\", \"target\": \"'' @ target @ ''\"}'' @ [CHR 0x0A]"


section \<open>The calls\<close>

datatype status_pc = Start | Opened nat | Locked nat | Written nat | Returned

definition warn :: "string \<Rightarrow> status_fs \<Rightarrow> status_fs" where
  "warn t fs = fs\<lparr>sf_warn := sf_warn fs @ [''[WARN] TelemetryExporter: '' @ t]\<rparr>"

text \<open>\<open>O_CREAT | O_TRUNC\<close>: the file under the temporary name loses its bytes.\<close>

definition open_temp :: "status_fs \<Rightarrow> nat \<times> status_fs" where
  "open_temp fs =
     (case sf_temp fs of
        Some i \<Rightarrow> (i, fs\<lparr>sf_data := (sf_data fs)(i := [])\<rparr>)
      | None \<Rightarrow> (let i = sf_next fs in (i, fs\<lparr>sf_temp := Some i, sf_next := i + 1, sf_data := (sf_data fs)(i := [])\<rparr>)))"

text \<open>\<open>write\<close> at the start of the file: the bytes behind the written ones stay.\<close>

definition write_at_start :: "nat \<Rightarrow> string \<Rightarrow> status_fs \<Rightarrow> status_fs" where
  "write_at_start i bytes fs = fs\<lparr>sf_data := (sf_data fs)(i := bytes @ drop (length bytes) (sf_data fs i))\<rparr>"

definition unlock :: "nat \<Rightarrow> status_fs \<Rightarrow> status_fs" where
  "unlock i fs = fs\<lparr>sf_lock := (sf_lock fs)(i := None)\<rparr>"

definition rename_temp :: "status_fs \<Rightarrow> status_fs" where
  "rename_temp fs = fs\<lparr>sf_target := sf_temp fs, sf_temp := None\<rparr>"

text \<open>
  One call of process \<open>pid\<close>; \<open>None\<close> while \<open>F_SETLKW\<close> waits for the lock of another process. \<open>Written\<close> is the
  state after the descriptor is closed, before the rename, which fails when the temporary name is gone.
\<close>

fun status_step :: "status_io \<Rightarrow> nat \<Rightarrow> string \<Rightarrow> status_pc \<Rightarrow> status_fs \<Rightarrow> (status_pc \<times> status_fs) option" where
  "status_step io pid payload Start fs =
     Some (if \<not> io_open io then (Returned, warn ''Failed to open temp telemetry file.'' fs)
           else let (i, fs) = open_temp fs in (Opened i, fs))"
| "status_step io pid payload (Opened i) fs =
     (if \<not> io_lock io then Some (Returned, warn ''Failed to acquire POSIX lock.'' fs)
      else case sf_lock fs i of
        Some p \<Rightarrow> (if p = pid then Some (Locked i, fs) else None)
      | None \<Rightarrow> Some (Locked i, fs\<lparr>sf_lock := (sf_lock fs)(i \<mapsto> pid)\<rparr>))"
| "status_step io pid payload (Locked i) fs =
     (let written = io_write io (length payload);
          fs = (if written < 0 then fs else write_at_start i (take (nat written) payload) fs)
      in Some (if written < 0 \<or> nat written \<noteq> length payload
               then (Returned, unlock i (warn ''Write failed or partial.'' fs))
               else (Written i, unlock i (if io_fsync io then fs else warn ''fsync failed.'' fs))))"
| "status_step io pid payload (Written i) fs =
     Some (Returned, if io_rename io \<and> sf_temp fs \<noteq> None then rename_temp fs else warn (''rename failed: '' @ io_errno io) fs)"
| "status_step io pid payload Returned fs = Some (Returned, fs)"

text \<open>The whole function, when no other process runs: four calls suffice.\<close>

primrec status_steps :: "nat \<Rightarrow> status_io \<Rightarrow> nat \<Rightarrow> string \<Rightarrow> status_pc \<times> status_fs \<Rightarrow> (status_pc \<times> status_fs) option" where
  "status_steps 0 io pid payload c = Some c"
| "status_steps (Suc n) io pid payload c =
     (case status_step io pid payload (fst c) (snd c) of None \<Rightarrow> None | Some c' \<Rightarrow> status_steps n io pid payload c')"

definition update_status :: "status_io \<Rightarrow> nat \<Rightarrow> string \<Rightarrow> string \<Rightarrow> string \<Rightarrow> status_fs \<Rightarrow> status_fs option" where
  "update_status io pid node_id status target fs =
     map_option snd (status_steps 4 io pid (status_payload node_id status target) (Start, fs))"


section \<open>Vocabulary of the statements\<close>

text \<open>What a reader of the status file sees.\<close>

definition status_text :: "status_fs \<Rightarrow> string option" where
  "status_text fs = map_option (sf_data fs) (sf_target fs)"

text \<open>No process is inside the function: no lock is held, and the names and the next inode are apart.\<close>

definition quiet :: "status_fs \<Rightarrow> bool" where
  "quiet fs \<longleftrightarrow> sf_lock fs = Map.empty
     \<and> (case sf_temp fs of None \<Rightarrow> True | Some i \<Rightarrow> sf_target fs \<noteq> Some i \<and> i < sf_next fs)
     \<and> (case sf_target fs of None \<Rightarrow> True | Some i \<Rightarrow> i < sf_next fs)"

definition all_succeed :: "status_io \<Rightarrow> string \<Rightarrow> bool" where
  "all_succeed io bytes \<longleftrightarrow> io_open io \<and> io_lock io \<and> io_write io (length bytes) = int (length bytes) \<and> io_rename io"

text \<open>Two processes: the schedule says which one makes its next call.\<close>

type_synonym two_procs = "status_pc \<times> status_pc \<times> status_fs"

definition two_step :: "status_io \<Rightarrow> string \<Rightarrow> string \<Rightarrow> bool \<Rightarrow> two_procs \<Rightarrow> two_procs option" where
  "two_step io p1 p2 first c =
     (let (c1, c2, fs) = c in
      if first then map_option (\<lambda>(c1, fs). (c1, c2, fs)) (status_step io 1 p1 c1 fs)
      else map_option (\<lambda>(c2, fs). (c1, c2, fs)) (status_step io 2 p2 c2 fs))"

fun two_run :: "status_io \<Rightarrow> string \<Rightarrow> string \<Rightarrow> bool list \<Rightarrow> two_procs \<Rightarrow> two_procs option" where
  "two_run io p1 p2 [] c = Some c"
| "two_run io p1 p2 (b # bs) c = Option.bind (two_step io p1 p2 b c) (two_run io p1 p2 bs)"

definition empty_fs :: status_fs where
  "empty_fs = \<lparr>sf_temp = None, sf_target = None, sf_data = (\<lambda>_. []), sf_next = 0, sf_lock = Map.empty, sf_warn = []\<rparr>"

definition demo_io :: status_io where
  "demo_io = \<lparr>io_open = True, io_lock = True, io_write = int, io_fsync = True, io_rename = True, io_errno = []\<rparr>"

text \<open>The files after the call of \<open>write\<close>.\<close>

definition written_fs :: "status_io \<Rightarrow> string \<Rightarrow> nat \<Rightarrow> status_fs \<Rightarrow> status_fs" where
  "written_fs io payload i fs =
     (let written = io_write io (length payload) in if written < 0 then fs else write_at_start i (take (nat written) payload) fs)"


section \<open>One process\<close>

lemma open_temp_fresh:
  assumes "quiet fs" "open_temp fs = (i, fs1)"
  shows "sf_temp fs1 = Some i" "sf_target fs1 = sf_target fs" "sf_target fs \<noteq> Some i" "sf_lock fs1 = Map.empty"
    "sf_data fs1 = (sf_data fs)(i := [])" "i < sf_next fs1" "sf_target fs = Some j \<Longrightarrow> j < sf_next fs1"
  using assms by (auto simp: quiet_def open_temp_def Let_def split: option.splits)

lemma written_fs_other [simp]:
  "sf_temp (written_fs io payload i fs) = sf_temp fs" "sf_target (written_fs io payload i fs) = sf_target fs"
  "sf_next (written_fs io payload i fs) = sf_next fs" "sf_lock (written_fs io payload i fs) = sf_lock fs"
  "j \<noteq> i \<Longrightarrow> sf_data (written_fs io payload i fs) j = sf_data fs j"
  by (simp_all add: written_fs_def write_at_start_def Let_def)

lemma written_fs_data: "\<exists>t. sf_data (written_fs io payload i fs) = (sf_data fs)(i := t)"
proof (cases "io_write io (length payload) < 0")
  case True
  then show ?thesis by (auto simp: written_fs_def intro: exI [of _ "sf_data fs i"])
next
  case False
  then show ?thesis unfolding written_fs_def write_at_start_def Let_def by auto
qed

lemma written_fs_full:
  "io_write io (length payload) = int (length payload)
    \<Longrightarrow> sf_data (written_fs io payload i fs) = (sf_data fs)(i := payload @ drop (length payload) (sf_data fs i))"
  by (simp add: written_fs_def write_at_start_def Let_def)

lemma warn_other [simp]:
  "sf_temp (warn t fs) = sf_temp fs" "sf_target (warn t fs) = sf_target fs" "sf_data (warn t fs) = sf_data fs"
  "sf_next (warn t fs) = sf_next fs" "sf_lock (warn t fs) = sf_lock fs"
  by (simp_all add: warn_def)

lemma unlock_other [simp]:
  "sf_temp (unlock i fs) = sf_temp fs" "sf_target (unlock i fs) = sf_target fs" "sf_data (unlock i fs) = sf_data fs"
  "sf_next (unlock i fs) = sf_next fs" "sf_lock (unlock i fs) = (sf_lock fs)(i := None)"
  by (simp_all add: unlock_def)

lemma rename_temp_other [simp]:
  "sf_temp (rename_temp fs) = None" "sf_target (rename_temp fs) = sf_temp fs" "sf_data (rename_temp fs) = sf_data fs"
  "sf_next (rename_temp fs) = sf_next fs" "sf_lock (rename_temp fs) = sf_lock fs"
  by (simp_all add: rename_temp_def)

lemma locked_step:
  "status_step io pid payload (Locked i) fs =
     (let fs = written_fs io payload i fs in
      Some (if io_write io (length payload) = int (length payload)
            then (Written i, unlock i (if io_fsync io then fs else warn ''fsync failed.'' fs))
            else (Returned, unlock i (warn ''Write failed or partial.'' fs))))"
  by (auto simp: written_fs_def Let_def)

lemma four_calls:
  "status_steps 4 io pid payload c =
     Option.bind (status_step io pid payload (fst c) (snd c)) (\<lambda>c.
     Option.bind (status_step io pid payload (fst c) (snd c)) (\<lambda>c.
     Option.bind (status_step io pid payload (fst c) (snd c)) (\<lambda>c. status_step io pid payload (fst c) (snd c))))"
  by (simp add: numeral_eq_Suc split: option.splits)

lemma update_status_opened:
  fixes node_id status target :: string and pid :: nat
  assumes "open_temp fs = (i, fs1)" "sf_temp fs1 = Some i" "sf_lock fs1 = Map.empty" "io_open io" "io_lock io"
  defines "payload \<equiv> status_payload node_id status target"
  defines "fs2 \<equiv> written_fs io payload i (fs1\<lparr>sf_lock := [i \<mapsto> pid]\<rparr>)"
  defines "fs3 \<equiv> unlock i (if io_fsync io then fs2 else warn ''fsync failed.'' fs2)"
  shows "update_status io pid node_id status target fs = Some
    (if io_write io (length payload) \<noteq> int (length payload) then unlock i (warn ''Write failed or partial.'' fs2)
     else if io_rename io then rename_temp fs3 else warn (''rename failed: '' @ io_errno io) fs3)"
  using assms(1-5)
  by (simp add: update_status_def four_calls locked_step Let_def payload_def fs2_def fs3_def del: status_step.simps(3))

lemma quiet_iff:
  "quiet fs \<longleftrightarrow> sf_lock fs = Map.empty \<and> (\<forall>i. sf_temp fs = Some i \<longrightarrow> sf_target fs \<noteq> Some i \<and> i < sf_next fs)
     \<and> (\<forall>i. sf_target fs = Some i \<longrightarrow> i < sf_next fs)"
  by (auto simp: quiet_def split: option.splits)

text \<open>
  C33. Run without interference, the update always returns; whatever calls fail, a reader afterwards sees the old
  status file unchanged or the new payload in full, and the new payload when every call succeeds. The files are quiet again.
\<close>

theorem update_status_atomic:
  assumes "quiet fs"
  shows "\<exists>fs'. update_status io pid node_id status target fs = Some fs' \<and> quiet fs'
    \<and> (status_text fs' = status_text fs \<or> status_text fs' = Some (status_payload node_id status target))
    \<and> (all_succeed io (status_payload node_id status target) \<longrightarrow> status_text fs' = Some (status_payload node_id status target))"
proof -
  let ?payload = "status_payload node_id status target"
  obtain i fs1 where opened: "open_temp fs = (i, fs1)" by fastforce
  note fresh = open_temp_fresh [OF assms opened]
  have kept: "map_option (d(i := t)) (sf_target fs) = map_option d (sf_target fs)" for d :: "nat \<Rightarrow> string" and t
    using fresh(3) by (cases "sf_target fs") auto
  show ?thesis
  proof (cases "io_open io \<and> io_lock io")
    case False
    then show ?thesis using fresh assms
      by (cases "io_open io") (simp_all add: update_status_def four_calls opened quiet_iff status_text_def all_succeed_def kept)
  next
    case calls: True
    note result = update_status_opened [OF opened fresh(1) fresh(4), where node_id = node_id and status = status and target = target and pid = pid and io = io]
    let ?fs2 = "written_fs io ?payload i (fs1\<lparr>sf_lock := [i \<mapsto> pid]\<rparr>)"
    obtain t where data: "sf_data ?fs2 = (sf_data fs)(i := t)"
      using written_fs_data [of io ?payload i "fs1\<lparr>sf_lock := [i \<mapsto> pid]\<rparr>"] fresh(5) by auto
    have full: "t = ?payload" if "io_write io (length ?payload) = int (length ?payload)"
      using written_fs_full [OF that, of i "fs1\<lparr>sf_lock := [i \<mapsto> pid]\<rparr>"] fun_cong [OF data, of i] by (simp add: fresh(5))
    show ?thesis using calls fresh assms full
      by (cases "io_write io (length ?payload) = int (length ?payload)") (simp_all add: result quiet_iff status_text_def all_succeed_def data kept)
  qed
qed

theorem update_status_atomic_witness:
  "quiet empty_fs \<and> all_succeed demo_io (status_payload ''A'' ''UP'' ''NONE'')
   \<and> (\<exists>fs. update_status demo_io 1 ''A'' ''UP'' ''NONE'' empty_fs = Some fs \<and> status_text fs = Some (status_payload ''A'' ''UP'' ''NONE''))"
proof -
  have "quiet empty_fs" "all_succeed demo_io (status_payload ''A'' ''UP'' ''NONE'')"
    by (simp_all add: quiet_def empty_fs_def all_succeed_def demo_io_def)
  then show ?thesis using update_status_atomic [of empty_fs demo_io 1 "''A''" "''UP''" "''NONE''"] by auto
qed


section \<open>Two processes\<close>

text \<open>
  The temporary file is truncated before its lock is taken. When two nodes of a host publish at the same time and
  every call succeeds, the status file can end as the second payload followed by the rest of the first one, which is
  neither of the two when the first one is longer.
\<close>

theorem two_writers_mix:
  "\<exists>schedule fs. two_run demo_io p1 p2 schedule (Start, Start, empty_fs) = Some (Returned, Returned, fs)
     \<and> status_text fs = Some (p2 @ drop (length p2) p1)"
proof (intro exI conjI)
  let ?schedule = "[True, False, True, True, False, False, True, False]"
  have lock: "(Map.empty :: nat \<rightharpoonup> nat)(0 := None) = Map.empty" by auto
  show "two_run demo_io p1 p2 ?schedule (Start, Start, empty_fs) = Some (Returned, Returned,
      \<lparr>sf_temp = None, sf_target = Some 0, sf_data = (\<lambda>_. [])(0 := p2 @ drop (length p2) p1), sf_next = 1,
       sf_lock = Map.empty, sf_warn = [''[WARN] TelemetryExporter: rename failed: '']\<rparr>)"
    by (simp add: two_step_def empty_fs_def demo_io_def open_temp_def write_at_start_def unlock_def rename_temp_def warn_def Let_def lock)
qed (simp add: status_text_def)

text \<open>The payload is not escaped: a target with a quote adds members of its own.\<close>

lemma status_payload_forged:
  "status_payload n ''UP'' (t @ ''\", \"node\": \"B'') =
     ''{\"node\": \"'' @ n @ ''\", \"event\": \"UP\", \"target\": \"'' @ t @ ''\", \"node\": \"B\"}'' @ [CHR 0x0A]"
  by (simp add: status_payload_def)

end
