(* ===== verification/AuditLogger.thy ===== *)
theory AuditLogger
  imports Json Float_Text Net
begin

text \<open>
  \<open>telemetry/AuditLogger.cpp\<close> with the descriptor owner of \<open>common/UniqueFD.hpp\<close>:
  events and metrics as JSON lines, printed and sent to the local collector. What reaches the
  outside is a trace of \<open>audit_out\<close>; the results of the system calls are arguments.
\<close>


section \<open>The owner of a descriptor\<close>

datatype audit_out =
    Stdout string
  | Stderr string
  | CloseFd int
  | Datagram int string int string

definition fd_valid :: "int \<Rightarrow> bool" where
  "fd_valid fd \<longleftrightarrow> fd \<ge> 0"

text \<open>Move assignment: the old descriptor is closed; the source is left empty.\<close>

definition fd_move_assign :: "int \<Rightarrow> int \<Rightarrow> int \<times> int \<times> audit_out list" where
  "fd_move_assign m_fd other = (other, -1, if m_fd \<ge> 0 then [CloseFd m_fd] else [])"

definition fd_release :: "int \<Rightarrow> int \<times> int" where
  "fd_release m_fd = (m_fd, -1)"

definition fd_destroy :: "int \<Rightarrow> audit_out list" where
  "fd_destroy m_fd = (if m_fd \<ge> 0 then [CloseFd m_fd] else [])"


section \<open>Escaping\<close>

text \<open>The escape of one character; \<open>json_escape\<close> here and \<open>escape_json\<close> of the metrics have the same cases.\<close>

definition json_esc :: "char \<Rightarrow> string" where
  "json_esc c =
     (if c = CHR 0x22 then [CHR 0x5C, CHR 0x22]
      else if c = CHR 0x5C then [CHR 0x5C, CHR 0x5C]
      else if c = CHR 0x0A then [CHR 0x5C, CHR ''n'']
      else if c = CHR 0x0D then [CHR 0x5C, CHR ''r'']
      else if c = CHR 0x09 then [CHR 0x5C, CHR ''t'']
      else if (of_char c :: nat) < 0x20 then u_escape c
      else [c])"

primrec json_escape :: "string \<Rightarrow> string" where
  "json_escape [] = []"
| "json_escape (c # raw) = json_esc c @ json_escape raw"


section \<open>The logger\<close>

datatype audit_level = INFO | WARNING | CRITICAL | DEFENSE_ACTION

record audit_logger =
  s_udp_socket :: int
  al_outs :: "audit_out list"

definition new_audit_logger :: audit_logger where
  "new_audit_logger = \<lparr>s_udp_socket = -1, al_outs = []\<rparr>"

text \<open>\<open>socket\<close> returned \<open>fd\<close>, with the text of \<open>errno\<close> when it failed.\<close>

definition audit_initialize :: "int \<Rightarrow> string \<Rightarrow> audit_logger \<Rightarrow> audit_logger" where
  "audit_initialize fd err a =
     (if \<not> fd_valid fd
      then a\<lparr>al_outs := al_outs a @ [Stderr (''[AUDIT] Failed to create UDP socket: '' @ err)]\<rparr>
      else let (own, _, closed) = fd_move_assign (s_udp_socket a) fd
           in a\<lparr>s_udp_socket := own, al_outs := al_outs a @ closed\<rparr>)"

definition lvl_str :: "audit_level \<Rightarrow> string" where
  "lvl_str level =
     (case level of
        CRITICAL \<Rightarrow> ''CRITICAL''
      | DEFENSE_ACTION \<Rightarrow> ''DEFENSE_ACTION''
      | WARNING \<Rightarrow> ''WARNING''
      | INFO \<Rightarrow> ''INFO'')"

definition event_line :: "int \<Rightarrow> audit_level \<Rightarrow> string \<Rightarrow> string \<Rightarrow> string \<Rightarrow> string \<Rightarrow> string" where
  "event_line ms level component action target details =
     ''{\"type\":\"EVENT\",\"timestamp\":'' @ int_str ms
     @ '',\"level\":\"'' @ json_escape (lvl_str level) @ ''\"''
     @ '',\"component\":\"'' @ json_escape component @ ''\"''
     @ '',\"action\":\"'' @ json_escape action @ ''\"''
     @ '',\"target\":\"'' @ json_escape target @ ''\"''
     @ '',\"details\":\"'' @ json_escape details @ ''\"}''"

definition to_collector :: "string \<Rightarrow> audit_logger \<Rightarrow> audit_logger" where
  "to_collector json a =
     (if fd_valid (s_udp_socket a)
      then a\<lparr>al_outs := al_outs a @ [Datagram (s_udp_socket a) ''127.0.0.1'' 50052 json]\<rparr>
      else a)"

definition emit_json :: "time \<Rightarrow> audit_level \<Rightarrow> string \<Rightarrow> string \<Rightarrow> string \<Rightarrow> string \<Rightarrow> audit_logger \<Rightarrow> audit_logger" where
  "emit_json now level component action target details a =
     (let json = event_line (dmillis now) level component action target details
      in to_collector json (a\<lparr>al_outs := al_outs a @ [Stdout (json @ [CHR 0x0A])]\<rparr>))"

text \<open>A \<open>double\<close> with the values that are not numbers.\<close>

datatype cpp_double = Finite rat | Infinite bool | NotANumber

definition safe_num :: "cpp_double \<Rightarrow> string" where
  "safe_num v = (case v of Finite x \<Rightarrow> fixed6 x | _ \<Rightarrow> ''0.0'')"

definition metric_line :: "cpp_double \<Rightarrow> cpp_double \<Rightarrow> int \<Rightarrow> string" where
  "metric_line cpu_percent ram_mb active_agents =
     ''{\"type\":\"METRIC\",\"cpu\":'' @ safe_num cpu_percent @ '',\"ram\":'' @ safe_num ram_mb
     @ '',\"agents\":'' @ int_str active_agents @ ''}''"

definition emit_metric :: "cpp_double \<Rightarrow> cpp_double \<Rightarrow> int \<Rightarrow> audit_logger \<Rightarrow> audit_logger" where
  "emit_metric cpu_percent ram_mb active_agents = to_collector (metric_line cpu_percent ram_mb active_agents)"


section \<open>Vocabulary of the statements\<close>

text \<open>Reading members whose texts up to the opening quote are known.\<close>

fun read_members :: "string list \<Rightarrow> string \<Rightarrow> (string list \<times> string) option" where
  "read_members [] s = Some ([], s)"
| "read_members (p # ps) s =
     (if starts_with p s
      then case read_string (drop (length p) s) of
             None \<Rightarrow> None
           | Some (v, r) \<Rightarrow> map_option (\<lambda>(vs, t). (v # vs, t)) (read_members ps r)
      else None)"

definition read_event :: "string \<Rightarrow> (string list \<times> string) option" where
  "read_event s =
     (let head = ''{\"type\":\"EVENT\",\"timestamp\":''
      in if starts_with head s
         then read_members ['',\"level\":\"'', '',\"component\":\"'', '',\"action\":\"'', '',\"target\":\"'', '',\"details\":\"'']
                (dropWhile (\<lambda>c. c \<noteq> CHR '','') (drop (length head) s))
         else None)"

text \<open>The characters of a JSON number.\<close>

definition number_char :: "char \<Rightarrow> bool" where
  "number_char c \<longleftrightarrow> is_digit c \<or> c = CHR ''-'' \<or> c = CHR ''.''"


section \<open>Escaping is faithful\<close>

lemma json_escape_eq: "json_escape s = concat (map json_esc s)"
  by (induction s) auto

interpretation json_text: escaper json_esc
proof
  fix c x :: char and rest
  show "unesc1 (json_esc c @ rest) = Some (c, rest)"
    by (auto simp: json_esc_def)
  show "json_esc c \<noteq> [] \<and> hd (json_esc c) \<noteq> CHR 0x22"
    by (auto simp: json_esc_def u_escape_starts)
  show "32 \<le> (of_char x :: nat)" if "x \<in> set (json_esc c)"
    using that by (auto simp: json_esc_def u_escape_printable split: if_splits)
qed

lemma json_escape_reads_back [simp]: "read_string (json_escape s @ CHR 0x22 # rest) = Some (s, rest)"
  unfolding json_escape_eq by (rule json_text.reads_back)

lemma json_escape_one_line [simp]: "CHR 0x0A \<notin> set (json_escape s)"
  unfolding json_escape_eq by (rule json_text.escape_no_control) simp

lemma int_str_number: "c \<in> set (int_str i) \<Longrightarrow> is_digit c \<or> c = CHR ''-''"
  using int_str_no_sep [of c i] by blast

lemma int_str_no_newline [simp]: "CHR 0x0A \<notin> set (int_str i)"
  using int_str_number [of "CHR 0x0A" i] by (auto simp: is_digit_def)

lemma int_str_no_comma: "c \<in> set (int_str i) \<Longrightarrow> c \<noteq> CHR '',''"
  using int_str_number [of c i] by (auto simp: is_digit_def)

lemma skip_number [simp]:
  "dropWhile (\<lambda>c. c \<noteq> CHR '','') (int_str i @ CHR '','' # s) = CHR '','' # s"
  using int_str_no_comma [of _ i] by (subst dropWhile_append2) auto

lemma read_members_step [simp]:
  "read_members (p # ps) (p @ json_escape v @ CHR 0x22 # r) = map_option (\<lambda>(vs, t). (v # vs, t)) (read_members ps r)"
  by simp


section \<open>Events\<close>

text \<open>
  The line of an audit event is one line whatever the texts are, and reading its members gives the level,
  the component, the action, the target and the details back.
\<close>

theorem audit_event_reads_back:
  "read_event (event_line ms level component action target details)
     = Some ([lvl_str level, component, action, target, details], ''}'')
   \<and> CHR 0x0A \<notin> set (event_line ms level component action target details)"
  by (simp add: read_event_def event_line_def Let_def starts_with_def)

text \<open>A number of a metric is a JSON number, also for the values that are not finite.\<close>

lemma safe_num_number: "c \<in> set (safe_num v) \<Longrightarrow> number_char c"
  by (auto simp: safe_num_def fixed6_def Let_def number_char_def is_digit_def dest: nat_str_digits split: cpp_double.splits if_splits)

lemma emit_json_outs:
  "al_outs (emit_json now level component action target details a) =
     (let json = event_line (dmillis now) level component action target details
      in al_outs a @ [Stdout (json @ [CHR 0x0A])]
         @ (if fd_valid (s_udp_socket a) then [Datagram (s_udp_socket a) ''127.0.0.1'' 50052 json] else []))"
  by (simp add: emit_json_def to_collector_def Let_def)

text \<open>A second initialisation closes the descriptor of the first one and keeps exactly the new one.\<close>

lemma initialize_owns_one:
  assumes "fd_valid fd"
  shows "s_udp_socket (audit_initialize fd err a) = fd"
    "al_outs (audit_initialize fd err a) = al_outs a @ fd_destroy (s_udp_socket a)"
  using assms by (simp_all add: audit_initialize_def fd_move_assign_def fd_destroy_def)

end
