(* ===== verification/Metrics.thy ===== *)
theory Metrics
  imports AuditLogger Rate_Limit
begin

text \<open>
  \<open>MetricsCollector\<close> and \<open>PrometheusExporter\<close> of \<open>telemetry/Observability.cpp\<close>:
  counters, gauges and histograms by name and labels, their two text forms, and the endpoint that serves
  them. Collectors are reached through pointers, so the exporter holds addresses and the heap is an
  argument; sockets are arguments with a trace of what was opened, bound and closed.
\<close>


section \<open>Texts\<close>

definition escape_json :: "string \<Rightarrow> string" where
  "escape_json s = concat (map json_esc s)"

definition sanitize_char :: "char \<Rightarrow> string" where
  "sanitize_char c =
     (if c = CHR 0x0D \<or> c = CHR 0x0A then '' ''
      else if c = CHR 0x22 then [CHR 0x5C, CHR 0x22]
      else if c = CHR 0x5C then [CHR 0x5C, CHR 0x5C]
      else [c])"

definition sanitize_label_value :: "string \<Rightarrow> string" where
  "sanitize_label_value value = concat (map sanitize_char value)"

definition sorted_labels_key :: "(string, string) omap \<Rightarrow> string" where
  "sorted_labels_key labels =
     (let s = concat (map (\<lambda>(k, v). sanitize_label_value k @ ''='' @ sanitize_label_value v @ '','') labels)
      in if s \<noteq> [] then butlast s else [])"

definition is_alnum :: "char \<Rightarrow> bool" where
  "is_alnum c \<longleftrightarrow> is_digit c \<or> (let n = (of_char c :: nat) in (65 \<le> n \<and> n \<le> 90) \<or> (97 \<le> n \<and> n \<le> 122))"

definition sanitize_metric_name :: "string \<Rightarrow> string" where
  "sanitize_metric_name name = map (\<lambda>c. if is_alnum c \<or> c = CHR ''_'' \<or> c = CHR '':'' then c else CHR ''_'') name"


section \<open>The collector\<close>

record histogram_metric =
  hm_count :: uint64
  hm_sum :: rat
  hm_min :: rat
  hm_max :: rat

definition default_histogram :: histogram_metric where
  "default_histogram = \<lparr>hm_count = 0, hm_sum = 0, hm_min = 0, hm_max = 0\<rparr>"

record metrics_collector =
  m_counters :: "(string, (string, rat) omap) omap"
  m_gauges :: "(string, (string, rat) omap) omap"
  m_histograms :: "(string, (string, histogram_metric) omap) omap"

definition new_collector :: metrics_collector where
  "new_collector = \<lparr>m_counters = [], m_gauges = [], m_histograms = []\<rparr>"

text \<open>\<open>operator[]\<close>: a missing entry is created with the default value.\<close>

definition omap_at :: "'v \<Rightarrow> ('k, 'v) omap \<Rightarrow> 'k \<Rightarrow> 'v" where
  "omap_at d m k = (case omap_lookup m k of None \<Rightarrow> d | Some v \<Rightarrow> v)"

definition update_series :: "'v \<Rightarrow> string \<Rightarrow> string \<Rightarrow> ('v \<Rightarrow> 'v) \<Rightarrow> (string, (string, 'v) omap) omap \<Rightarrow> (string, (string, 'v) omap) omap" where
  "update_series d name key f m =
     (let inner = omap_at [] m name in omap_insert name (omap_insert key (f (omap_at d inner key)) inner) m)"

definition counter :: "string \<Rightarrow> rat \<Rightarrow> (string, string) omap \<Rightarrow> metrics_collector \<Rightarrow> metrics_collector" where
  "counter name value labels c =
     c\<lparr>m_counters := update_series 0 name (sorted_labels_key labels) (\<lambda>old. fadd old value) (m_counters c)\<rparr>"

definition gauge :: "string \<Rightarrow> rat \<Rightarrow> (string, string) omap \<Rightarrow> metrics_collector \<Rightarrow> metrics_collector" where
  "gauge name value labels c =
     c\<lparr>m_gauges := update_series 0 name (sorted_labels_key labels) (\<lambda>_. value) (m_gauges c)\<rparr>"

definition observe :: "rat \<Rightarrow> histogram_metric \<Rightarrow> histogram_metric" where
  "observe value h =
     (let h = h\<lparr>hm_count := hm_count h + 1, hm_sum := fadd (hm_sum h) value\<rparr>
      in if hm_count h = 1 then h\<lparr>hm_min := value, hm_max := value\<rparr>
         else h\<lparr>hm_min := min (hm_min h) value, hm_max := max (hm_max h) value\<rparr>)"

definition histogram :: "string \<Rightarrow> rat \<Rightarrow> (string, string) omap \<Rightarrow> metrics_collector \<Rightarrow> metrics_collector" where
  "histogram name value labels c =
     c\<lparr>m_histograms := update_series default_histogram name (sorted_labels_key labels) (observe value) (m_histograms c)\<rparr>"

definition increment_counter :: "string \<Rightarrow> (string, string) omap \<Rightarrow> metrics_collector \<Rightarrow> metrics_collector" where
  "increment_counter name labels = counter name 1 labels"

definition set_gauge :: "string \<Rightarrow> rat \<Rightarrow> (string, string) omap \<Rightarrow> metrics_collector \<Rightarrow> metrics_collector" where
  "set_gauge = gauge"

definition observe_histogram :: "string \<Rightarrow> rat \<Rightarrow> (string, string) omap \<Rightarrow> metrics_collector \<Rightarrow> metrics_collector" where
  "observe_histogram = histogram"

definition get_metric_names :: "metrics_collector \<Rightarrow> string list" where
  "get_metric_names c = map fst (m_counters c) @ map fst (m_gauges c) @ map fst (m_histograms c)"

definition has_metric :: "string \<Rightarrow> metrics_collector \<Rightarrow> bool" where
  "has_metric name c \<longleftrightarrow>
     omap_lookup (m_counters c) name \<noteq> None \<or> omap_lookup (m_gauges c) name \<noteq> None \<or> omap_lookup (m_histograms c) name \<noteq> None"


section \<open>The two text forms\<close>

definition series_name :: "string \<Rightarrow> string \<Rightarrow> string" where
  "series_name name labels_key = name @ (if labels_key = [] then [] else ''{'' @ labels_key @ ''}'')"

definition scalar_family :: "string \<Rightarrow> string \<times> (string, rat) omap \<Rightarrow> string" where
  "scalar_family type fam =
     (let (name, labels_map) = fam
      in ''# TYPE '' @ name @ '' '' @ type @ [CHR 0x0A]
         @ concat (map (\<lambda>(key, value). series_name name key @ '' '' @ general6 value @ [CHR 0x0A]) labels_map))"

definition histogram_family :: "string \<times> (string, histogram_metric) omap \<Rightarrow> string" where
  "histogram_family fam =
     (let (name, labels_map) = fam
      in ''# TYPE '' @ name @ '' histogram'' @ [CHR 0x0A]
         @ concat (map (\<lambda>(key, hist).
               series_name (name @ ''_count'') key @ '' '' @ u64_str (hm_count hist) @ [CHR 0x0A]
               @ series_name (name @ ''_sum'') key @ '' '' @ general6 (hm_sum hist) @ [CHR 0x0A]) labels_map))"

definition export_prometheus :: "metrics_collector \<Rightarrow> string" where
  "export_prometheus c =
     concat (map (scalar_family ''counter'') (m_counters c))
     @ concat (map (scalar_family ''gauge'') (m_gauges c))
     @ concat (map histogram_family (m_histograms c))"

definition json_labels :: "string \<Rightarrow> string" where
  "json_labels labels_key = (if labels_key = [] then [] else ''\"labels\":\"'' @ escape_json labels_key @ ''\",'')"

text \<open>The loop over one map: \<open>first_metric\<close> tells whether a comma is due.\<close>

fun write_items :: "bool \<times> string \<Rightarrow> string list \<Rightarrow> bool \<times> string" where
  "write_items (first_metric, out) [] = (first_metric, out)"
| "write_items (first_metric, out) (item # items) =
     write_items (False, out @ (if first_metric then [] else '','') @ item) items"

definition labeled_items :: "string \<Rightarrow> (string, (string, rat) omap) omap \<Rightarrow> string list" where
  "labeled_items type m =
     concat (map (\<lambda>(name, labels_map). map (\<lambda>(key, value).
       ''\"'' @ escape_json name @ ''\":{'' @ ''\"type\":\"'' @ type @ ''\",'' @ json_labels key
       @ ''\"value\":'' @ general6 value @ ''}'') labels_map) m)"

definition histogram_items :: "(string, (string, histogram_metric) omap) omap \<Rightarrow> string list" where
  "histogram_items m =
     concat (map (\<lambda>(name, labels_map). map (\<lambda>(key, hist).
       ''\"'' @ escape_json name @ ''\":{'' @ ''\"type\":\"histogram\",'' @ json_labels key
       @ ''\"count\":'' @ u64_str (hm_count hist) @ '',\"sum\":'' @ general6 (hm_sum hist) @ ''}'') labels_map) m)"

definition export_json :: "metrics_collector \<Rightarrow> string" where
  "export_json c =
     (let w = write_items (True, ''{'') (labeled_items ''counter'' (m_counters c));
          w = write_items w (labeled_items ''gauge'' (m_gauges c));
          w = write_items w (histogram_items (m_histograms c))
      in snd w @ ''}'')"


section \<open>The endpoint\<close>

datatype prom_out = SocketOpened int | SocketClosed int | BoundTo "nat list" "16 word"

record prom_exporter =
  pe_listen_address :: string
  pe_fd :: int
  pe_running :: bool
  pe_collectors :: "nat list"
  pe_outs :: "prom_out list"

definition new_prom_exporter :: "string \<Rightarrow> prom_exporter" where
  "new_prom_exporter listen_address =
     \<lparr>pe_listen_address = listen_address, pe_fd = -1, pe_running = False, pe_collectors = [], pe_outs = []\<rparr>"

record socket_io =
  so_socket :: int
  so_bind :: bool
  so_listen :: bool

definition find_char :: "char \<Rightarrow> string \<Rightarrow> nat option" where
  "find_char c s = (let k = length (takeWhile (\<lambda>x. x \<noteq> c) s) in if k < length s then Some k else None)"

text \<open>Host and port of the address; \<open>None\<close> when \<open>std::stoi\<close> throws.\<close>

definition parse_listen :: "string \<Rightarrow> (string \<times> int) option" where
  "parse_listen a =
     (case find_char (CHR '':'') a of
        Some colon \<Rightarrow>
          if colon + 1 < length a
          then map_option (\<lambda>(port, _). (if colon > 0 then take colon a else ''0.0.0.0'', port)) (stoi (drop (colon + 1) a))
          else Some (''0.0.0.0'', 9090)
      | None \<Rightarrow> Some (''0.0.0.0'', 9090))"

definition close_listener :: "prom_exporter \<Rightarrow> prom_exporter" where
  "close_listener e = e\<lparr>pe_fd := -1, pe_outs := pe_outs e @ [SocketClosed (pe_fd e)]\<rparr>"

text \<open>
  The result and the new state; \<open>None\<close> for the exception. The address stays zero when
  \<open>inet_pton\<close> does not accept the host.
\<close>

definition prom_start :: "socket_io \<Rightarrow> prom_exporter \<Rightarrow> (bool \<times> prom_exporter) option" where
  "prom_start io e =
     (if pe_running e then Some (True, e)
      else case parse_listen (pe_listen_address e) of
        None \<Rightarrow> None
      | Some (host, port) \<Rightarrow> Some
          (if so_socket io < 0 then (False, e\<lparr>pe_fd := so_socket io\<rparr>)
           else
             let addr = (case inet_pton4 (c_string host) of Some a \<Rightarrow> a | None \<Rightarrow> [0, 0, 0, 0]);
                 e = e\<lparr>pe_fd := so_socket io, pe_outs := pe_outs e @ [SocketOpened (so_socket io)]\<rparr>
             in if \<not> so_bind io then (False, close_listener e)
                else let e = e\<lparr>pe_outs := pe_outs e @ [BoundTo addr (word_of_int port)]\<rparr>
                     in if \<not> so_listen io then (False, close_listener e) else (True, e\<lparr>pe_running := True\<rparr>)))"

definition prom_stop :: "prom_exporter \<Rightarrow> prom_exporter" where
  "prom_stop e =
     (if \<not> pe_running e then e
      else let e = e\<lparr>pe_running := False\<rparr> in if pe_fd e \<ge> 0 then close_listener e else e)"

definition register_collector :: "nat \<Rightarrow> prom_exporter \<Rightarrow> prom_exporter" where
  "register_collector p e = e\<lparr>pe_collectors := pe_collectors e @ [p]\<rparr>"

fun hex_nat :: "nat \<Rightarrow> string" where
  "hex_nat n = (if n < 16 then [hex_digit n] else hex_nat (n div 16) @ [hex_digit (n mod 16)])"

definition unregister_collector :: "string \<Rightarrow> prom_exporter \<Rightarrow> prom_exporter" where
  "unregister_collector token e =
     e\<lparr>pe_collectors := filter (\<lambda>p. \<not> (token \<noteq> [] \<and> p \<noteq> 0 \<and> token = ''0x'' @ hex_nat p)) (pe_collectors e)\<rparr>"

definition get_metrics :: "(nat \<Rightarrow> metrics_collector) \<Rightarrow> prom_exporter \<Rightarrow> string" where
  "get_metrics heap e = concat (map (\<lambda>p. export_prometheus (heap p)) (pe_collectors e))"

definition kMaxRequestsPerSecond :: int where
  "kMaxRequestsPerSecond = 100"

record request_window =
  last_request :: time
  requests_this_second :: int

definition new_window :: request_window where
  "new_window = \<lparr>last_request = 0, requests_this_second = 0\<rparr>"

definition admit_request :: "time \<Rightarrow> request_window \<Rightarrow> bool \<times> request_window" where
  "admit_request now w =
     (let w = (if last_request w = 0 \<or> dsecs (now - last_request w) \<ge> 1
               then w\<lparr>requests_this_second := 0, last_request := now\<rparr> else w)
      in if requests_this_second w \<ge> kMaxRequestsPerSecond then (False, w)
         else (True, w\<lparr>requests_this_second := requests_this_second w + 1\<rparr>))"

definition crlf :: string where
  "crlf = [CHR 0x0D, CHR 0x0A]"

definition http_response :: "string \<Rightarrow> string" where
  "http_response metrics =
     ''HTTP/1.1 200 OK'' @ crlf @ ''Content-Type: text/plain'' @ crlf
     @ ''Content-Length: '' @ nat_str (length metrics) @ crlf @ ''Connection: close'' @ crlf @ crlf @ metrics"

text \<open>One accepted client of \<open>metrics_loop\<close>: what is written to it.\<close>

definition serve_client :: "(nat \<Rightarrow> metrics_collector) \<Rightarrow> prom_exporter \<Rightarrow> time \<Rightarrow> request_window \<Rightarrow> string \<times> request_window" where
  "serve_client heap e now w =
     (let (ok, w) = admit_request now w
      in (if ok then http_response (get_metrics heap e)
          else ''HTTP/1.1 429 Too Many Requests'' @ crlf @ ''Content-Length: 0'' @ crlf @ crlf, w))"


text \<open>One pass of the loop: whether \<open>select\<close> reports the socket and what \<open>accept\<close> returned are arguments.\<close>

definition metrics_iteration ::
  "(nat \<Rightarrow> metrics_collector) \<Rightarrow> prom_exporter \<Rightarrow> bool \<Rightarrow> int \<Rightarrow> time \<Rightarrow> request_window \<Rightarrow> (int \<times> string) option \<times> request_window" where
  "metrics_iteration heap e ready client now w =
     (if \<not> pe_running e \<or> \<not> ready \<or> client < 0 then (None, w)
      else let (response, w) = serve_client heap e now w in (Some (client, response), w))"


section \<open>Vocabulary of the statements\<close>

datatype metric_call =
    Counter string rat "(string, string) omap"
  | Gauge string rat "(string, string) omap"
  | Histogram string rat "(string, string) omap"

fun metric_step :: "metric_call \<Rightarrow> metrics_collector \<Rightarrow> metrics_collector" where
  "metric_step (Counter n v l) = counter n v l"
| "metric_step (Gauge n v l) = gauge n v l"
| "metric_step (Histogram n v l) = histogram n v l"

fun call_name :: "metric_call \<Rightarrow> string" where
  "call_name (Counter n v l) = n"
| "call_name (Gauge n v l) = n"
| "call_name (Histogram n v l) = n"

definition metric_run :: "metric_call list \<Rightarrow> metrics_collector \<Rightarrow> metrics_collector" where
  "metric_run = fold metric_step"

text \<open>The lines of the exposition, one list for each family.\<close>

definition scalar_lines :: "string \<Rightarrow> string \<times> (string, rat) omap \<Rightarrow> string list" where
  "scalar_lines type fam =
     (''# TYPE '' @ fst fam @ '' '' @ type) # map (\<lambda>(key, value). series_name (fst fam) key @ '' '' @ general6 value) (snd fam)"

definition histogram_lines :: "string \<times> (string, histogram_metric) omap \<Rightarrow> string list" where
  "histogram_lines fam =
     (''# TYPE '' @ fst fam @ '' histogram'')
     # concat (map (\<lambda>(key, h). [series_name (fst fam @ ''_count'') key @ '' '' @ u64_str (hm_count h),
                               series_name (fst fam @ ''_sum'') key @ '' '' @ general6 (hm_sum h)]) (snd fam))"

definition exposition :: "metrics_collector \<Rightarrow> string list" where
  "exposition c =
     concat (map (scalar_lines ''counter'') (m_counters c)) @ concat (map (scalar_lines ''gauge'') (m_gauges c))
     @ concat (map histogram_lines (m_histograms c))"

definition one_line :: "string \<Rightarrow> bool" where
  "one_line s \<longleftrightarrow> CHR 0x0A \<notin> set s"

text \<open>A table of series: ordered, no family empty, names and keys on one line.\<close>

definition series_ok :: "(string, (string, 'v) omap) omap \<Rightarrow> bool" where
  "series_ok m \<longleftrightarrow> omap_inv m \<and> (\<forall>fam\<in>set m. one_line (fst fam) \<and> snd fam \<noteq> [] \<and> omap_inv (snd fam) \<and> (\<forall>s\<in>set (snd fam). one_line (fst s)))"

definition collector_ok :: "metrics_collector \<Rightarrow> bool" where
  "collector_ok c \<longleftrightarrow> series_ok (m_counters c) \<and> series_ok (m_gauges c) \<and> series_ok (m_histograms c)"

text \<open>The value of a series, and the calls that concern it.\<close>

definition series :: "'v \<Rightarrow> (string, (string, 'v) omap) omap \<Rightarrow> string \<Rightarrow> string \<Rightarrow> 'v" where
  "series d m name key = omap_at d (omap_at [] m name) key"

definition ordered_series :: "(string, (string, 'v) omap) omap \<Rightarrow> bool" where
  "ordered_series m \<longleftrightarrow> omap_inv m \<and> (\<forall>fam\<in>set m. omap_inv (snd fam))"

fun increments :: "string \<Rightarrow> string \<Rightarrow> metric_call list \<Rightarrow> rat list" where
  "increments name key [] = []"
| "increments name key (Counter n v l # calls) =
     (if n = name \<and> sorted_labels_key l = key then v # increments name key calls else increments name key calls)"
| "increments name key (_ # calls) = increments name key calls"

fun observations :: "string \<Rightarrow> string \<Rightarrow> metric_call list \<Rightarrow> rat list" where
  "observations name key [] = []"
| "observations name key (Histogram n v l # calls) =
     (if n = name \<and> sorted_labels_key l = key then v # observations name key calls else observations name key calls)"
| "observations name key (_ # calls) = observations name key calls"

datatype prom_call = StartCall socket_io | StopCall

fun prom_step :: "prom_call \<Rightarrow> prom_exporter \<Rightarrow> prom_exporter" where
  "prom_step (StartCall io) e = (case prom_start io e of None \<Rightarrow> e | Some (_, e') \<Rightarrow> e')"
| "prom_step StopCall e = prom_stop e"

fun open_sockets :: "int list \<Rightarrow> prom_out list \<Rightarrow> int list option" where
  "open_sockets fds [] = Some fds"
| "open_sockets fds (SocketOpened fd # os) = open_sockets (fd # fds) os"
| "open_sockets fds (SocketClosed fd # os) = (if fd \<in> set fds then open_sockets (remove1 fd fds) os else None)"
| "open_sockets fds (BoundTo a p # os) = open_sockets fds os"

text \<open>A host that is not a dotted address is not refused: the endpoint is bound to every interface. A port that is not
  a number makes the call throw; one above 65535 wraps.\<close>

definition ready_io :: socket_io where
  "ready_io = \<lparr>so_socket = 7, so_bind = True, so_listen = True\<rparr>"

definition metric_demo :: "metric_call list" where
  "metric_demo = [Counter ''c'' 1 [(''k'', ''x'' @ [CHR 0x0A] @ ''y'')], Histogram ''h'' 2 [], Histogram ''h'' 1 [], Counter ''c'' 1 [(''k'', ''x y'')]]"


section \<open>Texts on one line\<close>

lemma one_line_append [simp]: "one_line (s @ t) \<longleftrightarrow> one_line s \<and> one_line t"
  by (simp add: one_line_def)

lemma one_line_Cons [simp]: "one_line (c # s) \<longleftrightarrow> c \<noteq> CHR 0x0A \<and> one_line s"
  by (auto simp: one_line_def)

lemma one_line_Nil [simp]: "one_line []"
  by (simp add: one_line_def)

lemma one_line_take [simp]: "one_line s \<Longrightarrow> one_line (take n s)"
  by (auto simp: one_line_def dest: in_set_takeD)

lemma one_line_drop [simp]: "one_line s \<Longrightarrow> one_line (drop n s)"
  by (auto simp: one_line_def dest: in_set_dropD)

lemma one_line_butlast [simp]: "one_line s \<Longrightarrow> one_line (butlast s)"
  by (auto simp: one_line_def dest: in_set_butlastD)

lemma one_line_replicate [simp]: "one_line (replicate n c) \<longleftrightarrow> n = 0 \<or> c \<noteq> CHR 0x0A"
  by (auto simp: one_line_def)

lemma one_line_concat: "(\<And>s. s \<in> set ss \<Longrightarrow> one_line s) \<Longrightarrow> one_line (concat ss)"
  by (auto simp: one_line_def)

lemma one_line_nat_str [simp]: "one_line (nat_str n)"
  using nat_str_digits [of "CHR 0x0A" n] by (auto simp: one_line_def is_digit_def)

lemma one_line_u64_str [simp]: "one_line (u64_str w)"
  by (simp add: u64_str_def)

lemma one_line_strip_zeros [simp]: "one_line s \<Longrightarrow> one_line (strip_zeros s)"
  by (auto simp: one_line_def strip_zeros_def dest: set_dropWhileD)

lemma one_line_general6 [simp]: "one_line (general6 x)"
  by (simp add: general6_def with_fraction_def Let_def split: prod.split)

lemma one_line_sanitize [simp]: "one_line (sanitize_label_value s)"
  unfolding sanitize_label_value_def by (rule one_line_concat) (auto simp: sanitize_char_def)

lemma one_line_labels_key [simp]: "one_line (sorted_labels_key labels)"
proof -
  have "one_line (concat (map (\<lambda>(k, v). sanitize_label_value k @ ''='' @ sanitize_label_value v @ '','') labels))"
    by (rule one_line_concat) auto
  then show ?thesis by (simp add: sorted_labels_key_def Let_def)
qed

lemma one_line_series_name [simp]: "one_line (series_name name key) \<longleftrightarrow> one_line name \<and> one_line key"
  by (simp add: series_name_def)


section \<open>Tables of series\<close>

lemma omap_insert_entries: "set (omap_insert k v m) \<subseteq> insert (k, v) (set m)"
  by (induction k v m rule: omap_insert.induct) auto

lemma omap_insert_nonempty [simp]: "omap_insert k v m \<noteq> []"
  by (cases m) (auto split: if_splits)

lemma series_okD:
  assumes "series_ok m" "(name, inner) \<in> set m"
  shows "one_line name" "omap_inv inner" "(key, v) \<in> set inner \<Longrightarrow> one_line key"
  using assms unfolding series_ok_def by fastforce+

lemma omap_at_entry: "omap_at d m k = d \<or> (k, omap_at d m k) \<in> set m"
  by (auto simp: omap_at_def split: option.split dest: map_of_SomeD)

lemma series_ok_update:
  assumes "series_ok m" "one_line name" "one_line key"
  shows "series_ok (update_series d name key f m)"
proof -
  let ?inner = "omap_at [] m name"
  have inner: "omap_inv ?inner \<and> (\<forall>s\<in>set ?inner. one_line (fst s))"
    using omap_at_entry [of "[]" m name] series_okD [OF assms(1), of name ?inner] by auto
  let ?new = "omap_insert key (f (omap_at d ?inner key)) ?inner"
  have "omap_inv ?new \<and> (\<forall>s\<in>set ?new. one_line (fst s))"
    using inner assms(3) omap_insert_entries [of key "f (omap_at d ?inner key)" ?inner] by auto
  then show ?thesis
    using assms(1,2) omap_insert_entries [of name ?new m]
    by (auto simp: series_ok_def update_series_def Let_def dest!: subsetD)
qed

lemma collector_ok_new: "collector_ok new_collector"
  by (simp add: collector_ok_def series_ok_def new_collector_def)

lemma collector_ok_step: "collector_ok c \<Longrightarrow> one_line (call_name call) \<Longrightarrow> collector_ok (metric_step call c)"
  by (cases call) (simp_all add: collector_ok_def counter_def gauge_def histogram_def series_ok_update)

lemma collector_ok_run: "collector_ok c \<Longrightarrow> \<forall>call\<in>set calls. one_line (call_name call) \<Longrightarrow> collector_ok (metric_run calls c)"
  unfolding metric_run_def by (induction calls arbitrary: c) (auto simp: collector_ok_step)


section \<open>The exposition\<close>

lemma scalar_family_lines: "scalar_family type fam = concat (map (\<lambda>l. l @ [CHR 0x0A]) (scalar_lines type fam))"
  by (cases fam) (simp add: scalar_family_def scalar_lines_def comp_def case_prod_unfold)

lemma histogram_family_lines: "histogram_family fam = concat (map (\<lambda>l. l @ [CHR 0x0A]) (histogram_lines fam))"
proof (cases fam)
  case (Pair name labels_map)
  show ?thesis unfolding Pair histogram_family_def histogram_lines_def
    by (induction labels_map) auto
qed

lemma export_lines: "export_prometheus c = concat (map (\<lambda>l. l @ [CHR 0x0A]) (exposition c))"
proof -
  have nest: "concat (map (\<lambda>x. concat (map g (h x))) xs) = concat (map g (concat (map h xs)))" for g :: "string \<Rightarrow> string" and h :: "'a \<Rightarrow> string list" and xs
    by (induction xs) auto
  show ?thesis
    by (simp add: export_prometheus_def exposition_def scalar_family_lines [abs_def] histogram_family_lines [abs_def] nest)
qed

lemma exposition_one_line:
  assumes "collector_ok c" "l \<in> set (exposition c)"
  shows "one_line l"
  using assms by (auto simp: exposition_def collector_ok_def scalar_lines_def histogram_lines_def dest: series_okD)

text \<open>
  C37. Whatever labels and values the calls carry, the text the collector serves has exactly the lines of its series, in
  order: a type line for each name and a line for each label set. A label with a line break in it cannot add a line.
\<close>

theorem exposition_lines:
  assumes "\<forall>call\<in>set calls. CHR 0x0A \<notin> set (call_name call)"
  shows "getline_tokens (CHR 0x0A) (export_prometheus (metric_run calls new_collector)) = exposition (metric_run calls new_collector)"
proof -
  have "collector_ok (metric_run calls new_collector)"
    using assms by (intro collector_ok_run collector_ok_new) (simp add: one_line_def)
  then show ?thesis unfolding export_lines by (intro getline_lines) (auto simp: one_line_def dest: exposition_one_line)
qed


section \<open>The values of the series\<close>

lemma ordered_inner: "ordered_series m \<Longrightarrow> omap_inv (omap_at [] m name)"
  using omap_at_entry [of "[]" m name] by (auto simp: ordered_series_def)

lemma ordered_update: "ordered_series m \<Longrightarrow> ordered_series (update_series d name key f m)"
  using ordered_inner [of m name] omap_insert_entries [of name "omap_insert key (f (omap_at d (omap_at [] m name) key)) (omap_at [] m name)" m]
  by (auto simp: ordered_series_def update_series_def Let_def dest!: subsetD)

lemma series_update:
  assumes "ordered_series m"
  shows "series d (update_series d name key f m) n k =
    (if n = name \<and> k = key then f (series d m n k) else series d m n k)"
  using assms ordered_inner [OF assms, of name]
  by (simp add: series_def update_series_def Let_def omap_at_def ordered_series_def)

lemma ordered_step:
  "ordered_series (m_counters c) \<Longrightarrow> ordered_series (m_counters (metric_step call c))"
  "ordered_series (m_histograms c) \<Longrightarrow> ordered_series (m_histograms (metric_step call c))"
  by (cases call; simp add: counter_def gauge_def histogram_def ordered_update)+

lemma counter_series:
  assumes "ordered_series (m_counters c)"
  shows "series 0 (m_counters (metric_run calls c)) name key = fold (\<lambda>v s. fadd s v) (increments name key calls) (series 0 (m_counters c) name key)"
  using assms unfolding metric_run_def
proof (induction calls arbitrary: c)
  case (Cons call calls)
  from Cons.IH [OF ordered_step(1) [OF Cons.prems], of call] Cons.prems show ?case
    by (cases call) (auto simp: counter_def gauge_def histogram_def series_update)
qed simp

lemma histogram_series:
  assumes "ordered_series (m_histograms c)"
  shows "series default_histogram (m_histograms (metric_run calls c)) name key
    = fold observe (observations name key calls) (series default_histogram (m_histograms c) name key)"
  using assms unfolding metric_run_def
proof (induction calls arbitrary: c)
  case (Cons call calls)
  from Cons.IH [OF ordered_step(2) [OF Cons.prems], of call] Cons.prems show ?case
    by (cases call) (auto simp: counter_def gauge_def histogram_def series_update)
qed simp

lemma observe_all:
  assumes "vs \<noteq> []" "length vs < 2 ^ 64"
  defines "h \<equiv> fold observe vs default_histogram"
  shows "hm_count h = of_nat (length vs) \<and> hm_sum h = fold (\<lambda>v s. fadd s v) vs 0 \<and> hm_min h = Min (set vs) \<and> hm_max h = Max (set vs)"
  using assms(1,2) unfolding h_def
proof (induction vs rule: rev_nonempty_induct)
  case (single v)
  then show ?case by (simp add: observe_def default_histogram_def Let_def)
next
  case (snoc v vs)
  have "(1 :: uint64) + of_nat (length vs) \<noteq> 1"
    using snoc.hyps snoc.prems by (simp add: word_of_nat_eq_0_iff nat_dvd_not_less)
  then show ?case using snoc by (simp add: observe_def Let_def add.commute min.commute max.commute)
qed

text \<open>
  A histogram counts exactly the observations made under its name and labels, whatever else is recorded in between, and
  keeps their smallest and largest value; its sum is their floating-point sum in order.
\<close>

theorem histogram_exact:
  assumes "observations name key calls \<noteq> []" "length (observations name key calls) < 2 ^ 64"
  shows "let vs = observations name key calls; h = series default_histogram (m_histograms (metric_run calls new_collector)) name key
    in hm_count h = of_nat (length vs) \<and> hm_min h = Min (set vs) \<and> hm_max h = Max (set vs)
       \<and> hm_sum h = fold (\<lambda>v s. fadd s v) vs 0"
proof -
  have "series default_histogram (m_histograms (metric_run calls new_collector)) name key = fold observe (observations name key calls) default_histogram"
    by (subst histogram_series) (simp_all add: new_collector_def ordered_series_def series_def omap_at_def)
  then show ?thesis using observe_all [OF assms] by (simp add: Let_def)
qed


section \<open>Counters\<close>

lemma exponent_of_nat:
  assumes "0 < n" "n < 2 ^ 53"
  shows "0 \<le> exponent_of (of_nat n)" "exponent_of (of_nat n) \<le> 52"
proof -
  have q: "quotient_of (of_nat n) = (int n, 1)" using quotient_of_int [of "int n"] by (simp add: Rat.of_int_def)
  have one: "bitlen (1::int) = 1" by (simp add: bitlen_def floorlog_def)
  have "bitlen (int n) \<le> 53" using assms(2) bitlen_le_iff_power [of "int n" 53] by simp
  then show "exponent_of (of_nat n) \<le> 52" by (simp add: exponent_of_def q one Let_def bitlen_nonneg)
  show "0 \<le> exponent_of (of_nat n)"
  proof (cases "bitlen (int n) = 1")
    case True
    then show ?thesis using assms(1) by (simp add: exponent_of_def q one pow2_def)
  next
    case False
    moreover have "bitlen (int n) \<ge> 1" using assms(1) by (simp add: bitlen_def floorlog_def)
    ultimately show ?thesis by (simp add: exponent_of_def q one Let_def bitlen_nonneg)
  qed
qed

lemma fl_nat:
  assumes "n < 2 ^ 53"
  shows "fl (of_nat n) = of_nat n"
proof (cases "n = 0")
  case False
  define e where "e = exponent_of (of_nat n)"
  have e: "0 \<le> e" "e \<le> 52" using exponent_of_nat [of n] False assms by (auto simp: e_def)
  have u: "pow2 (max (e - 52) (- 1074)) = 1 / 2 ^ nat (52 - e)"
    using e by (auto simp: pow2_def max_def)
  have "round_even (of_nat n / (1 / 2 ^ nat (52 - e))) = int (n * 2 ^ nat (52 - e))"
    using round_even_nat [of "n * 2 ^ nat (52 - e)"] by simp
  then show ?thesis using False by (simp add: fl_def e_def [symmetric] Let_def u del: div_by_1)
qed simp

lemma sum_of_ones: "n + m < 2 ^ 53 \<Longrightarrow> fold (\<lambda>v s. fadd s v) (replicate m 1) (of_nat n) = of_nat (n + m)"
proof (induction m arbitrary: n)
  case (Suc m)
  have "fl (of_nat n + 1) = of_nat (Suc n)" using fl_nat [of "Suc n"] Suc.prems by (simp add: add.commute)
  with Suc.IH [of "Suc n"] Suc.prems show ?case by simp
qed simp

lemma counter_value:
  assumes "increments name key calls = replicate n 1" "n < 2 ^ 53"
  shows "series 0 (m_counters (metric_run calls new_collector)) name key = of_nat n"
  using sum_of_ones [of 0 n] assms
  by (subst counter_series) (simp_all add: new_collector_def ordered_series_def series_def omap_at_def)

lemma increments_append: "increments name key (calls @ calls') = increments name key calls @ increments name key calls'"
  by (induction name key calls rule: increments.induct) auto

text \<open>
  A counter that was incremented n times under its name and labels, n below a million, has the value n and is exported
  with all its digits, whatever other calls were made.
\<close>

theorem counter_exported:
  assumes "increments name key calls = replicate n 1" "n < 1000000"
  shows "series 0 (m_counters (metric_run calls new_collector)) name key = of_nat n
    \<and> general6 (series 0 (m_counters (metric_run calls new_collector)) name key) = nat_str n"
  using counter_value [OF assms(1)] general6_nat [OF assms(2)] assms(2) by simp

text \<open>The millionth increment is the last one a reader of the exported text notices.\<close>

lemma counter_export_stalls:
  assumes "increments name (sorted_labels_key labels) calls = replicate 1000000 1"
  shows "general6 (series 0 (m_counters (metric_run (calls @ [Counter name 1 labels]) new_collector)) name (sorted_labels_key labels))
    = general6 (series 0 (m_counters (metric_run calls new_collector)) name (sorted_labels_key labels))"
proof -
  have snoc: "replicate n 1 @ [1 :: rat] = replicate (Suc n) 1" for n by (simp add: replicate_append_same)
  have "increments name (sorted_labels_key labels) (calls @ [Counter name 1 labels]) = replicate (Suc 1000000) 1"
    unfolding snoc [symmetric] by (simp add: increments_append assms)
  then have "series 0 (m_counters (metric_run (calls @ [Counter name 1 labels]) new_collector)) name (sorted_labels_key labels) = of_nat (Suc 1000000)"
    by (rule counter_value) simp
  then show ?thesis using counter_value [OF assms] by (simp add: general6_million)
qed

text \<open>The separators of the labels are not escaped: different label sets can be one series.\<close>

lemma labels_collide:
  "sorted_labels_key [(''a'', ''1''), (''b'', ''2'')] = sorted_labels_key [(''a'', ''1,b=2'')]"
  by (simp add: sorted_labels_key_def sanitize_label_value_def sanitize_char_def)

lemma sanitize_metric_name_ok:
  "length (sanitize_metric_name n) = length n"
  "sanitize_metric_name (sanitize_metric_name n) = sanitize_metric_name n"
  "c \<in> set (sanitize_metric_name n) \<Longrightarrow> is_alnum c \<or> c = CHR ''_'' \<or> c = CHR '':''"
  by (auto simp: sanitize_metric_name_def)


section \<open>The endpoint\<close>

interpretation prom_limit: rate_limiter "\<lambda>w. 0 \<le> requests_this_second w" "\<lambda>t. admit_request (max 1 t)"
  "\<lambda>w. max 0 (requests_this_second w)" "\<lambda>_. kMaxRequestsPerSecond"
  by unfold_locales (auto simp: admit_request_def Let_def kMaxRequestsPerSecond_def)

text \<open>However many clients connect at one instant, at most a hundred of them are given the metrics.\<close>

lemma prom_burst_bounded: "fst (prom_limit.burst k t new_window) \<le> 100"
  using prom_limit.burst_bounded [of new_window k t] by (simp add: new_window_def kMaxRequestsPerSecond_def)


lemma open_sockets_append: "open_sockets fds (os @ os') = Option.bind (open_sockets fds os) (\<lambda>fds. open_sockets fds os')"
  by (induction fds os rule: open_sockets.induct) auto

lemma prom_step_sockets:
  assumes "open_sockets [] (pe_outs e) = Some (if pe_running e then [pe_fd e] else [])" "pe_running e \<longrightarrow> 0 \<le> pe_fd e"
  shows "open_sockets [] (pe_outs (prom_step call e)) = Some (if pe_running (prom_step call e) then [pe_fd (prom_step call e)] else [])
    \<and> (pe_running (prom_step call e) \<longrightarrow> 0 \<le> pe_fd (prom_step call e))"
proof (cases call)
  case (StartCall io)
  then show ?thesis using assms
    by (auto simp: prom_start_def close_listener_def Let_def open_sockets_append split: option.split)
next
  case StopCall
  then show ?thesis using assms by (auto simp: prom_stop_def close_listener_def Let_def open_sockets_append)
qed

text \<open>
  Whatever calls of start and stop are made and whichever of their system calls fail, the exporter never closes a
  descriptor it does not own and holds exactly the listening socket while it runs and no socket otherwise.
\<close>

theorem prom_sockets_owned:
  "let e = fold prom_step calls (new_prom_exporter address)
   in open_sockets [] (pe_outs e) = Some (if pe_running e then [pe_fd e] else [])"
proof -
  have "open_sockets [] (pe_outs e) = Some (if pe_running e then [pe_fd e] else []) \<and> (pe_running e \<longrightarrow> 0 \<le> pe_fd e)
    \<Longrightarrow> open_sockets [] (pe_outs (fold prom_step calls e)) = Some (if pe_running (fold prom_step calls e) then [pe_fd (fold prom_step calls e)] else [])" for e
    by (induction calls arbitrary: e) (use prom_step_sockets in auto)
  then show ?thesis by (simp add: Let_def new_prom_exporter_def)
qed

lemma demo_ports: "stoi ''9090'' = Some (9090, [])" "stoi ''65558'' = Some (65558, [])"
proof -
  have "int_str 9090 = ''9090''" "int_str 65558 = ''65558''"
    by (simp_all add: int_str_def nat_str.simps digit_char_def char_of_eq_iff)
  then show "stoi ''9090'' = Some (9090, [])" "stoi ''65558'' = Some (65558, [])"
    using stoi_int_str [of 9090] stoi_int_str [of 65558] by simp_all
qed

lemma host_name_binds_all:
  "map_option (\<lambda>(ok, e). (ok, pe_outs e)) (prom_start ready_io (new_prom_exporter ''localhost:9090''))
     = Some (True, [SocketOpened 7, BoundTo [0, 0, 0, 0] 9090])"
  "prom_start ready_io (new_prom_exporter ''127.0.0.1:http'') = None"
  "map_option (\<lambda>(ok, e). (ok, pe_outs e)) (prom_start ready_io (new_prom_exporter ''127.0.0.1:65558''))
     = Some (True, [SocketOpened 7, BoundTo [127, 0, 0, 1] 22])"
proof -
  have "inet_pton4 (c_string ''localhost'') = None" "inet_pton4 (c_string ''127.0.0.1'') = Some [127, 0, 0, 1]" "stoi ''http'' = None"
    by code_simp+
  then show
    "map_option (\<lambda>(ok, e). (ok, pe_outs e)) (prom_start ready_io (new_prom_exporter ''localhost:9090''))
       = Some (True, [SocketOpened 7, BoundTo [0, 0, 0, 0] 9090])"
    "prom_start ready_io (new_prom_exporter ''127.0.0.1:http'') = None"
    "map_option (\<lambda>(ok, e). (ok, pe_outs e)) (prom_start ready_io (new_prom_exporter ''127.0.0.1:65558''))
       = Some (True, [SocketOpened 7, BoundTo [127, 0, 0, 1] 22])"
    by (simp_all add: prom_start_def new_prom_exporter_def parse_listen_def find_char_def demo_ports ready_io_def Let_def)
qed

lemma metric_demo_texts: "general6 2 = ''2''" "general6 3 = ''3''"
  using general6_nat [of 2] general6_nat [of 3] by (simp_all add: nat_str.simps digit_char_def char_of_eq_iff)

lemma metric_demo_sums: "fl 1 = 1" "fl 2 = 2" "fl 3 = 3"
  using fl_nat [of 1] fl_nat [of 2] fl_nat [of 3] by simp_all

lemma metric_demo_key: "sorted_labels_key [(''k'', CHR ''x'' # CHR 0x0A # ''y'')] = ''k=x y''" "sorted_labels_key [(''k'', ''x y'')] = ''k=x y''" "sorted_labels_key [] = []"
  by (simp_all add: sorted_labels_key_def sanitize_label_value_def sanitize_char_def)

theorem exposition_lines_witness:
  "(CHR 0x0A \<notin> set ''c'' \<and> CHR 0x0A \<notin> set ''h'') \<and>
   getline_tokens (CHR 0x0A) (export_prometheus (metric_run metric_demo new_collector))
     = [''# TYPE c counter'', ''c{k=x y} 2'', ''# TYPE h histogram'', ''h_count 2'', ''h_sum 3'']"
proof -
  have "m_counters (metric_run metric_demo new_collector) = [(''c'', [(''k=x y'', 2)])]"
    "m_gauges (metric_run metric_demo new_collector) = []"
    "m_histograms (metric_run metric_demo new_collector) = [(''h'', [([], \<lparr>hm_count = 2, hm_sum = 3, hm_min = 1, hm_max = 2\<rparr>)])]"
    by (simp_all add: metric_run_def metric_demo_def counter_def histogram_def new_collector_def update_series_def omap_at_def
        metric_demo_key observe_def default_histogram_def metric_demo_sums Let_def)
  moreover have "u64_str 2 = ''2''" by (simp add: u64_str_def nat_str.simps digit_char_def char_of_eq_iff)
  ultimately have "exposition (metric_run metric_demo new_collector)
      = [''# TYPE c counter'', ''c{k=x y} 2'', ''# TYPE h histogram'', ''h_count 2'', ''h_sum 3'']"
    by (simp add: exposition_def scalar_lines_def histogram_lines_def series_name_def metric_demo_texts)
  then show ?thesis using exposition_lines [of metric_demo] by (simp add: metric_demo_def)
qed

theorem histogram_exact_witness:
  "observations ''h'' [] metric_demo = [2, 1]
   \<and> hm_count (series default_histogram (m_histograms (metric_run metric_demo new_collector)) ''h'' []) = 2
   \<and> hm_min (series default_histogram (m_histograms (metric_run metric_demo new_collector)) ''h'' []) = 1"
proof -
  have "observations ''h'' [] metric_demo = [2, 1]" by (simp add: metric_demo_def metric_demo_key)
  then show ?thesis using histogram_exact [of "''h''" "[]" metric_demo] by (simp add: Let_def)
qed

theorem counter_exported_witness:
  "increments ''c'' ''k=x y'' metric_demo = replicate 2 1
   \<and> general6 (series 0 (m_counters (metric_run metric_demo new_collector)) ''c'' ''k=x y'') = nat_str 2"
proof -
  have "increments ''c'' ''k=x y'' metric_demo = replicate 2 1" by (simp add: metric_demo_def metric_demo_key numeral_eq_Suc)
  moreover from this have "general6 (series 0 (m_counters (metric_run metric_demo new_collector)) ''c'' ''k=x y'') = nat_str 2"
    by (rule counter_exported [THEN conjunct2]) simp
  ultimately show ?thesis ..
qed

end
