(* ===== verification/Observability.thy ===== *)
theory Observability
  imports Metrics "HOL-Library.Multiset"
begin

text \<open>
  The rest of \<open>telemetry/Observability.cpp\<close>: the tracer, the audit log with its hash chain, the
  alerts, the stack that owns them with the metrics, and the service level tracker. The one-shot
  \<open>SHA256\<close> of the crypto library is the argument \<open>sha\<close>; identifiers drawn from the random
  number generator and readings of the clocks are arguments too. A span is a heap object with an
  address, because other spans point to it.
\<close>


section \<open>Identifiers and digests\<close>

definition hex16 :: "uint64 \<Rightarrow> string" where
  "hex16 w = map (\<lambda>i. hex_digit (unat (take_bit 4 (drop_bit (4 * i) w)))) (rev [0..<16])"

definition generate_uuid :: "uint64 \<Rightarrow> uint64 \<Rightarrow> string" where
  "generate_uuid d1 d2 = hex16 d1 @ hex16 d2"

definition obs_sha256_hex :: "(string \<Rightarrow> string) \<Rightarrow> string \<Rightarrow> string" where
  "obs_sha256_hex sha data = hex_string (sha data)"


section \<open>The tracer\<close>

record span =
  sp_addr :: nat
  sp_trace_id :: string
  sp_span_id :: string
  sp_parent_span_id :: string
  sp_operation_name :: string
  sp_start_time :: time
  sp_end_time :: time
  sp_tags :: "(string, string) omap"
  sp_logs :: "(string, string) omap"
  sp_parent :: "nat option"

record tracer =
  tr_service_name :: string
  tr_active :: "span list"
  tr_completed :: "span list"
  tr_exporter :: bool
  tr_exported :: "span list list"
  tr_next :: nat

definition new_tracer :: "string \<Rightarrow> tracer" where
  "new_tracer service_name =
     \<lparr>tr_service_name = service_name, tr_active = [], tr_completed = [], tr_exporter = False, tr_exported = [], tr_next = 0\<rparr>"

definition set_exporter :: "tracer \<Rightarrow> tracer" where
  "set_exporter t = t\<lparr>tr_exporter := True\<rparr>"

definition get_span :: "nat \<Rightarrow> tracer \<Rightarrow> span option" where
  "get_span idx t =
     (if idx < length (tr_active t) then Some (tr_active t ! idx)
      else if idx < length (tr_active t) + length (tr_completed t) then Some (tr_completed t ! (idx - length (tr_active t)))
      else None)"

definition push_span :: "span \<Rightarrow> tracer \<Rightarrow> nat \<times> tracer" where
  "push_span s t = (length (tr_active t), t\<lparr>tr_active := tr_active t @ [s], tr_next := tr_next t + 1\<rparr>)"

definition start_span :: "time \<Rightarrow> string \<Rightarrow> string \<Rightarrow> string \<Rightarrow> tracer \<Rightarrow> nat \<times> tracer" where
  "start_span now uuid1 uuid2 operation_name t =
     push_span \<lparr>sp_addr = tr_next t, sp_trace_id = uuid1, sp_span_id = uuid2, sp_parent_span_id = [],
       sp_operation_name = operation_name, sp_start_time = now, sp_end_time = 0, sp_tags = [], sp_logs = [], sp_parent = None\<rparr> t"

definition start_child :: "time \<Rightarrow> string \<Rightarrow> string \<Rightarrow> string \<Rightarrow> nat \<Rightarrow> tracer \<Rightarrow> nat \<times> tracer" where
  "start_child now uuid1 uuid2 operation_name parent_idx t =
     (let parent = get_span parent_idx t
      in push_span
           \<lparr>sp_addr = tr_next t,
            sp_trace_id = (case parent of Some p \<Rightarrow> sp_trace_id p | None \<Rightarrow> uuid1),
            sp_span_id = uuid2,
            sp_parent_span_id = (case parent of Some p \<Rightarrow> sp_span_id p | None \<Rightarrow> []),
            sp_operation_name = operation_name, sp_start_time = now, sp_end_time = 0, sp_tags = [], sp_logs = [],
            sp_parent = map_option sp_addr parent\<rparr> t)"

text \<open>The last element takes the place of the removed one.\<close>

definition swap_remove :: "nat \<Rightarrow> 'a list \<Rightarrow> 'a list" where
  "swap_remove i xs = (let last_idx = length xs - 1 in butlast (if i \<noteq> last_idx then xs[i := xs ! last_idx] else xs))"

definition end_span :: "time \<Rightarrow> nat \<Rightarrow> tracer \<Rightarrow> tracer" where
  "end_span now span_idx t =
     (if span_idx \<ge> length (tr_active t) then t
      else
        let active = tr_active t;
            completed = tr_completed t @ [(active ! span_idx)\<lparr>sp_end_time := now\<rparr>];
            active = swap_remove span_idx active
        in if tr_exporter t \<and> length completed \<ge> 10
           then t\<lparr>tr_active := active, tr_completed := [], tr_exported := tr_exported t @ [completed]\<rparr>
           else t\<lparr>tr_active := active, tr_completed := completed\<rparr>)"

definition set_tag :: "nat \<Rightarrow> string \<Rightarrow> string \<Rightarrow> tracer \<Rightarrow> tracer" where
  "set_tag span_idx key value t =
     (if span_idx < length (tr_active t)
      then let s = tr_active t ! span_idx in t\<lparr>tr_active := (tr_active t)[span_idx := s\<lparr>sp_tags := omap_insert key value (sp_tags s)\<rparr>]\<rparr>
      else t)"

definition add_log :: "nat \<Rightarrow> string \<Rightarrow> string \<Rightarrow> tracer \<Rightarrow> tracer" where
  "add_log span_idx key value t =
     (if span_idx < length (tr_active t)
      then let s = tr_active t ! span_idx in t\<lparr>tr_active := (tr_active t)[span_idx := s\<lparr>sp_logs := omap_insert key value (sp_logs s)\<rparr>]\<rparr>
      else t)"


section \<open>The audit log\<close>

record audit_entry =
  ae_timestamp :: time
  ae_event_id :: string
  ae_event_type :: string
  ae_actor :: string
  ae_action :: string
  ae_target :: string
  ae_details :: "(string, string) omap"
  ae_previous_hash :: string
  ae_entry_hash :: string

record detailed_log =
  dl_audit_path :: string
  dl_entries :: "audit_entry list"
  dl_tamper_protection :: bool
  dl_last_hash :: string

definition new_detailed_log :: "string \<Rightarrow> detailed_log" where
  "new_detailed_log audit_path = \<lparr>dl_audit_path = audit_path, dl_entries = [], dl_tamper_protection = False, dl_last_hash = []\<rparr>"

definition set_tamper_protection :: "bool \<Rightarrow> detailed_log \<Rightarrow> detailed_log" where
  "set_tamper_protection enable d = d\<lparr>dl_tamper_protection := enable\<rparr>"

definition hashed_text :: "audit_entry \<Rightarrow> string" where
  "hashed_text e = ae_previous_hash e @ ae_event_id e @ ae_event_type e @ ae_actor e @ ae_action e @ ae_target e"

definition compute_hash :: "(string \<Rightarrow> string) \<Rightarrow> audit_entry \<Rightarrow> detailed_log \<Rightarrow> audit_entry \<times> detailed_log" where
  "compute_hash sha e d =
     (let h = obs_sha256_hex sha (hashed_text e) in (e\<lparr>ae_entry_hash := h\<rparr>, d\<lparr>dl_last_hash := h\<rparr>))"

definition log_event ::
  "(string \<Rightarrow> string) \<Rightarrow> time \<Rightarrow> string \<Rightarrow> string \<Rightarrow> string \<Rightarrow> string \<Rightarrow> string \<Rightarrow> (string, string) omap \<Rightarrow> detailed_log \<Rightarrow> detailed_log" where
  "log_event sha now uuid event_type actor action target details d =
     (let e = \<lparr>ae_timestamp = now, ae_event_id = uuid, ae_event_type = event_type, ae_actor = actor, ae_action = action,
               ae_target = target, ae_details = details, ae_previous_hash = dl_last_hash d, ae_entry_hash = []\<rparr>;
          (e, d) = (if dl_tamper_protection d then compute_hash sha e d else (e, d));
          es = dl_entries d @ [e]
      in d\<lparr>dl_entries := (if length es > 10000 then drop 5000 es else es)\<rparr>)"

definition bool_text :: "bool \<Rightarrow> string" where
  "bool_text b = (if b then ''true'' else ''false'')"

definition details_of :: "(string \<times> string) list \<Rightarrow> (string, string) omap" where
  "details_of kvs = fold (\<lambda>(k, v). omap_insert k v) kvs []"

definition log_consensus_event ::
  "(string \<Rightarrow> string) \<Rightarrow> time \<Rightarrow> string \<Rightarrow> string \<Rightarrow> string \<Rightarrow> string list \<Rightarrow> bool \<Rightarrow> detailed_log \<Rightarrow> detailed_log" where
  "log_consensus_event sha now uuid round_id phase voters success =
     log_event sha now uuid ''consensus'' ''system'' ''pbft_vote'' round_id
       (details_of [(''round_id'', round_id), (''phase'', phase), (''voter_count'', nat_str (length voters)), (''success'', bool_text success)])"

definition log_enforcement_event ::
  "(string \<Rightarrow> string) \<Rightarrow> time \<Rightarrow> string \<Rightarrow> string \<Rightarrow> string \<Rightarrow> bool \<Rightarrow> string \<Rightarrow> detailed_log \<Rightarrow> detailed_log" where
  "log_enforcement_event sha now uuid target action success reason =
     log_event sha now uuid ''enforcement'' ''enforcer'' action target
       (details_of ([(''action'', action), (''success'', bool_text success)] @ (if reason \<noteq> [] then [(''reason'', reason)] else [])))"

definition log_key_event ::
  "(string \<Rightarrow> string) \<Rightarrow> time \<Rightarrow> string \<Rightarrow> string \<Rightarrow> string \<Rightarrow> bool \<Rightarrow> detailed_log \<Rightarrow> detailed_log" where
  "log_key_event sha now uuid key_id operation success =
     log_event sha now uuid ''key_management'' ''key_manager'' operation key_id
       (details_of [(''operation'', operation), (''success'', bool_text success)])"

text \<open>A bound of a query: milliseconds since the epoch, or no bound when the text has no number in front. Their conversion
  to nanoseconds is undefined when it overflows, which is the outer \<open>None\<close>.\<close>

definition parse_ts :: "string \<Rightarrow> time option option" where
  "parse_ts s =
     (if s = [] then Some None
      else case stoll s of
        None \<Rightarrow> Some None
      | Some (ms, _) \<Rightarrow>
          let ns = ms * 1000000 in if - (2 ^ 63) \<le> ns \<and> ns < 2 ^ 63 then Some (Some ns) else None)"

definition in_query :: "time option \<Rightarrow> time option \<Rightarrow> audit_entry \<Rightarrow> bool" where
  "in_query start stop e \<longleftrightarrow>
     \<not> (case start of Some s \<Rightarrow> ae_timestamp e < s | None \<Rightarrow> False) \<and> \<not> (case stop of Some u \<Rightarrow> ae_timestamp e > u | None \<Rightarrow> False)"

definition query_events :: "string \<Rightarrow> string \<Rightarrow> detailed_log \<Rightarrow> string list option" where
  "query_events start_time end_time d =
     (case (parse_ts start_time, parse_ts end_time) of
        (Some start, Some stop) \<Rightarrow>
          Some (map (\<lambda>e. ae_event_id e @ '': '' @ ae_event_type e @ '' by '' @ ae_actor e) (filter (in_query start stop) (dl_entries d)))
      | _ \<Rightarrow> None)"

definition audit_json :: "audit_entry \<Rightarrow> string" where
  "audit_json e =
     ''{\"ts\":'' @ int_str (dmillis (ae_timestamp e))
     @ '',\"id\":\"'' @ escape_json (ae_event_id e)
     @ ''\",\"type\":\"'' @ escape_json (ae_event_type e)
     @ ''\",\"actor\":\"'' @ escape_json (ae_actor e)
     @ ''\",\"action\":\"'' @ escape_json (ae_action e)
     @ ''\",\"target\":\"'' @ escape_json (ae_target e) @ ''\"}''"

definition audit_export_json :: "detailed_log \<Rightarrow> string" where
  "audit_export_json d = ''['' @ join_fields (CHR '','') (map audit_json (dl_entries d)) @ '']''"

definition syslog_line :: "audit_entry \<Rightarrow> string" where
  "syslog_line e =
     ''<14>1 '' @ int_str (dsecs (ae_timestamp e)) @ '' neuro_mesh '' @ ae_event_type e
     @ '' - - [actor=\"'' @ ae_actor e @ ''\" action=\"'' @ ae_action e @ ''\" target=\"'' @ ae_target e @ ''\"]'' @ [CHR 0x0A]"

definition export_syslog :: "detailed_log \<Rightarrow> string" where
  "export_syslog d = concat (map syslog_line (dl_entries d))"

fun verify_entries :: "(string \<Rightarrow> string) \<Rightarrow> audit_entry list \<Rightarrow> bool" where
  "verify_entries sha [] = True"
| "verify_entries sha (e # es) = (if obs_sha256_hex sha (hashed_text e) \<noteq> ae_entry_hash e then False else verify_entries sha es)"

definition verify_hash_chain :: "(string \<Rightarrow> string) \<Rightarrow> detailed_log \<Rightarrow> bool" where
  "verify_hash_chain sha d = verify_entries sha (dl_entries d)"


section \<open>Alerts\<close>

record alert_entry =
  al_alert_id :: string
  al_alert_name :: string
  al_severity :: string
  al_message :: string
  al_labels :: "(string, string) omap"
  al_fired_at :: time
  al_resolved_at :: "time option"

record alert_manager =
  am_alerts :: "alert_entry list"
  am_callback :: bool
  am_called :: "(string \<times> string \<times> string \<times> (string, string) omap) list"

definition new_alert_manager :: alert_manager where
  "new_alert_manager = \<lparr>am_alerts = [], am_callback = False, am_called = []\<rparr>"

definition alert :: "time \<Rightarrow> string \<Rightarrow> string \<Rightarrow> string \<Rightarrow> string \<Rightarrow> (string, string) omap \<Rightarrow> alert_manager \<Rightarrow> alert_manager" where
  "alert now uuid alert_name severity message labels a =
     (let a = a\<lparr>am_alerts := am_alerts a @ [\<lparr>al_alert_id = uuid, al_alert_name = alert_name, al_severity = severity,
                al_message = message, al_labels = labels, al_fired_at = now, al_resolved_at = None\<rparr>]\<rparr>
      in if am_callback a then a\<lparr>am_called := am_called a @ [(alert_name, severity, message, labels)]\<rparr> else a)"

definition alert_anomaly :: "time \<Rightarrow> string \<Rightarrow> string \<Rightarrow> rat \<Rightarrow> rat \<Rightarrow> alert_manager \<Rightarrow> alert_manager" where
  "alert_anomaly now uuid metric_name value threshold =
     alert now uuid ''anomaly_detected'' ''CRITICAL''
       (''Anomaly on '' @ metric_name @ '': '' @ fixed6 value @ '' > '' @ fixed6 threshold)
       (details_of [(''metric'', metric_name), (''value'', fixed6 value), (''threshold'', fixed6 threshold)])"

definition alert_consensus_failure :: "time \<Rightarrow> string \<Rightarrow> string \<Rightarrow> alert_manager \<Rightarrow> alert_manager" where
  "alert_consensus_failure now uuid reason = alert now uuid ''consensus_failure'' ''HIGH'' reason []"

definition alert_detection :: "time \<Rightarrow> string \<Rightarrow> string \<Rightarrow> string \<Rightarrow> alert_manager \<Rightarrow> alert_manager" where
  "alert_detection now uuid technique details =
     alert now uuid ''attack_detected'' ''CRITICAL'' (''Detected: '' @ technique @ '' - '' @ details) [(''technique'', technique)]"

definition alert_enforcement_failure :: "time \<Rightarrow> string \<Rightarrow> string \<Rightarrow> string \<Rightarrow> alert_manager \<Rightarrow> alert_manager" where
  "alert_enforcement_failure now uuid target reason =
     alert now uuid ''enforcement_failure'' ''HIGH'' (''Failed to enforce on '' @ target @ '': '' @ reason) [(''target'', target)]"

definition set_alert_callback :: "alert_manager \<Rightarrow> alert_manager" where
  "set_alert_callback a = a\<lparr>am_callback := True\<rparr>"

definition get_active_alerts :: "alert_manager \<Rightarrow> string list" where
  "get_active_alerts a =
     map (\<lambda>x. al_alert_name x @ '' ['' @ al_severity x @ '']: '' @ al_message x) (filter (\<lambda>x. al_resolved_at x = None) (am_alerts a))"

fun resolve_first :: "time \<Rightarrow> string \<Rightarrow> alert_entry list \<Rightarrow> alert_entry list" where
  "resolve_first now alert_id [] = []"
| "resolve_first now alert_id (x # xs) =
     (if al_alert_id x = alert_id \<and> al_resolved_at x = None then x\<lparr>al_resolved_at := Some now\<rparr> # xs
      else x # resolve_first now alert_id xs)"

definition clear_alert :: "time \<Rightarrow> string \<Rightarrow> alert_manager \<Rightarrow> alert_manager" where
  "clear_alert now alert_id a = a\<lparr>am_alerts := resolve_first now alert_id (am_alerts a)\<rparr>"


section \<open>The stack\<close>

text \<open>The collector the stack owns is at the address 1; the exporter exists between start and stop.\<close>

record obs_stack =
  os_node_id :: string
  os_metrics :: metrics_collector
  os_tracer :: tracer
  os_audit :: detailed_log
  os_alerts :: alert_manager
  os_exporter :: "prom_exporter option"

definition register_bft_metrics :: "metrics_collector \<Rightarrow> metrics_collector" where
  "register_bft_metrics c =
     (let c = gauge ''neuro_mesh_consensus_quorum_size'' 1 [] c;
          c = counter ''neuro_mesh_consensus_rounds_total'' 0 [] c
      in histogram ''neuro_mesh_consensus_latency_seconds'' 0 [] c)"

definition register_network_metrics :: "metrics_collector \<Rightarrow> metrics_collector" where
  "register_network_metrics c =
     (let c = gauge ''neuro_mesh_peers_connected'' 0 [] c;
          c = counter ''neuro_mesh_messages_received_total'' 0 [] c;
          c = counter ''neuro_mesh_messages_sent_total'' 0 [] c
      in histogram ''neuro_mesh_message_latency_seconds'' 0 [] c)"

definition register_enforcement_metrics :: "metrics_collector \<Rightarrow> metrics_collector" where
  "register_enforcement_metrics c =
     (let c = counter ''neuro_mesh_enforcement_actions_total'' 0 [] c;
          c = counter ''neuro_mesh_enforcement_failures_total'' 0 [] c
      in gauge ''neuro_mesh_active_isolations'' 0 [] c)"

definition register_security_metrics :: "metrics_collector \<Rightarrow> metrics_collector" where
  "register_security_metrics c =
     (let c = counter ''neuro_mesh_attacks_detected_total'' 0 [] c;
          c = counter ''neuro_mesh_attacks_blocked_total'' 0 [] c;
          c = gauge ''neuro_mesh_threat_level'' 0 [] c
      in counter ''neuro_mesh_anomalies_detected_total'' 0 [] c)"

definition register_default_metrics :: "metrics_collector \<Rightarrow> metrics_collector" where
  "register_default_metrics c =
     register_security_metrics (register_enforcement_metrics (register_network_metrics (register_bft_metrics c)))"

definition new_stack :: "string \<Rightarrow> obs_stack" where
  "new_stack node_id =
     \<lparr>os_node_id = node_id, os_metrics = register_default_metrics new_collector, os_tracer = new_tracer node_id,
      os_audit = new_detailed_log (''./audit_'' @ node_id @ ''.json''), os_alerts = new_alert_manager, os_exporter = None\<rparr>"

definition stack_start :: "socket_io \<Rightarrow> obs_stack \<Rightarrow> (bool \<times> obs_stack) option" where
  "stack_start io s =
     (case os_exporter s of
        Some _ \<Rightarrow> Some (True, s)
      | None \<Rightarrow> map_option (\<lambda>(ok, e). (ok, s\<lparr>os_exporter := Some e\<rparr>)) (prom_start io (register_collector 1 (new_prom_exporter '':9090''))))"

definition stack_stop :: "obs_stack \<Rightarrow> obs_stack \<times> prom_out list" where
  "stack_stop s =
     (case os_exporter s of None \<Rightarrow> (s, []) | Some e \<Rightarrow> (s\<lparr>os_exporter := None\<rparr>, pe_outs (prom_stop e)))"

definition get_all_metrics :: "obs_stack \<Rightarrow> string" where
  "get_all_metrics s = export_prometheus (os_metrics s)"

definition get_audit_log :: "obs_stack \<Rightarrow> string" where
  "get_audit_log s = audit_export_json (os_audit s)"


section \<open>Service levels\<close>

record slo_tracker =
  sl_measurements :: "(string, int list) omap"
  sl_slo_targets :: "(string, rat) omap"

definition new_slo_tracker :: slo_tracker where
  "new_slo_tracker =
     \<lparr>sl_measurements = [],
      sl_slo_targets = omap_insert ''availability'' (fl (999 / 10)) (omap_insert ''detection_latency_p99'' 1000 (omap_insert ''consensus_latency_p99'' 500 []))\<rparr>"

definition record_duration :: "string \<Rightarrow> int \<Rightarrow> slo_tracker \<Rightarrow> slo_tracker" where
  "record_duration name duration t =
     t\<lparr>sl_measurements := omap_insert name (omap_at [] (sl_measurements t) name @ [duration]) (sl_measurements t)\<rparr>"

definition record_bft_consensus_time :: "int \<Rightarrow> slo_tracker \<Rightarrow> slo_tracker" where
  "record_bft_consensus_time = record_duration ''bft_consensus''"

definition record_detection_latency :: "int \<Rightarrow> slo_tracker \<Rightarrow> slo_tracker" where
  "record_detection_latency = record_duration ''detection_latency''"

definition record_enforcement_time :: "int \<Rightarrow> slo_tracker \<Rightarrow> slo_tracker" where
  "record_enforcement_time = record_duration ''enforcement_time''"

definition record_message_latency :: "int \<Rightarrow> slo_tracker \<Rightarrow> slo_tracker" where
  "record_message_latency = record_duration ''message_latency''"

definition percentile_index :: "nat \<Rightarrow> rat \<Rightarrow> nat" where
  "percentile_index n percentile =
     (let idx = nat \<lfloor>fmul (fdiv percentile 100) (fl (of_nat (n - 1)))\<rfloor> in if idx \<ge> n then n - 1 else idx)"

definition calculate_percentile :: "int list \<Rightarrow> rat \<Rightarrow> rat" where
  "calculate_percentile samples percentile =
     (if samples = [] then 0 else fl (of_int (sort samples ! percentile_index (length samples) percentile)))"

definition latency_p99 :: "string \<Rightarrow> slo_tracker \<Rightarrow> rat" where
  "latency_p99 name t =
     (case omap_lookup (sl_measurements t) name of
        None \<Rightarrow> 0
      | Some samples \<Rightarrow> if samples = [] then 0 else calculate_percentile samples 99)"

definition get_consensus_latency_p99 :: "slo_tracker \<Rightarrow> rat" where
  "get_consensus_latency_p99 = latency_p99 ''bft_consensus''"

definition get_detection_latency_p99 :: "slo_tracker \<Rightarrow> rat" where
  "get_detection_latency_p99 = latency_p99 ''detection_latency''"

definition get_availability :: "slo_tracker \<Rightarrow> rat" where
  "get_availability t =
     (case omap_lookup (sl_measurements t) ''bft_consensus'' of
        None \<Rightarrow> 100
      | Some samples \<Rightarrow>
          if samples = [] then 100
          else case omap_lookup (sl_slo_targets t) ''consensus_latency_p99'' of
            None \<Rightarrow> 100
          | Some threshold_ms \<Rightarrow>
              let total = cast_int (int (length samples));
                  within_slo = int (length (filter (\<lambda>d. fl (of_int d) \<le> threshold_ms) samples))
              in fmul (fdiv (of_int within_slo) (of_int total)) 100)"

definition meets_slo :: "string \<Rightarrow> slo_tracker \<Rightarrow> bool" where
  "meets_slo slo_name t =
     (case omap_lookup (sl_slo_targets t) slo_name of
        None \<Rightarrow> True
      | Some target \<Rightarrow>
          if slo_name = ''consensus_latency_p99'' then get_consensus_latency_p99 t \<le> target
          else if slo_name = ''detection_latency_p99'' then get_detection_latency_p99 t \<le> target
          else if slo_name = ''availability'' then get_availability t \<ge> target
          else True)"

definition get_all_slo_status :: "slo_tracker \<Rightarrow> (string, bool) omap" where
  "get_all_slo_status t = fold (\<lambda>(name, _). omap_insert name (meets_slo name t)) (sl_slo_targets t) []"

definition set_slo_target :: "string \<Rightarrow> rat \<Rightarrow> slo_tracker \<Rightarrow> slo_tracker" where
  "set_slo_target slo_name target_percent t = t\<lparr>sl_slo_targets := omap_insert slo_name target_percent (sl_slo_targets t)\<rparr>"


section \<open>Vocabulary of the statements\<close>

datatype tracer_call =
    StartRoot time string string string
  | StartChild time string string string nat
  | EndSpan time nat
  | SetTag nat string string
  | AddLog nat string string

fun tracer_step :: "tracer_call \<Rightarrow> tracer \<Rightarrow> tracer" where
  "tracer_step (StartRoot now u1 u2 op) t = snd (start_span now u1 u2 op t)"
| "tracer_step (StartChild now u1 u2 op p) t = snd (start_child now u1 u2 op p t)"
| "tracer_step (EndSpan now i) t = end_span now i t"
| "tracer_step (SetTag i k v) t = set_tag i k v t"
| "tracer_step (AddLog i k v) t = add_log i k v t"

fun started :: "tracer_call \<Rightarrow> string list" where
  "started (StartRoot now u1 u2 op) = [u2]"
| "started (StartChild now u1 u2 op p) = [u2]"
| "started _ = []"

definition span_ids :: "tracer \<Rightarrow> string multiset" where
  "span_ids t = mset (map sp_span_id (tr_active t @ tr_completed t @ concat (tr_exported t)))"

text \<open>One event of the audit log, and the entries it would leave without the size limit.\<close>

record audit_event =
  ev_now :: time
  ev_uuid :: string
  ev_type :: string
  ev_actor :: string
  ev_action :: string
  ev_target :: string
  ev_details :: "(string, string) omap"

definition log_step :: "(string \<Rightarrow> string) \<Rightarrow> audit_event \<Rightarrow> detailed_log \<Rightarrow> detailed_log" where
  "log_step sha ev = log_event sha (ev_now ev) (ev_uuid ev) (ev_type ev) (ev_actor ev) (ev_action ev) (ev_target ev) (ev_details ev)"

definition hash_linked :: "audit_entry list \<Rightarrow> bool" where
  "hash_linked es = successively (\<lambda>a b. ae_previous_hash b = ae_entry_hash a) es"

definition records_event :: "audit_event \<Rightarrow> audit_entry \<Rightarrow> bool" where
  "records_event ev e \<longleftrightarrow> ae_timestamp e = ev_now ev \<and> ae_event_id e = ev_uuid ev \<and> ae_event_type e = ev_type ev
     \<and> ae_actor e = ev_actor ev \<and> ae_action e = ev_action ev \<and> ae_target e = ev_target ev \<and> ae_details e = ev_details ev"

text \<open>What the log keeps while it is protected.\<close>

definition chained :: "(string \<Rightarrow> string) \<Rightarrow> detailed_log \<Rightarrow> bool" where
  "chained sha d \<longleftrightarrow> dl_tamper_protection d \<and> hash_linked (dl_entries d) \<and> verify_entries sha (dl_entries d) \<and> length (dl_entries d) \<le> 10000
     \<and> (dl_entries d \<noteq> [] \<longrightarrow> dl_last_hash d = ae_entry_hash (last (dl_entries d)))"

definition demo_event :: "string \<Rightarrow> audit_event" where
  "demo_event uuid = \<lparr>ev_now = 1, ev_uuid = uuid, ev_type = ''enforcement'', ev_actor = ''enforcer'', ev_action = ''isolate'',
     ev_target = ''N'', ev_details = []\<rparr>"

definition demo_log :: detailed_log where
  "demo_log = fold (log_step (\<lambda>x. take 1 x)) [demo_event ''a'', demo_event ''b''] (set_tamper_protection True (new_detailed_log ''log''))"

definition default_calls :: "metric_call list" where
  "default_calls =
     [Gauge ''neuro_mesh_consensus_quorum_size'' 1 [], Counter ''neuro_mesh_consensus_rounds_total'' 0 [],
      Histogram ''neuro_mesh_consensus_latency_seconds'' 0 [], Gauge ''neuro_mesh_peers_connected'' 0 [],
      Counter ''neuro_mesh_messages_received_total'' 0 [], Counter ''neuro_mesh_messages_sent_total'' 0 [],
      Histogram ''neuro_mesh_message_latency_seconds'' 0 [], Counter ''neuro_mesh_enforcement_actions_total'' 0 [],
      Counter ''neuro_mesh_enforcement_failures_total'' 0 [], Gauge ''neuro_mesh_active_isolations'' 0 [],
      Counter ''neuro_mesh_attacks_detected_total'' 0 [], Counter ''neuro_mesh_attacks_blocked_total'' 0 [],
      Gauge ''neuro_mesh_threat_level'' 0 [], Counter ''neuro_mesh_anomalies_detected_total'' 0 []]"


section \<open>Identifiers\<close>

lemma length_hex16 [simp]: "length (hex16 w) = 16"
  by (simp add: hex16_def)

lemma hex16_inj: "hex16 v = hex16 w \<Longrightarrow> v = w"
proof (rule bit_word_eqI)
  fix n assume eq: "hex16 v = hex16 w" and n: "n < LENGTH(64)"
  define i where "i = n div 4"
  have small: "unat (take_bit 4 (u :: uint64)) < 16" for u
    by (simp add: take_bit_eq_mod unat_mod)
  have "i < 16" using n by (simp add: i_def)
  then have "hex_digit (unat (take_bit 4 (drop_bit (4 * i) v))) = hex_digit (unat (take_bit 4 (drop_bit (4 * i) w)))"
    using eq by (auto simp: hex16_def)
  then have "take_bit 4 (drop_bit (4 * i) v) = take_bit 4 (drop_bit (4 * i) w)"
    using hex_digit_inj [OF small small] by (simp add: word_unat_eq_iff)
  then have "bit (take_bit 4 (drop_bit (4 * i) v)) (n mod 4) = bit (take_bit 4 (drop_bit (4 * i) w)) (n mod 4)" by simp
  then show "bit v n = bit w n" by (simp add: bit_take_bit_iff bit_drop_bit_eq i_def)
qed

text \<open>Different draws give different identifiers, of 32 characters each.\<close>

lemma generate_uuid_inj: "generate_uuid a b = generate_uuid c d \<longleftrightarrow> a = c \<and> b = d"
  by (auto simp: generate_uuid_def dest: hex16_inj)

lemma length_generate_uuid: "length (generate_uuid a b) = 32"
  by (simp add: generate_uuid_def)


section \<open>Spans\<close>

lemma mset_swap_remove:
  assumes "i < length xs"
  shows "add_mset (xs ! i) (mset (swap_remove i xs)) = mset xs"
proof -
  obtain ys y where xs: "xs = ys @ [y]" using assms by (cases xs rule: rev_cases) auto
  show ?thesis
  proof (cases "i < length ys")
    case True
    then show ?thesis by (simp add: xs swap_remove_def nth_append list_update_append mset_update insert_DiffM)
  next
    case False
    then show ?thesis using assms by (simp add: xs swap_remove_def nth_append)
  qed
qed

lemma map_id_update:
  "i < length xs \<Longrightarrow> sp_span_id s = sp_span_id (xs ! i) \<Longrightarrow> image_mset sp_span_id (mset (xs[i := s])) = image_mset sp_span_id (mset xs)"
  by (metis list_update_id map_update mset_map)

lemma span_ids_step: "span_ids (tracer_step call t) = span_ids t + mset (started call)"
proof (cases call)
  case (EndSpan now i)
  show ?thesis
  proof (cases "i < length (tr_active t)")
    case True
    have "image_mset sp_span_id (mset (tr_active t))
        = add_mset (sp_span_id (tr_active t ! i)) (image_mset sp_span_id (mset (swap_remove i (tr_active t))))"
      by (simp flip: mset_swap_remove [OF True])
    then show ?thesis using True EndSpan by (simp add: span_ids_def end_span_def Let_def)
  qed (simp add: EndSpan end_span_def)
qed (simp_all add: span_ids_def start_span_def start_child_def push_span_def set_tag_def add_log_def Let_def map_id_update)

text \<open>
  No span is lost and none is reported twice: after any calls the active, the completed and the exported spans together are
  exactly the spans that were started.
\<close>

theorem spans_conserved:
  "span_ids (fold tracer_step calls (new_tracer service)) = mset (concat (map started calls))"
proof -
  have "span_ids (fold tracer_step calls t) = span_ids t + mset (concat (map started calls))" for t
    by (induction calls arbitrary: t) (simp_all add: span_ids_step)
  then show ?thesis by (simp add: span_ids_def new_tracer_def)
qed

text \<open>With an exporter installed fewer than ten completed spans are kept, and every batch has ten.\<close>

lemma batches_of_ten:
  assumes "tr_exporter t" "length (tr_completed t) < 10" "\<forall>b\<in>set (tr_exported t). length b = 10"
  shows "tr_exporter (tracer_step call t) \<and> length (tr_completed (tracer_step call t)) < 10 \<and> (\<forall>b\<in>set (tr_exported (tracer_step call t)). length b = 10)"
  using assms
  by (cases call) (auto simp: end_span_def start_span_def start_child_def push_span_def set_tag_def add_log_def Let_def)

text \<open>
  Ending a span that is not the last active one invalidates the index that was handed out for the last one: ending that
  span by its index does nothing.
\<close>

theorem ended_index_stale:
  assumes "i + 1 < length (tr_active t)"
  shows "end_span now' (length (tr_active t) - 1) (end_span now i t) = end_span now i t
    \<and> tr_active (end_span now i t) ! i = tr_active t ! (length (tr_active t) - 1)"
  using assms by (auto simp: end_span_def swap_remove_def Let_def nth_butlast)

theorem ended_index_stale_witness:
  "let t = fold tracer_step [StartRoot 1 ''t'' ''a'' ''op'', StartRoot 2 ''u'' ''b'' ''op''] (new_tracer ''svc'')
   in 0 + 1 < length (tr_active t) \<and> end_span 4 1 (end_span 3 0 t) = end_span 3 0 t"
  using ended_index_stale [of 0 "fold tracer_step [StartRoot 1 ''t'' ''a'' ''op'', StartRoot 2 ''u'' ''b'' ''op''] (new_tracer ''svc'')" 4 3]
  by (simp add: start_span_def push_span_def new_tracer_def)

lemma child_joins_trace:
  assumes "get_span p t = Some s"
  shows "sp_trace_id (last (tr_active (snd (start_child now u1 u2 op p t)))) = sp_trace_id s"
    "sp_parent_span_id (last (tr_active (snd (start_child now u1 u2 op p t)))) = sp_span_id s"
  using assms by (simp_all add: start_child_def push_span_def)


section \<open>The audit log\<close>

lemma verify_entries_iff: "verify_entries sha es \<longleftrightarrow> (\<forall>e\<in>set es. ae_entry_hash e = obs_sha256_hex sha (hashed_text e))"
  by (induction es) auto

lemma hash_linked_snoc:
  "hash_linked (es @ [e]) \<longleftrightarrow> hash_linked es \<and> (es = [] \<or> ae_previous_hash e = ae_entry_hash (last es))"
  by (auto simp: hash_linked_def successively_append_iff)

lemma hash_linked_drop: "hash_linked es \<Longrightarrow> hash_linked (drop n es)"
  unfolding hash_linked_def by (metis append_take_drop_id successively_append_iff)

lemma chained_log_step:
  fixes ev :: audit_event
  assumes "chained sha d"
  defines "d' \<equiv> log_step sha ev d"
  shows "chained sha d' \<and> dl_entries d' \<noteq> [] \<and> records_event ev (last (dl_entries d'))"
proof -
  let ?e0 = "\<lparr>ae_timestamp = ev_now ev, ae_event_id = ev_uuid ev, ae_event_type = ev_type ev, ae_actor = ev_actor ev, ae_action = ev_action ev,
      ae_target = ev_target ev, ae_details = ev_details ev, ae_previous_hash = dl_last_hash d, ae_entry_hash = []\<rparr>"
  define e where "e = ?e0\<lparr>ae_entry_hash := obs_sha256_hex sha (hashed_text ?e0)\<rparr>"
  have e: "ae_previous_hash e = dl_last_hash d" "ae_entry_hash e = obs_sha256_hex sha (hashed_text e)" "records_event ev e"
    by (simp_all add: e_def hashed_text_def records_event_def)
  have d': "d' = d\<lparr>dl_last_hash := ae_entry_hash e, dl_entries := (let es = dl_entries d @ [e] in if length es > 10000 then drop 5000 es else es)\<rparr>"
    using assms(1) by (simp add: chained_def d'_def log_step_def log_event_def compute_hash_def Let_def e_def)
  have "hash_linked (dl_entries d @ [e])" using assms(1) e(1) by (auto simp: hash_linked_snoc chained_def)
  then have "hash_linked (dl_entries d')" by (auto simp: d' Let_def dest: hash_linked_drop [of _ 5000])
  moreover have "verify_entries sha (dl_entries d')"
    using assms(1) e(2) by (auto simp: d' Let_def verify_entries_iff chained_def dest: in_set_dropD)
  ultimately show ?thesis using assms(1) e(3) by (auto simp: chained_def d' Let_def)
qed

text \<open>
  C34. With tamper protection on from the start, the log always verifies, every entry carries the hash of the entry before it,
  also across the deletion of old entries, and at most 10000 entries are kept; the last one records the last event.
\<close>

theorem audit_chain_linked:
  "let d = fold (log_step sha) events (set_tamper_protection True (new_detailed_log path))
   in hash_linked (dl_entries d) \<and> verify_hash_chain sha d \<and> length (dl_entries d) \<le> 10000
      \<and> (if events = [] then dl_entries d = [] else dl_entries d \<noteq> [] \<and> records_event (last events) (last (dl_entries d)))"
proof -
  let ?d0 = "set_tamper_protection True (new_detailed_log path)"
  have "chained sha (fold (log_step sha) events ?d0)
      \<and> (if events = [] then dl_entries (fold (log_step sha) events ?d0) = []
         else dl_entries (fold (log_step sha) events ?d0) \<noteq> [] \<and> records_event (last events) (last (dl_entries (fold (log_step sha) events ?d0))))"
  proof (induction events rule: rev_induct)
    case Nil
    show ?case by (simp add: chained_def set_tamper_protection_def new_detailed_log_def hash_linked_def)
  next
    case (snoc ev events)
    with chained_log_step [of sha "fold (log_step sha) events ?d0" ev] show ?case by simp
  qed
  then show ?thesis unfolding Let_def verify_hash_chain_def chained_def by blast
qed

text \<open>
  The verification compares no entry with the one before it and leaves the time and the details out: every selection
  of the entries of a log that verifies, in any order and with any times and details, verifies as well.
\<close>

theorem verify_misses_deletion:
  assumes "verify_entries sha es"
    and "\<forall>e'\<in>set es'. \<exists>e\<in>set es. \<exists>now details. e' = e\<lparr>ae_timestamp := now, ae_details := details\<rparr>"
  shows "verify_entries sha es'"
proof -
  have "ae_entry_hash e' = obs_sha256_hex sha (hashed_text e')" if entry: "e' \<in> set es'" for e'
  proof -
    obtain e now details where e: "e \<in> set es" "e' = e\<lparr>ae_timestamp := now, ae_details := details\<rparr>" using assms(2) entry by blast
    with assms(1) show ?thesis by (simp add: verify_entries_iff hashed_text_def)
  qed
  then show ?thesis by (simp add: verify_entries_iff)
qed

text \<open>The fields are hashed without a separator: text can move from one field to the next.\<close>

lemma hash_ignores_field_borders:
  "hashed_text (e\<lparr>ae_actor := a @ b, ae_action := c\<rparr>) = hashed_text (e\<lparr>ae_actor := a, ae_action := b @ c\<rparr>)"
  by (simp add: hashed_text_def)

text \<open>An entry written before the protection was switched on has no hash, and the log never verifies while it is kept.\<close>

lemma late_protection_fails:
  assumes "\<And>x. sha x \<noteq> []" "e \<in> set (dl_entries d)" "ae_entry_hash e = []"
  shows "\<not> verify_hash_chain sha d"
proof -
  have "hex_string (sha (hashed_text e)) \<noteq> []" using assms(1) [of "hashed_text e"] by (simp flip: length_greater_0_conv)
  then have "ae_entry_hash e \<noteq> obs_sha256_hex sha (hashed_text e)" using assms(3) by (simp add: obs_sha256_hex_def)
  then show ?thesis using assms(2) by (auto simp: verify_hash_chain_def verify_entries_iff)
qed

text \<open>
  The syslog form does not escape its fields: an event whose actor is chosen by the caller prints exactly what two
  events print, the second one with a type, an actor, an action and a target of the caller's choice.
\<close>

theorem syslog_forged:
  "syslog_line (e\<lparr>ae_actor := a1 @ ''\" action=\"'' @ x1 @ ''\" target=\"'' @ t1 @ ''\"]'' @ [CHR 0x0A]
       @ ''<14>1 '' @ int_str (dsecs (ae_timestamp e2)) @ '' neuro_mesh '' @ ae_event_type e2 @ '' - - [actor=\"'' @ ae_actor e2,
       ae_action := ae_action e2, ae_target := ae_target e2\<rparr>)
   = syslog_line (e\<lparr>ae_actor := a1, ae_action := x1, ae_target := t1\<rparr>) @ syslog_line e2"
  by (simp add: syslog_line_def)


theorem verify_misses_deletion_witness:
  "verify_entries (\<lambda>x. take 1 x) (dl_entries demo_log) \<and> length (dl_entries demo_log) = 2
   \<and> verify_entries (\<lambda>x. take 1 x) [(dl_entries demo_log ! 1)\<lparr>ae_timestamp := 5, ae_details := [(''k'', ''v'')]\<rparr>]"
proof -
  have whole: "verify_entries (\<lambda>x. take 1 x) (dl_entries demo_log)" and two: "length (dl_entries demo_log) = 2"
    by (simp_all add: demo_log_def demo_event_def log_step_def log_event_def compute_hash_def Let_def hashed_text_def
        set_tamper_protection_def new_detailed_log_def)
  then have "dl_entries demo_log ! 1 \<in> set (dl_entries demo_log)" by simp
  then have "\<forall>e'\<in>set [(dl_entries demo_log ! 1)\<lparr>ae_timestamp := 5, ae_details := [(''k'', ''v'')]\<rparr>].
      \<exists>e\<in>set (dl_entries demo_log). \<exists>now details. e' = e\<lparr>ae_timestamp := now, ae_details := details\<rparr>" by auto
  from verify_misses_deletion [OF whole this] whole two show ?thesis by blast
qed


section \<open>Alerts\<close>

lemma resolve_first_other:
  assumes "\<forall>x\<in>set xs. al_alert_id x = i \<longrightarrow> al_resolved_at x \<noteq> None"
  shows "resolve_first now i xs = xs"
  using assms by (induction xs) auto

text \<open>Clearing resolves one alert: with distinct identifiers exactly the one that was asked for stops being active.\<close>

lemma clear_alert_exact:
  assumes "distinct (map al_alert_id (am_alerts a))"
  shows "filter (\<lambda>x. al_resolved_at x = None) (am_alerts (clear_alert now i a))
    = filter (\<lambda>x. al_resolved_at x = None \<and> al_alert_id x \<noteq> i) (am_alerts a)"
proof -
  have "filter (\<lambda>x. al_resolved_at x = None) (resolve_first now i xs) = filter (\<lambda>x. al_resolved_at x = None \<and> al_alert_id x \<noteq> i) xs"
    if "distinct (map al_alert_id xs)" for xs
    using that
  proof (induction xs)
    case (Cons x xs)
    then have "filter (\<lambda>y. al_resolved_at y = None \<and> al_alert_id y \<noteq> i) xs = filter (\<lambda>y. al_resolved_at y = None) xs" if "al_alert_id x = i"
      using that by (intro filter_cong) (auto simp: image_iff)
    with Cons show ?case by auto
  qed simp
  from this [OF assms] show ?thesis by (simp add: clear_alert_def)
qed

lemma alert_active:
  "get_active_alerts (alert now uuid n s m l a) = get_active_alerts a @ [n @ '' ['' @ s @ '']: '' @ m]"
  by (simp add: get_active_alerts_def alert_def Let_def)


section \<open>The stack\<close>

text \<open>
  When the first start of the stack fails, every later one reports success although no exporter runs.
\<close>

theorem stack_start_forgets_failure:
  assumes "stack_start io s = Some (False, s')"
  shows "stack_start io' s' = Some (True, s') \<and> (\<exists>e. os_exporter s' = Some e \<and> \<not> pe_running e)"
  using assms
  by (auto simp: stack_start_def prom_start_def register_collector_def new_prom_exporter_def close_listener_def Let_def
      split: option.splits if_splits)

lemma demo_listen: "parse_listen '':9090'' = Some (''0.0.0.0'', 9090)"
  by (simp add: parse_listen_def find_char_def demo_ports)

theorem stack_start_forgets_failure_witness:
  "\<exists>s'. stack_start \<lparr>so_socket = 3, so_bind = False, so_listen = True\<rparr> (new_stack ''N'') = Some (False, s')
     \<and> stack_start ready_io s' = Some (True, s')"
proof -
  obtain s' where "stack_start \<lparr>so_socket = 3, so_bind = False, so_listen = True\<rparr> (new_stack ''N'') = Some (False, s')"
    by (simp add: stack_start_def new_stack_def prom_start_def register_collector_def new_prom_exporter_def demo_listen Let_def)
  with stack_start_forgets_failure [OF this, of ready_io] show ?thesis by blast
qed

lemma default_metrics_run: "os_metrics (new_stack n) = metric_run default_calls new_collector"
  by (simp add: new_stack_def metric_run_def default_calls_def register_default_metrics_def register_bft_metrics_def
      register_network_metrics_def register_enforcement_metrics_def register_security_metrics_def Let_def)

lemma observations_append: "observations name key (calls @ calls') = observations name key calls @ observations name key calls'"
  by (induction name key calls rule: observations.induct) auto

lemma observations_same: "observations name [] (map (\<lambda>v. Histogram name v []) vs) = vs"
  by (induction vs) (simp_all add: metric_demo_key)

text \<open>
  The stack registers its latency histograms by observing the value zero: after n observations the consensus latency has the
  count n + 1, and no observation can raise its minimum above zero.
\<close>

theorem registered_histogram_offset:
  assumes "length vs < 2 ^ 64 - 1"
  shows "let h = series default_histogram (m_histograms (metric_run (map (\<lambda>v. Histogram ''neuro_mesh_consensus_latency_seconds'' v []) vs) (os_metrics (new_stack n))))
      ''neuro_mesh_consensus_latency_seconds'' []
    in hm_count h = of_nat (length vs + 1) \<and> hm_min h \<le> 0"
proof -
  let ?name = "''neuro_mesh_consensus_latency_seconds''"
  let ?calls = "default_calls @ map (\<lambda>v. Histogram ?name v []) vs"
  have obs: "observations ?name [] ?calls = 0 # vs"
    unfolding observations_append observations_same by (simp add: default_calls_def metric_demo_key)
  have "metric_run (map (\<lambda>v. Histogram ?name v []) vs) (os_metrics (new_stack n)) = metric_run ?calls new_collector"
    by (simp add: default_metrics_run metric_run_def)
  moreover have "series default_histogram (m_histograms (metric_run ?calls new_collector)) ?name [] = fold observe (0 # vs) default_histogram"
    unfolding obs [symmetric] by (subst histogram_series) (simp_all add: new_collector_def ordered_series_def series_def omap_at_def)
  ultimately show ?thesis using observe_all [of "0 # vs"] assms by (simp add: Let_def del: fold.simps)
qed

theorem registered_histogram_offset_witness:
  "length [5 :: rat] < 2 ^ 64 - 1 \<and> hm_count (series default_histogram (m_histograms
     (metric_run (map (\<lambda>v. Histogram ''neuro_mesh_consensus_latency_seconds'' v []) [5]) (os_metrics (new_stack ''N'')))) ''neuro_mesh_consensus_latency_seconds'' []) = 2"
  using registered_histogram_offset [of "[5]" "''N''"] by (simp add: Let_def)


section \<open>Percentiles\<close>

lemma percentile_index_less: "0 < n \<Longrightarrow> percentile_index n p < n"
  by (simp add: percentile_index_def Let_def)

lemma sorted_above:
  assumes "sorted xs" "i < length xs"
  shows "length (filter (\<lambda>d. xs ! i < d) xs) \<le> length xs - 1 - i"
proof -
  have "filter (\<lambda>d. xs ! i < d) (take (Suc i) xs) = []"
    using assms by (auto simp: filter_empty_conv in_set_conv_nth sorted_nth_mono not_less)
  then have "filter (\<lambda>d. xs ! i < d) xs = filter (\<lambda>d. xs ! i < d) (drop (Suc i) xs)"
    by (metis append_Nil append_take_drop_id filter_append)
  then show ?thesis using length_filter_le [of "\<lambda>d. xs ! i < d" "drop (Suc i) xs"] by simp
qed

text \<open>
  A percentile of recorded durations is one of them, rounded to a double, and at most as many recorded durations lie above it
  as the index leaves room for.
\<close>

theorem percentile_rank:
  assumes "samples \<noteq> []"
  shows "\<exists>x\<in>set samples. calculate_percentile samples p = fl (of_int x)
    \<and> length (filter (\<lambda>d. x < d) samples) \<le> length samples - 1 - percentile_index (length samples) p"
proof -
  let ?i = "percentile_index (length samples) p"
  have i: "?i < length (sort samples)" using percentile_index_less assms by simp
  have "length (filter (\<lambda>d. sort samples ! ?i < d) samples) = length (filter (\<lambda>d. sort samples ! ?i < d) (sort samples))"
    by (metis mset_filter mset_sort size_mset)
  then have "length (filter (\<lambda>d. sort samples ! ?i < d) samples) \<le> length samples - 1 - ?i"
    using sorted_above [OF _ i] by simp
  moreover have "sort samples ! ?i \<in> set samples" using nth_mem [OF i] by simp
  ultimately show ?thesis using assms by (auto simp: calculate_percentile_def)
qed

theorem percentile_rank_witness:
  "[30, 10, 20 :: int] \<noteq> [] \<and> (\<exists>x\<in>set [30, 10, 20]. calculate_percentile [30, 10, 20] 99 = fl (of_int x))"
  using percentile_rank [of "[30, 10, 20]" 99] by blast

end
