(* ===== verification/KeyManager.thy ===== *)
theory KeyManager
  imports Crypto
begin

text \<open>
  \<open>crypto/KeyManager.cpp\<close>: key generation, the encrypted key store, certificates, and the two
  hardware backends. OpenSSL, the clock, the random bytes and the results of the file calls are the
  record \<open>km_env\<close>; the files are a map from paths to bytes and mode with a log of what was done to
  them. A null pointer is \<open>None\<close>, an exception \<open>Inl\<close> of its message.
\<close>


section \<open>Files\<close>

datatype disk_op =
    Wrote string string nat
  | Chmod string nat
  | Renamed string string
  | Unlinked string
  | MadeDir string

record disk =
  dk_files :: "string \<rightharpoonup> string \<times> nat"
  dk_log :: "disk_op list"

text \<open>Results of the calls; \<open>di_umode\<close> is the mode the process gives a new file.\<close>

record disk_io =
  di_open :: bool
  di_good :: bool
  di_chmod :: bool
  di_rename :: bool
  di_remove :: bool
  di_umode :: nat

definition write_file :: "disk_io \<Rightarrow> string \<Rightarrow> string \<Rightarrow> disk \<Rightarrow> disk" where
  "write_file io path bytes d =
     (let mode = (case dk_files d path of Some (_, mo) \<Rightarrow> mo | None \<Rightarrow> di_umode io)
      in d\<lparr>dk_files := (dk_files d)(path \<mapsto> (bytes, mode)), dk_log := dk_log d @ [Wrote path bytes mode]\<rparr>)"

definition chmod_file :: "string \<Rightarrow> nat \<Rightarrow> disk \<Rightarrow> disk" where
  "chmod_file path mode d =
     d\<lparr>dk_files := (dk_files d)(path := map_option (\<lambda>(b, _). (b, mode)) (dk_files d path)), dk_log := dk_log d @ [Chmod path mode]\<rparr>"

definition rename_file :: "string \<Rightarrow> string \<Rightarrow> disk \<Rightarrow> disk" where
  "rename_file a b d =
     d\<lparr>dk_files := (dk_files d)(b := dk_files d a, a := None), dk_log := dk_log d @ [Renamed a b]\<rparr>"

definition unlink_file :: "string \<Rightarrow> disk \<Rightarrow> disk" where
  "unlink_file a d = d\<lparr>dk_files := (dk_files d)(a := None), dk_log := dk_log d @ [Unlinked a]\<rparr>"

definition create_directory :: "string \<Rightarrow> disk \<Rightarrow> disk" where
  "create_directory path d = d\<lparr>dk_log := dk_log d @ [MadeDir path]\<rparr>"

definition tmp_name :: "string \<Rightarrow> int \<Rightarrow> string" where
  "tmp_name path pid = path @ ''.tmp.'' @ int_str pid"

text \<open>The write of \<open>store_key\<close>, which changes the mode, and of \<open>store_certificate\<close>, which does not.\<close>

definition atomic_store :: "disk_io \<Rightarrow> int \<Rightarrow> bool \<Rightarrow> string \<Rightarrow> string \<Rightarrow> disk \<Rightarrow> bool \<times> disk" where
  "atomic_store io pid private path bytes d =
     (let tmp = tmp_name path pid in
      if \<not> di_open io then (False, d)
      else
        let d = write_file io tmp bytes d in
        if \<not> di_good io then (False, unlink_file tmp d)
        else
          let d = (if private \<and> di_chmod io then chmod_file tmp 0x180 d else d) in
          if \<not> di_rename io then (False, unlink_file tmp d) else (True, rename_file tmp path d))"


section \<open>Types and environment\<close>

datatype key_type = Ed25519 | RSA | Ed448
datatype pkey_kind = PKEY_RSA | PKEY_ED25519 | PKEY_ED448 | PKEY_OTHER
datatype hsm_backend = HSM_None | HSM_SoftHSM | HSM_PKCS11

record key_pair =
  kp_key_id :: string
  kp_public_key :: "pkey option"
  kp_private_key :: "pkey option"
  kp_type :: key_type

record certificate_config =
  cc_common_name :: string
  cc_organization :: string
  cc_organizational_unit :: string
  cc_country :: string
  cc_state :: string
  cc_locality :: string
  cc_sans :: "string list"
  cc_validity_days :: "32 word"
  cc_is_ca :: bool
  cc_is_server_auth :: bool
  cc_is_client_auth :: bool

type_synonym x509_name = "(string \<times> string) list"

record x509 =
  x5_version :: int
  x5_serial :: int
  x5_not_before :: int
  x5_not_after :: int
  x5_pubkey :: "pkey option"
  x5_subject :: x509_name
  x5_issuer :: x509_name
  x5_sans :: "string list"
  x5_basic_ca :: bool
  x5_key_usage :: "nat list"
  x5_ext_key_usage :: "string list"
  x5_signed_by :: "pkey \<times> bool"

record certificate =
  ct_key_id :: string
  ct_certificate :: x509
  ct_ca_private_key :: "pkey option"
  ct_subject :: string
  ct_issuer :: string
  ct_not_before :: time
  ct_not_after :: time
  ct_sans :: "string list"
  ct_is_ca :: bool

record km_env =
  ke_ssl :: openssl
  ke_ctx_new :: "key_type \<Rightarrow> bool"
  ke_keygen_init :: bool
  ke_rsa_bits :: bool
  ke_keygen :: "key_type \<Rightarrow> pkey option"
  ke_dup :: "pkey \<Rightarrow> pkey option"
  ke_base_id :: "pkey \<Rightarrow> pkey_kind"
  ke_write_private :: "pkey \<Rightarrow> string option"
  ke_read_private :: "string \<Rightarrow> pkey option"
  ke_pbkdf2 :: "string \<Rightarrow> string \<Rightarrow> string option"
  ke_gcm_seal :: "string \<Rightarrow> string \<Rightarrow> string \<Rightarrow> (string \<times> string) option"
  ke_gcm_open :: "string \<Rightarrow> string \<Rightarrow> string \<Rightarrow> string \<Rightarrow> string option"
  ke_salt :: "string option"
  ke_iv :: "string option"
  ke_random8 :: string
  ke_serial :: uint64
  ke_x509_new :: bool
  ke_write_x509 :: "x509 \<Rightarrow> string option"
  ke_read_x509 :: "string \<Rightarrow> x509 option"
  ke_name_text :: "x509_name \<Rightarrow> string"
  ke_steady_now :: time
  ke_system_now :: time
  ke_pid :: int
  ke_io :: disk_io
  ke_access :: "string \<Rightarrow> bool"
  ke_dlopen :: "string \<Rightarrow> bool"
  ke_getenv :: "string \<Rightarrow> string option"

datatype hsm = SoftHSM string | PKCS11 string string string

record key_manager =
  km_keystore_path :: string
  km_cached_key :: "key_pair option"
  km_hsm :: "hsm option"
  km_hsm_backend :: hsm_backend
  km_cert_store_path :: string
  km_passphrase :: string

definition new_key_manager :: "string \<Rightarrow> disk \<Rightarrow> key_manager \<times> disk" where
  "new_key_manager keystore_path d =
     (\<lparr>km_keystore_path = keystore_path, km_cached_key = None, km_hsm = None, km_hsm_backend = HSM_None,
       km_cert_store_path = keystore_path @ ''/certs'', km_passphrase = []\<rparr>,
      if keystore_path \<noteq> [] then create_directory (keystore_path @ ''/certs'') (create_directory keystore_path d) else d)"

definition set_passphrase :: "string \<Rightarrow> key_manager \<Rightarrow> key_manager" where
  "set_passphrase passphrase km = km\<lparr>km_passphrase := passphrase\<rparr>"


section \<open>Encryption\<close>

definition aes_gcm_encrypt :: "km_env \<Rightarrow> string \<Rightarrow> string \<Rightarrow> string" where
  "aes_gcm_encrypt E plaintext key =
     (if plaintext = [] then []
      else case ke_iv E of
        None \<Rightarrow> []
      | Some iv \<Rightarrow> (case ke_gcm_seal E key iv plaintext of None \<Rightarrow> [] | Some (ct, tag) \<Rightarrow> iv @ ct @ tag))"

definition aes_gcm_decrypt :: "km_env \<Rightarrow> string \<Rightarrow> string \<Rightarrow> string" where
  "aes_gcm_decrypt E ciphertext key =
     (if length ciphertext < 12 + 16 then []
      else
        let ct_len = length ciphertext - 12 - 16
        in case ke_gcm_open E key (take 12 ciphertext) (take ct_len (drop 12 ciphertext)) (drop (length ciphertext - 16) ciphertext) of
             None \<Rightarrow> []
           | Some p \<Rightarrow> p)"

definition encrypt_blob :: "km_env \<Rightarrow> key_manager \<Rightarrow> string \<Rightarrow> string" where
  "encrypt_blob E km plaintext =
     (if km_passphrase km = [] then plaintext
      else case ke_salt E of
        None \<Rightarrow> []
      | Some salt \<Rightarrow>
          (case ke_pbkdf2 E (km_passphrase km) salt of
             None \<Rightarrow> []
           | Some key \<Rightarrow> let encrypted = aes_gcm_encrypt E plaintext key in if encrypted = [] then [] else salt @ encrypted))"

definition decrypt_blob :: "km_env \<Rightarrow> key_manager \<Rightarrow> string \<Rightarrow> string" where
  "decrypt_blob E km ciphertext =
     (if km_passphrase km = [] then ciphertext
      else if length ciphertext < 16 then []
      else case ke_pbkdf2 E (km_passphrase km) (take 16 ciphertext) of
        None \<Rightarrow> []
      | Some key \<Rightarrow> aes_gcm_decrypt E (drop 16 ciphertext) key)"


section \<open>Key generation\<close>

definition generate_ed25519_key :: "km_env \<Rightarrow> string + pkey" where
  "generate_ed25519_key E =
     (if \<not> ke_ctx_new E Ed25519 then Inl ''EVP_PKEY_CTX_new_id failed''
      else if \<not> ke_keygen_init E then Inl ''EVP_PKEY_keygen_init failed''
      else case ke_keygen E Ed25519 of None \<Rightarrow> Inl ''EVP_PKEY_keygen failed'' | Some k \<Rightarrow> Inr k)"

text \<open>The switch of \<open>KeyManager::generate_key\<close> and of the software backend.\<close>

definition keygen_native :: "km_env \<Rightarrow> key_type \<Rightarrow> string + pkey option" where
  "keygen_native E type =
     (case type of
        Ed25519 \<Rightarrow> map_sum id Some (generate_ed25519_key E)
      | RSA \<Rightarrow> Inr (if ke_ctx_new E RSA \<and> ke_keygen_init E \<and> ke_rsa_bits E then ke_keygen E RSA else None)
      | Ed448 \<Rightarrow> Inr (if ke_ctx_new E Ed448 \<and> ke_keygen_init E then ke_keygen E Ed448 else None))"

text \<open>The switch of the token backend, which does not look at the results of the initialisation.\<close>

definition keygen_token :: "km_env \<Rightarrow> key_type \<Rightarrow> string + pkey option" where
  "keygen_token E type =
     (case type of
        Ed25519 \<Rightarrow> map_sum id Some (generate_ed25519_key E)
      | _ \<Rightarrow> Inr (if ke_ctx_new E type then ke_keygen E type else None))"

definition key_type_to_string :: "key_type \<Rightarrow> string" where
  "key_type_to_string type = (case type of Ed25519 \<Rightarrow> ''ed25519'' | RSA \<Rightarrow> ''rsa'' | Ed448 \<Rightarrow> ''ed448'')"

definition random_hex :: "km_env \<Rightarrow> string" where
  "random_hex E = hex_string (ke_random8 E)"

definition generate_key_id :: "km_env \<Rightarrow> key_type \<Rightarrow> string" where
  "generate_key_id E type = key_type_to_string type @ ''_'' @ int_str (ke_steady_now E) @ ''_'' @ random_hex E"


section \<open>The backends\<close>

definition new_soft_hsm :: "string \<Rightarrow> disk \<Rightarrow> hsm \<times> disk" where
  "new_soft_hsm slot d = (SoftHSM slot, if slot \<noteq> [] \<and> dk_files d slot = None then create_directory slot d else d)"

definition token_available :: "km_env \<Rightarrow> string \<Rightarrow> bool" where
  "token_available E module_path \<longleftrightarrow> module_path \<noteq> [] \<and> ke_access E module_path \<and> ke_dlopen E module_path"

definition hsm_is_available :: "km_env \<Rightarrow> hsm \<Rightarrow> bool" where
  "hsm_is_available E h = (case h of SoftHSM _ \<Rightarrow> True | PKCS11 module_path _ _ \<Rightarrow> token_available E module_path)"

text \<open>The file of the software backend; the result of the write is not looked at.\<close>

definition soft_save :: "km_env \<Rightarrow> string \<Rightarrow> string \<Rightarrow> pkey \<Rightarrow> disk \<Rightarrow> disk" where
  "soft_save E slot key_id priv d =
     (let path = slot @ ''/'' @ key_id @ ''.pem''; tmp = tmp_name path (ke_pid E); io = ke_io E in
      if slot = [] \<or> \<not> di_open io then d
      else
        let d = write_file io tmp (case ke_write_private E priv of Some p \<Rightarrow> p | None \<Rightarrow> []) d in
        if di_chmod io
        then let d = chmod_file tmp 0x180 d in if di_rename io then rename_file tmp path d else unlink_file tmp d
        else unlink_file tmp d)"

text \<open>Success, public and private key.\<close>

definition hsm_generate_key :: "km_env \<Rightarrow> hsm \<Rightarrow> key_type \<Rightarrow> string \<Rightarrow> disk \<Rightarrow> string + (bool \<times> pkey option \<times> pkey option \<times> disk)" where
  "hsm_generate_key E h type key_id d =
     (case h of
        SoftHSM slot \<Rightarrow>
          (case keygen_native E type of
             Inl e \<Rightarrow> Inl e
           | Inr None \<Rightarrow> Inr (False, None, None, d)
           | Inr (Some k) \<Rightarrow> Inr (ke_dup E k \<noteq> None, ke_dup E k, Some k, soft_save E slot key_id k d))
      | PKCS11 module_path _ _ \<Rightarrow>
          if \<not> token_available E module_path then Inr (False, None, None, d)
          else case keygen_token E type of
             Inl e \<Rightarrow> Inl e
           | Inr None \<Rightarrow> Inr (False, None, None, d)
           | Inr (Some k) \<Rightarrow> Inr (True, ke_dup E k, Some k, d))"

definition soft_load :: "km_env \<Rightarrow> string \<Rightarrow> string \<Rightarrow> disk \<Rightarrow> pkey option" where
  "soft_load E slot key_id d =
     (if slot = [] then None
      else case dk_files d (slot @ ''/'' @ key_id @ ''.pem'') of None \<Rightarrow> None | Some (pem, _) \<Rightarrow> ke_read_private E pem)"

definition token_uri :: "string \<Rightarrow> string \<Rightarrow> bool \<Rightarrow> string" where
  "token_uri label key_id is_private =
     ''pkcs11:'' @ (if label \<noteq> [] then ''token='' @ label @ '';'' else []) @ ''object='' @ key_id @ '';''
     @ (if is_private then ''type=private'' else ''type=public'')"

definition exported_pem :: "string \<Rightarrow> string" where
  "exported_pem key_id = ''/tmp/neuro_p11_'' @ key_id @ ''.pem''"

text \<open>The address of the key is read as if it were a PEM text; else a file below \<open>/tmp\<close> is read and removed.\<close>

definition load_key_from_token :: "km_env \<Rightarrow> string \<Rightarrow> string \<Rightarrow> bool \<Rightarrow> disk \<Rightarrow> pkey option \<times> disk" where
  "load_key_from_token E label key_id is_private d =
     (let read = (if is_private then ke_read_private E else pem_read_bio_pubkey (ke_ssl E)) in
      case read (token_uri label key_id is_private) of
        Some k \<Rightarrow> (Some k, d)
      | None \<Rightarrow>
          (case dk_files d (exported_pem key_id) of
             Some (pem, _) \<Rightarrow> (read pem, unlink_file (exported_pem key_id) d)
           | None \<Rightarrow> (None, d)))"

definition hsm_sign_data :: "km_env \<Rightarrow> hsm \<Rightarrow> string \<Rightarrow> string \<Rightarrow> disk \<Rightarrow> string option \<times> disk" where
  "hsm_sign_data E h key_id data d =
     (case h of
        SoftHSM slot \<Rightarrow> (Option.bind (soft_load E slot key_id d) (\<lambda>k. evp_digest_sign (ke_ssl E) k data), d)
      | PKCS11 _ _ label \<Rightarrow>
          let (key, d) = load_key_from_token E label key_id True d
          in (Option.bind key (\<lambda>k. evp_digest_sign (ke_ssl E) k data), d))"

definition hsm_verify_signature :: "km_env \<Rightarrow> hsm \<Rightarrow> string \<Rightarrow> string \<Rightarrow> string \<Rightarrow> disk \<Rightarrow> bool \<times> disk" where
  "hsm_verify_signature E h key_id data signature d =
     (case h of
        SoftHSM slot \<Rightarrow>
          (case soft_load E slot key_id d of None \<Rightarrow> False | Some k \<Rightarrow> evp_digest_verify (ke_ssl E) k data signature, d)
      | PKCS11 _ _ label \<Rightarrow>
          let (key, d) = load_key_from_token E label key_id False d;
              (key, d) = (if key = None then load_key_from_token E label key_id True d else (key, d))
          in (case key of None \<Rightarrow> False | Some k \<Rightarrow> evp_digest_verify (ke_ssl E) k data signature, d))"

definition set_hsm_backend :: "km_env \<Rightarrow> hsm_backend \<Rightarrow> key_manager \<Rightarrow> key_manager" where
  "set_hsm_backend E backend km =
     (let text = (\<lambda>v. case ke_getenv E v of Some t \<Rightarrow> t | None \<Rightarrow> []) in
      km\<lparr>km_hsm_backend := backend,
         km_hsm := (case backend of
            HSM_SoftHSM \<Rightarrow> Some (SoftHSM [])
          | HSM_PKCS11 \<Rightarrow> Some (PKCS11 (text ''NEURO_PKCS11_MODULE'') (text ''NEURO_PKCS11_PIN'') (text ''NEURO_PKCS11_TOKEN''))
          | HSM_None \<Rightarrow> None)\<rparr>)"


section \<open>Keys\<close>

definition km_generate_key :: "km_env \<Rightarrow> key_type \<Rightarrow> string \<Rightarrow> key_manager \<Rightarrow> disk \<Rightarrow> string + (key_pair option \<times> disk)" where
  "km_generate_key E type key_id km d =
     (let new_id = (if key_id = [] then generate_key_id E type else key_id);
          native = (\<lambda>d. case keygen_native E type of
             Inl e \<Rightarrow> Inl e
           | Inr None \<Rightarrow> Inr (None, d)
           | Inr (Some k) \<Rightarrow> Inr (Some \<lparr>kp_key_id = new_id, kp_public_key = ke_dup E k, kp_private_key = Some k, kp_type = type\<rparr>, d))
      in case km_hsm km of
           None \<Rightarrow> native d
         | Some h \<Rightarrow>
             if \<not> hsm_is_available E h then native d
             else case hsm_generate_key E h type new_id d of
                Inl e \<Rightarrow> Inl e
              | Inr (ok, pub, priv, d) \<Rightarrow>
                  if ok then Inr (Some \<lparr>kp_key_id = key_id, kp_public_key = pub, kp_private_key = priv, kp_type = type\<rparr>, d)
                  else native d)"

definition key_file :: "key_manager \<Rightarrow> string \<Rightarrow> string" where
  "key_file km key_id = km_keystore_path km @ ''/'' @ key_id @ ''.pem''"

definition store_key :: "km_env \<Rightarrow> key_pair \<Rightarrow> key_manager \<Rightarrow> disk \<Rightarrow> bool \<times> key_manager \<times> disk" where
  "store_key E kp km d =
     (if km_keystore_path km = [] then (False, km, d)
      else case kp_private_key kp of
        None \<Rightarrow> (False, km, d)
      | Some k \<Rightarrow>
          (case ke_write_private E k of
             None \<Rightarrow> (False, km, d)
           | Some blob \<Rightarrow>
               let (ok, d) = atomic_store (ke_io E) (ke_pid E) True (key_file km (kp_key_id kp)) (encrypt_blob E km blob) d
               in (ok, if ok then km\<lparr>km_cached_key := Some kp\<rparr> else km, d)))"

definition type_of_key :: "km_env \<Rightarrow> pkey \<Rightarrow> key_type" where
  "type_of_key E k = (case ke_base_id E k of PKEY_RSA \<Rightarrow> RSA | PKEY_ED25519 \<Rightarrow> Ed25519 | PKEY_ED448 \<Rightarrow> Ed448 | PKEY_OTHER \<Rightarrow> Ed25519)"

definition load_key :: "km_env \<Rightarrow> string \<Rightarrow> key_manager \<Rightarrow> disk \<Rightarrow> key_pair option" where
  "load_key E key_id km d =
     (if km_keystore_path km = [] then None
      else case dk_files d (key_file km key_id) of
        None \<Rightarrow> None
      | Some (stored, _) \<Rightarrow>
          map_option (\<lambda>k. \<lparr>kp_key_id = key_id, kp_public_key = ke_dup E k, kp_private_key = Some k, kp_type = type_of_key E k\<rparr>)
            (ke_read_private E (decrypt_blob E km stored)))"

definition delete_key :: "km_env \<Rightarrow> string \<Rightarrow> key_manager \<Rightarrow> disk \<Rightarrow> bool \<times> disk" where
  "delete_key E key_id km d =
     (if km_keystore_path km = [] then (False, d)
      else if dk_files d (key_file km key_id) \<noteq> None \<and> di_remove (ke_io E) then (True, unlink_file (key_file km key_id) d)
      else (False, d))"

text \<open>The key the two getters read: the cached one if it has the name, else the stored one.\<close>

definition find_key :: "km_env \<Rightarrow> string \<Rightarrow> key_manager \<Rightarrow> disk \<Rightarrow> key_pair option" where
  "find_key E key_id km d =
     (case km_cached_key km of
        Some kp \<Rightarrow> if kp_key_id kp = key_id then Some kp else load_key E key_id km d
      | None \<Rightarrow> load_key E key_id km d)"

definition get_public_key_pem :: "km_env \<Rightarrow> string \<Rightarrow> key_manager \<Rightarrow> disk \<Rightarrow> pem" where
  "get_public_key_pem E key_id km d =
     (case Option.bind (find_key E key_id km d) kp_public_key of None \<Rightarrow> [] | Some k \<Rightarrow> get_pem_from_pubkey (ke_ssl E) k)"

definition get_private_key_pem :: "km_env \<Rightarrow> string \<Rightarrow> key_manager \<Rightarrow> disk \<Rightarrow> pem" where
  "get_private_key_pem E key_id km d =
     (case Option.bind (Option.bind (find_key E key_id km d) kp_private_key) (ke_write_private E) of None \<Rightarrow> [] | Some p \<Rightarrow> p)"

definition has_key :: "string \<Rightarrow> key_manager \<Rightarrow> disk \<Rightarrow> bool" where
  "has_key key_id km d \<longleftrightarrow>
     (case km_cached_key km of Some kp \<Rightarrow> kp_key_id kp = key_id | None \<Rightarrow> False)
     \<or> (km_keystore_path km \<noteq> [] \<and> dk_files d (key_file km key_id) \<noteq> None)"


section \<open>Certificates\<close>

text \<open>Constants of OpenSSL: masks for the key usage, which the code passes as bit numbers.\<close>

definition KU_KEY_CERT_SIGN :: nat where "KU_KEY_CERT_SIGN = 0x0004"
definition KU_CRL_SIGN :: nat where "KU_CRL_SIGN = 0x0002"

definition subject_name :: "certificate_config \<Rightarrow> x509_name" where
  "subject_name c =
     concat (map (\<lambda>(field, value). if value = [] then [] else [(field, c_string value)])
       [(''CN'', cc_common_name c), (''O'', cc_organization c), (''OU'', cc_organizational_unit c),
        (''C'', cc_country c), (''ST'', cc_state c), (''L'', cc_locality c)])"

definition is_edwards :: "km_env \<Rightarrow> pkey \<Rightarrow> bool" where
  "is_edwards E k \<longleftrightarrow> ke_base_id E k \<in> {PKEY_ED25519, PKEY_ED448}"

text \<open>
  \<open>None\<close> is a null pointer; the signing key must not be null. The second component of
  \<open>x5_signed_by\<close> tells whether SHA-256 is the digest.
\<close>

definition create_x509_cert :: "km_env \<Rightarrow> certificate_config \<Rightarrow> pkey \<Rightarrow> pkey option \<Rightarrow> x509 option \<Rightarrow> bool \<Rightarrow> x509 option" where
  "create_x509_cert E c pub_key ca_key ca_cert is_ca =
     (if \<not> ke_x509_new E then None
      else
        let now = dsecs (ke_system_now E);
            name = subject_name c;
            signer = (case ca_key of Some k \<Rightarrow> k | None \<Rightarrow> pub_key)
        in Some
          \<lparr>x5_version = 2, x5_serial = sint (ke_serial E), x5_not_before = now,
           x5_not_after = now + uint (cc_validity_days c * 24 * 60 * 60),
           x5_pubkey = Some pub_key, x5_subject = name,
           x5_issuer = (case ca_cert of Some ca \<Rightarrow> x5_subject ca | None \<Rightarrow> name),
           x5_sans = cc_sans c, x5_basic_ca = is_ca,
           x5_key_usage = (if is_ca then [KU_KEY_CERT_SIGN, KU_CRL_SIGN] else []),
           x5_ext_key_usage =
             (if is_ca then []
              else (if cc_is_server_auth c then [''serverAuth''] else []) @ (if cc_is_client_auth c then [''clientAuth''] else [])),
           x5_signed_by = (signer, \<not> is_edwards E signer)\<rparr>)"

definition cert_file :: "key_manager \<Rightarrow> string \<Rightarrow> string" where
  "cert_file km cert_id = km_cert_store_path km @ ''/'' @ cert_id @ ''.crt''"

definition load_certificate :: "km_env \<Rightarrow> string \<Rightarrow> key_manager \<Rightarrow> disk \<Rightarrow> certificate option" where
  "load_certificate E cert_id km d =
     (case dk_files d (cert_file km cert_id) of
        None \<Rightarrow> None
      | Some (stored, _) \<Rightarrow>
          map_option (\<lambda>x. \<lparr>ct_key_id = cert_id, ct_certificate = x, ct_ca_private_key = None, ct_subject = [], ct_issuer = [],
              ct_not_before = 0, ct_not_after = 0, ct_sans = [], ct_is_ca = False\<rparr>)
            (ke_read_x509 E (decrypt_blob E km stored)))"

text \<open>\<open>None\<close> is a null pointer; the outer \<open>None\<close> stands for a null public key, on which OpenSSL's behaviour is undefined.\<close>

definition generate_certificate :: "km_env \<Rightarrow> key_pair \<Rightarrow> certificate_config \<Rightarrow> string \<Rightarrow> key_manager \<Rightarrow> disk \<Rightarrow> certificate option option" where
  "generate_certificate E kp c ca_key_id km d =
     (let ca_key = (if ca_key_id = [] then None else Option.bind (load_key E ca_key_id km d) kp_private_key);
          ca_cert = (if ca_key_id = [] then None else map_option ct_certificate (load_certificate E ca_key_id km d))
      in case kp_public_key kp of
           None \<Rightarrow> None
         | Some pub \<Rightarrow> Some
             (map_option (\<lambda>x.
                \<lparr>ct_key_id = kp_key_id kp @ ''_cert'', ct_certificate = x, ct_ca_private_key = ca_key,
                 ct_subject = ke_name_text E (x5_subject x), ct_issuer = ke_name_text E (x5_issuer x),
                 ct_not_before = 0, ct_not_after = ke_system_now E + uint (cc_validity_days c * 24) * 3600000000000,
                 ct_sans = cc_sans c, ct_is_ca = cc_is_ca c\<rparr>)
              (create_x509_cert E c pub ca_key ca_cert (cc_is_ca c))))"

definition store_certificate :: "km_env \<Rightarrow> certificate \<Rightarrow> key_manager \<Rightarrow> disk \<Rightarrow> bool \<times> disk" where
  "store_certificate E cert km d =
     (if km_cert_store_path km = [] then (False, d)
      else case ke_write_x509 E (ct_certificate cert) of
        None \<Rightarrow> (False, d)
      | Some blob \<Rightarrow> atomic_store (ke_io E) (ke_pid E) False (cert_file km (ct_key_id cert)) (encrypt_blob E km blob) d)"

definition delete_certificate :: "km_env \<Rightarrow> string \<Rightarrow> key_manager \<Rightarrow> disk \<Rightarrow> bool \<times> disk" where
  "delete_certificate E cert_id km d =
     (if km_cert_store_path km = [] then (False, d)
      else if dk_files d (cert_file km cert_id) \<noteq> None \<and> di_remove (ke_io E) then (True, unlink_file (cert_file km cert_id) d)
      else (False, d))"


section \<open>Vocabulary of the statements\<close>

text \<open>What the encryption of OpenSSL promises: a tag of 16 bytes, and decryption inverts encryption.\<close>

definition gcm_law :: "km_env \<Rightarrow> bool" where
  "gcm_law E \<longleftrightarrow>
     (\<forall>k iv p ct tag. ke_gcm_seal E k iv p = Some (ct, tag) \<longrightarrow> length tag = 16 \<and> ke_gcm_open E k iv ct tag = Some p)
     \<and> (\<forall>iv. ke_iv E = Some iv \<longrightarrow> length iv = 12) \<and> (\<forall>salt. ke_salt E = Some salt \<longrightarrow> length salt = 16)"

text \<open>A key written as PEM is read back, and the empty text is no key.\<close>

definition pem_law :: "km_env \<Rightarrow> bool" where
  "pem_law E \<longleftrightarrow> (\<forall>k p. ke_write_private E k = Some p \<longrightarrow> p \<noteq> [] \<and> ke_read_private E p = Some k) \<and> ke_read_private E [] = None"

definition calls_succeed :: "disk_io \<Rightarrow> bool" where
  "calls_succeed io \<longleftrightarrow> di_open io \<and> di_good io \<and> di_rename io"

definition key_demo_io :: disk_io where
  "key_demo_io = \<lparr>di_open = True, di_good = True, di_chmod = True, di_rename = True, di_remove = True, di_umode = 0x1A4\<rparr>"

definition demo_km_env :: km_env where
  "demo_km_env =
     \<lparr>ke_ssl = demo_ssl, ke_ctx_new = (\<lambda>_. True), ke_keygen_init = True, ke_rsa_bits = True, ke_keygen = (\<lambda>_. Some ''k''),
      ke_dup = Some, ke_base_id = (\<lambda>_. PKEY_ED25519), ke_write_private = (\<lambda>k. Some (''P'' @ k)),
      ke_read_private = (\<lambda>p. if p = [] then None else Some (tl p)), ke_pbkdf2 = (\<lambda>p s. Some (p @ s)),
      ke_gcm_seal = (\<lambda>k iv p. Some (p, replicate 16 (CHR ''t''))), ke_gcm_open = (\<lambda>k iv ct tag. Some ct),
      ke_salt = Some (replicate 16 (CHR ''s'')), ke_iv = Some (replicate 12 (CHR ''i'')), ke_random8 = replicate 8 (CHR ''r''),
      ke_serial = 1, ke_x509_new = True, ke_write_x509 = (\<lambda>x. Some ''cert''), ke_read_x509 = (\<lambda>p. None), ke_name_text = (\<lambda>n. []),
      ke_steady_now = 1, ke_system_now = 1, ke_pid = 7, ke_io = key_demo_io, ke_access = (\<lambda>_. True), ke_dlopen = (\<lambda>_. True), ke_getenv = (\<lambda>_. None)\<rparr>"

definition demo_km :: key_manager where
  "demo_km = set_passphrase ''secret'' (fst (new_key_manager ''ks'' \<lparr>dk_files = Map.empty, dk_log = []\<rparr>))"

definition key_demo_disk :: disk where
  "key_demo_disk = \<lparr>dk_files = Map.empty, dk_log = []\<rparr>"

definition demo_pair :: key_pair where
  "demo_pair = \<lparr>kp_key_id = ''id'', kp_public_key = Some ''k'', kp_private_key = Some ''k'', kp_type = Ed25519\<rparr>"

definition token_ssl :: openssl where
  "token_ssl = demo_ssl\<lparr>pem_read_bio_pubkey := (\<lambda>p. if starts_with ''pkcs11:'' p then None else Some p)\<rparr>"

text \<open>A bit of the key usage extension, by its number in the certificate standard.\<close>

definition KEY_CERT_SIGN_BIT :: nat where "KEY_CERT_SIGN_BIT = 5"

definition CRL_SIGN_BIT :: nat where "CRL_SIGN_BIT = 6"

definition demo_config :: certificate_config where
  "demo_config = \<lparr>cc_common_name = ''leaf'', cc_organization = [], cc_organizational_unit = [], cc_country = [], cc_state = [],
     cc_locality = [], cc_sans = [], cc_validity_days = 365, cc_is_ca = False, cc_is_server_auth = True, cc_is_client_auth = False\<rparr>"


section \<open>Encryption\<close>

lemma gcm_roundtrip:
  assumes "gcm_law E" "aes_gcm_encrypt E p key \<noteq> []"
  shows "aes_gcm_decrypt E (aes_gcm_encrypt E p key) key = p"
proof -
  obtain iv ct tag where seal: "ke_iv E = Some iv" "ke_gcm_seal E key iv p = Some (ct, tag)" "aes_gcm_encrypt E p key = iv @ ct @ tag"
    using assms(2) by (auto simp: aes_gcm_encrypt_def split: if_splits option.splits)
  have "length iv = 12" "length tag = 16" "ke_gcm_open E key iv ct tag = Some p"
    using assms(1) seal(1,2) unfolding gcm_law_def by blast+
  then show ?thesis by (simp add: seal(3) aes_gcm_decrypt_def)
qed

lemma blob_restored:
  assumes "gcm_law E" "km_passphrase km = [] \<or> encrypt_blob E km p \<noteq> []"
  shows "decrypt_blob E km (encrypt_blob E km p) = p"
proof (cases "km_passphrase km = []")
  case True
  then show ?thesis by (simp add: encrypt_blob_def decrypt_blob_def)
next
  case False
  with assms(2) obtain salt key where enc: "ke_salt E = Some salt" "ke_pbkdf2 E (km_passphrase km) salt = Some key"
    "aes_gcm_encrypt E p key \<noteq> []" "encrypt_blob E km p = salt @ aes_gcm_encrypt E p key"
    by (auto simp: encrypt_blob_def Let_def split: option.splits if_splits)
  have "length salt = 16" using assms(1) enc(1) unfolding gcm_law_def by blast
  then show ?thesis using False enc gcm_roundtrip [OF assms(1) enc(3)] by (simp add: decrypt_blob_def)
qed

text \<open>
  What the key store encrypts it decrypts again with the same passphrase: the salt, the nonce and the tag are found where
  they were put. Without a passphrase the bytes are stored as they are.
\<close>

theorem blob_roundtrip:
  assumes "gcm_law E" "km_passphrase km = [] \<or> encrypt_blob E km p \<noteq> []"
  shows "decrypt_blob E km (encrypt_blob E km p) = p"
  using assms by (rule blob_restored)

theorem blob_roundtrip_witness:
  "gcm_law demo_km_env \<and> encrypt_blob demo_km_env demo_km ''key'' \<noteq> []
   \<and> decrypt_blob demo_km_env demo_km (encrypt_blob demo_km_env demo_km ''key'') = ''key''"
proof -
  have law: "gcm_law demo_km_env" by (simp add: gcm_law_def demo_km_env_def)
  have enc: "encrypt_blob demo_km_env demo_km ''key'' \<noteq> []"
    by (simp add: encrypt_blob_def demo_km_def set_passphrase_def new_key_manager_def demo_km_env_def aes_gcm_encrypt_def)
  from blob_roundtrip [OF law disjI2 [OF enc]] law enc show ?thesis by blast
qed


section \<open>The key store\<close>

lemma tmp_name_differs [simp]: "tmp_name p pid \<noteq> p" "p \<noteq> tmp_name p pid"
  by (simp_all add: tmp_name_def)

lemma atomic_store_cases:
  assumes "atomic_store io pid private path bytes d = (ok, d')"
  shows "if ok then calls_succeed io \<and> (\<exists>mode. dk_files d' path = Some (bytes, mode) \<and> (private \<and> di_chmod io \<longrightarrow> mode = 0x180))
         else dk_files d' path = dk_files d path"
    "q \<noteq> path \<Longrightarrow> q \<noteq> tmp_name path pid \<Longrightarrow> dk_files d' q = dk_files d q"
  using assms
  by (auto simp: atomic_store_def Let_def write_file_def chmod_file_def rename_file_def unlink_file_def calls_succeed_def split: if_splits)

lemma store_key_other_files:
  assumes "store_key E kp km d = (ok, km', d')" "q \<noteq> key_file km (kp_key_id kp)" "q \<noteq> tmp_name (key_file km (kp_key_id kp)) (ke_pid E)"
  shows "dk_files d' q = dk_files d q"
  using assms(1) atomic_store_cases(2) [OF _ assms(2,3)] by (auto simp: store_key_def split: if_splits option.splits prod.splits)

text \<open>
  C28. Storing a key replaces the key file as a whole or leaves it and the key manager as they were, and touches no other file but its temporary one; when it
  succeeds and the encryption worked, which without a passphrase leaves the text as it is, the key that is loaded is the key that was stored.
\<close>

theorem stored_key_loads:
  assumes "gcm_law E" "pem_law E" "store_key E kp km d = (ok, km', d')"
    and "kp_private_key kp = Some k" "ke_write_private E k = Some p" "encrypt_blob E km p \<noteq> []"
  shows "(if ok then map_option kp_private_key (load_key E (kp_key_id kp) km' d') = Some (Some k)
          else km' = km \<and> dk_files d' (key_file km (kp_key_id kp)) = dk_files d (key_file km (kp_key_id kp)))
    \<and> (\<forall>q. q \<noteq> key_file km (kp_key_id kp) \<longrightarrow> q \<noteq> tmp_name (key_file km (kp_key_id kp)) (ke_pid E) \<longrightarrow> dk_files d' q = dk_files d q)"
proof (cases ok)
  case True
  then have path: "km_keystore_path km \<noteq> []" and km': "km' = km\<lparr>km_cached_key := Some kp\<rparr>"
    and store: "atomic_store (ke_io E) (ke_pid E) True (key_file km (kp_key_id kp)) (encrypt_blob E km p) d = (True, d')"
    using assms(3-5) by (auto simp: store_key_def split: if_splits prod.splits)
  obtain mode where "dk_files d' (key_file km (kp_key_id kp)) = Some (encrypt_blob E km p, mode)"
    using atomic_store_cases(1) [OF store] by auto
  moreover have "decrypt_blob E km (encrypt_blob E km p) = p"
    using blob_restored [OF assms(1)] assms(6) by blast
  moreover have "ke_read_private E p = Some k" using assms(2,5) unfolding pem_law_def by blast
  moreover have "key_file km' = key_file km" "decrypt_blob E km' = decrypt_blob E km" "km_keystore_path km' = km_keystore_path km"
    by (auto simp: km' key_file_def decrypt_blob_def fun_eq_iff)
  ultimately show ?thesis using True path store_key_other_files [OF assms(3)] by (simp add: load_key_def)
next
  case False
  then have "km' = km \<and> dk_files d' (key_file km (kp_key_id kp)) = dk_files d (key_file km (kp_key_id kp))" using assms(3-5) atomic_store_cases(1)
    by (fastforce simp: store_key_def split: if_splits prod.splits)
  then show ?thesis using False store_key_other_files [OF assms(3)] by simp
qed

theorem stored_key_loads_witness:
  "gcm_law demo_km_env \<and> pem_law demo_km_env
   \<and> (let (ok, km', d') = store_key demo_km_env demo_pair demo_km key_demo_disk
      in ok \<and> map_option kp_private_key (load_key demo_km_env ''id'' km' d') = Some (Some ''k''))"
proof -
  have laws: "gcm_law demo_km_env" "pem_law demo_km_env" by (simp_all add: gcm_law_def pem_law_def demo_km_env_def)
  obtain ok km' d' where run: "store_key demo_km_env demo_pair demo_km key_demo_disk = (ok, km', d')" by (metis prod_cases3)
  have ok: "ok" using run
    by (simp add: store_key_def demo_pair_def demo_km_def set_passphrase_def new_key_manager_def demo_km_env_def key_demo_io_def atomic_store_def Let_def)
  have "encrypt_blob demo_km_env demo_km ''Pk'' \<noteq> []"
    by (simp add: encrypt_blob_def demo_km_def set_passphrase_def new_key_manager_def demo_km_env_def aes_gcm_encrypt_def)
  with stored_key_loads [OF laws run, of "''k''" "''Pk''"] ok laws run show ?thesis
    by (simp add: demo_pair_def) (simp add: demo_km_env_def)
qed

text \<open>
  When the encryption fails, for want of random bytes, the key store writes the empty text over the stored key, reports success, and the key
  cannot be loaded any more.
\<close>

theorem failed_encryption_destroys_key:
  assumes "km_keystore_path km \<noteq> []" "km_passphrase km \<noteq> []" "ke_salt E = None" "calls_succeed (ke_io E)" "pem_law E"
    and "kp_private_key kp = Some k" "ke_write_private E k = Some p"
  shows "\<exists>km' d'. store_key E kp km d = (True, km', d') \<and> load_key E (kp_key_id kp) km' d' = None"
proof -
  have empty: "encrypt_blob E km p = []" using assms(2,3) by (simp add: encrypt_blob_def)
  obtain ok d' where store: "atomic_store (ke_io E) (ke_pid E) True (key_file km (kp_key_id kp)) [] d = (ok, d')" by fastforce
  have "ok" using store assms(4) by (auto simp: atomic_store_def Let_def calls_succeed_def)
  then obtain mode where stored: "dk_files d' (key_file km (kp_key_id kp)) = Some ([], mode)"
    using atomic_store_cases(1) [OF store] by auto
  have "store_key E kp km d = (True, km\<lparr>km_cached_key := Some kp\<rparr>, d')"
    using assms(1,6,7) store \<open>ok\<close> by (simp add: store_key_def empty)
  moreover have "load_key E (kp_key_id kp) (km\<lparr>km_cached_key := Some kp\<rparr>) d' = None"
    using stored assms(2,5) by (simp add: load_key_def key_file_def decrypt_blob_def pem_law_def)
  ultimately show ?thesis by blast
qed

theorem failed_encryption_destroys_key_witness:
  "\<exists>km' d'. store_key (demo_km_env\<lparr>ke_salt := None\<rparr>) demo_pair demo_km key_demo_disk = (True, km', d')
     \<and> load_key (demo_km_env\<lparr>ke_salt := None\<rparr>) ''id'' km' d' = None"
  using failed_encryption_destroys_key [of demo_km "demo_km_env\<lparr>ke_salt := None\<rparr>" demo_pair "''k''" "''Pk''" key_demo_disk]
  by (simp add: demo_pair_def demo_km_def set_passphrase_def new_key_manager_def demo_km_env_def key_demo_io_def pem_law_def calls_succeed_def)

text \<open>
  Deleting a key does not delete it from the cache: the key manager that stored a key and then deleted it still has the key
  and hands out its private half.
\<close>

theorem deleted_key_still_served:
  assumes "store_key E kp km d = (True, km', d')" "delete_key E (kp_key_id kp) km' d' = (deleted, d'')"
    and "kp_private_key kp = Some k" "ke_write_private E k = Some p"
  shows "has_key (kp_key_id kp) km' d'' \<and> get_private_key_pem E (kp_key_id kp) km' d'' = p"
proof -
  have "km_cached_key km' = Some kp"
    using assms(1) by (auto simp: store_key_def split: if_splits option.splits prod.splits)
  then show ?thesis using assms(3,4) by (simp add: has_key_def get_private_key_pem_def find_key_def)
qed

theorem deleted_key_still_served_witness:
  "let (ok, km', d') = store_key demo_km_env demo_pair demo_km key_demo_disk; (deleted, d'') = delete_key demo_km_env ''id'' km' d'
   in ok \<and> deleted \<and> dk_files d'' (key_file km' ''id'') = None \<and> get_private_key_pem demo_km_env ''id'' km' d'' = ''Pk''"
proof -
  obtain ok km' d' where run: "store_key demo_km_env demo_pair demo_km key_demo_disk = (ok, km', d')" by (metis prod_cases3)
  obtain deleted d'' where del: "delete_key demo_km_env ''id'' km' d' = (deleted, d'')" by fastforce
  have ok: "ok" and files: "dk_files d' (key_file km' ''id'') \<noteq> None" "km_keystore_path km' = ''ks''" using run
    by (auto simp: store_key_def demo_pair_def demo_km_def set_passphrase_def new_key_manager_def demo_km_env_def key_demo_io_def
        atomic_store_def write_file_def chmod_file_def rename_file_def key_file_def Let_def)
  have "deleted" "dk_files d'' (key_file km' ''id'') = None"
    using del files by (auto simp: delete_key_def demo_km_env_def key_demo_io_def unlink_file_def)
  moreover have "get_private_key_pem demo_km_env ''id'' km' d'' = ''Pk''"
    using deleted_key_still_served [of demo_km_env demo_pair demo_km key_demo_disk km' d' deleted d'' "''k''" "''Pk''"] run del ok
    by (simp add: demo_pair_def) (simp add: demo_km_env_def)
  ultimately show ?thesis using ok by (simp add: run del)
qed


text \<open>The key is in the temporary file with the mode of a new file before the mode is restricted.\<close>

lemma key_written_before_chmod:
  assumes "store_key E kp km d = (True, km', d')" "kp_private_key kp = Some k" "ke_write_private E k = Some p"
    and "di_chmod (ke_io E)" "dk_files d (tmp_name (key_file km (kp_key_id kp)) (ke_pid E)) = None"
  shows "dk_log d' = dk_log d @ [Wrote (tmp_name (key_file km (kp_key_id kp)) (ke_pid E)) (encrypt_blob E km p) (di_umode (ke_io E)),
     Chmod (tmp_name (key_file km (kp_key_id kp)) (ke_pid E)) 0x180,
     Renamed (tmp_name (key_file km (kp_key_id kp)) (ke_pid E)) (key_file km (kp_key_id kp))]"
  using assms
  by (auto simp: store_key_def atomic_store_def write_file_def chmod_file_def rename_file_def Let_def split: if_splits prod.splits)

text \<open>The name of a key is not checked: it can leave the key store.\<close>

lemma key_name_leaves_store: "key_file km ''../../etc/x'' = km_keystore_path km @ ''/../../etc/x.pem''"
  by (simp add: key_file_def)

text \<open>Without a key store the path of the certificates is still not empty, and certificates go to the root directory.\<close>

lemma certificates_without_store: "cert_file (fst (new_key_manager [] d)) i = ''/certs/'' @ i @ ''.crt''"
  by (simp add: cert_file_def new_key_manager_def)


section \<open>Backends\<close>

text \<open>A backend that generates a key for an empty name stores it under a fresh name the caller never learns.\<close>

lemma hsm_key_unnamed:
  assumes "km_hsm km = Some h" "hsm_is_available E h" "km_generate_key E type [] km d = Inr (Some kp, d')"
    "hsm_generate_key E h type (generate_key_id E type) d = Inr (True, pub, priv, d1)"
  shows "kp_key_id kp = []"
  using assms by (auto simp: km_generate_key_def Let_def)

text \<open>
  The software backend the key manager installs has no slot: it generates keys and can neither sign nor verify with any of them.
\<close>

theorem installed_soft_backend_cannot_sign:
  "\<exists>h. km_hsm (set_hsm_backend E HSM_SoftHSM km) = Some h \<and> hsm_is_available E h
     \<and> hsm_sign_data E h key_id data d = (None, d) \<and> hsm_verify_signature E h key_id data signature d = (False, d)"
  by (simp add: set_hsm_backend_def hsm_is_available_def hsm_sign_data_def hsm_verify_signature_def soft_load_def)

text \<open>
  When the token address is no PEM text, which holds of every address the code builds, verification with the token backend
  uses whatever key lies in a file below /tmp: the owner of that file decides which signatures are valid.
\<close>

theorem planted_key_verifies:
  assumes "\<And>b. pem_read_bio_pubkey (ke_ssl E) (token_uri label key_id b) = None"
    and "dk_files d (exported_pem key_id) = Some (pem, mode)" "pem_read_bio_pubkey (ke_ssl E) pem = Some k"
  shows "fst (hsm_verify_signature E (PKCS11 m pin label) key_id data signature d) = evp_digest_verify (ke_ssl E) k data signature
    \<and> dk_files (snd (hsm_verify_signature E (PKCS11 m pin label) key_id data signature d)) (exported_pem key_id) = None"
  using assms by (simp add: hsm_verify_signature_def load_key_from_token_def unlink_file_def)

theorem planted_key_verifies_witness:
  "fst (hsm_verify_signature (demo_km_env\<lparr>ke_ssl := token_ssl\<rparr>) (PKCS11 ''m'' [] ''t'') ''id'' ''data'' ''evil#data''
     (key_demo_disk\<lparr>dk_files := [exported_pem ''id'' \<mapsto> (''evil'', 0x1A4)]\<rparr>))"
  using planted_key_verifies [of "demo_km_env\<lparr>ke_ssl := token_ssl\<rparr>" "''t''" "''id''"
      "key_demo_disk\<lparr>dk_files := [exported_pem ''id'' \<mapsto> (''evil'', 0x1A4)]\<rparr>" "''evil''" "0x1A4" "''evil''" "''m''" "[]" "''data''" "''evil#data''"]
  by (simp add: token_ssl_def demo_ssl_def token_uri_def starts_with_def)


section \<open>Certificates\<close>

text \<open>
  The key usage masks are passed as bit numbers: no certificate of an authority has the bits that permit signing certificates or
  revocation lists.
\<close>

theorem authority_may_not_sign:
  assumes "create_x509_cert E c pub ca_key ca_cert True = Some x"
  shows "x5_basic_ca x \<and> KEY_CERT_SIGN_BIT \<notin> set (x5_key_usage x) \<and> CRL_SIGN_BIT \<notin> set (x5_key_usage x)"
  using assms
  by (auto simp: create_x509_cert_def Let_def KEY_CERT_SIGN_BIT_def CRL_SIGN_BIT_def KU_KEY_CERT_SIGN_def KU_CRL_SIGN_def split: if_splits)

theorem authority_may_not_sign_witness:
  "\<exists>x. create_x509_cert demo_km_env demo_config ''k'' None None True = Some x \<and> x5_basic_ca x \<and> KEY_CERT_SIGN_BIT \<notin> set (x5_key_usage x)"
proof -
  obtain x where x: "create_x509_cert demo_km_env demo_config ''k'' None None True = Some x"
    by (simp add: create_x509_cert_def demo_km_env_def Let_def)
  with authority_may_not_sign [OF x] show ?thesis by blast
qed

lemma certificate_created:
  "ke_x509_new E \<Longrightarrow> kp_public_key kp = Some pub \<Longrightarrow> \<exists>cert. generate_certificate E kp c ca km d = Some (Some cert)"
  by (simp add: generate_certificate_def create_x509_cert_def Let_def)

text \<open>A certificate is signed with the key of the authority that was found, else with its own.\<close>

lemma certificate_signer:
  assumes "generate_certificate E kp c ca km d = Some (Some cert)"
  shows "fst (x5_signed_by (ct_certificate cert)) =
    (case (if ca = [] then None else Option.bind (load_key E ca km d) kp_private_key) of Some k \<Rightarrow> k | None \<Rightarrow> the (kp_public_key kp))"
  using assms
  by (auto simp: generate_certificate_def create_x509_cert_def Let_def split: option.splits if_splits)

text \<open>
  The certificate of an authority is stored under the name of its key with a suffix and looked up without it. Unless there is
  a certificate under the bare name, a certificate signed with the authority's key names itself as its issuer.
\<close>

theorem issuer_is_not_authority:
  assumes "dk_files d (cert_file km ca) = None" "generate_certificate E kp c ca km d = Some (Some cert)"
  shows "x5_issuer (ct_certificate cert) = x5_subject (ct_certificate cert) \<and> x5_subject (ct_certificate cert) = subject_name c"
  using assms
  by (auto simp: generate_certificate_def load_certificate_def create_x509_cert_def Let_def split: option.splits if_splits)

text \<open>Storing the certificate the key manager made for the authority does not change that.\<close>

lemma stored_authority_not_found:
  assumes "dk_files d (cert_file km (kp_key_id ca)) = None"
    and "generate_certificate E ca c [] km d = Some (Some cert)" "store_certificate E cert km d = (ok, d')"
  shows "dk_files d' (cert_file km (kp_key_id ca)) = None"
proof -
  have id: "ct_key_id cert = kp_key_id ca @ ''_cert''"
    using assms(2) by (auto simp: generate_certificate_def Let_def split: option.splits)
  have "cert_file km (kp_key_id ca) \<noteq> cert_file km (ct_key_id cert)" by (simp add: id cert_file_def)
  moreover have "cert_file km (kp_key_id ca) \<noteq> tmp_name (cert_file km (ct_key_id cert)) (ke_pid E)"
    by (simp add: id cert_file_def tmp_name_def)
  ultimately show ?thesis using assms(1,3) atomic_store_cases(2)
    by (fastforce simp: store_certificate_def split: if_splits option.splits)
qed

theorem issuer_is_not_authority_witness:
  "\<exists>cert. generate_certificate demo_km_env demo_pair demo_config ''ca'' demo_km key_demo_disk = Some (Some cert)
     \<and> x5_issuer (ct_certificate cert) = [(''CN'', ''leaf'')]"
proof -
  obtain cert where cert: "generate_certificate demo_km_env demo_pair demo_config ''ca'' demo_km key_demo_disk = Some (Some cert)"
  proof -
    have "ke_x509_new demo_km_env" "kp_public_key demo_pair = Some ''k''" by (simp_all add: demo_km_env_def demo_pair_def)
    from certificate_created [OF this, of demo_config "''ca''" demo_km key_demo_disk] that show thesis by blast
  qed
  have "dk_files key_demo_disk (cert_file demo_km ''ca'') = None" by (simp add: key_demo_disk_def)
  from issuer_is_not_authority [OF this cert] cert show ?thesis by (simp add: subject_name_def demo_config_def c_string_def)
qed

text \<open>The validity is computed in 32 bits: 49711 days are less than one.\<close>

lemma validity_wraps: "uint ((49711 :: 32 word) * 24 * 60 * 60) < 86400"
  by simp

end
