(* ===== verification/CertAuthority.thy ===== *)
theory CertAuthority
  imports KeyManager
begin

text \<open>
  \<open>crypto/CertificateAuthority.cpp\<close>: the authority with its revocations, the chain validator and the
  certificate store. Many operations of the source only return a failure; they are modelled as they
  are. Certificates are the records of \<open>KeyManager\<close>, reading and writing PEM the calls of its environment.
\<close>


section \<open>Serial numbers as text\<close>

text \<open>\<open>BN_bn2hex\<close>: upper case, whole bytes.\<close>

definition hex_upper :: "nat \<Rightarrow> char" where
  "hex_upper n = (if n < 10 then char_of (48 + n) else char_of (55 + n))"

definition bn_byte :: "nat \<Rightarrow> string" where
  "bn_byte n = [hex_upper (n div 16), hex_upper (n mod 16)]"

fun bn_bytes :: "nat \<Rightarrow> string" where
  "bn_bytes n = (if n < 256 then bn_byte n else bn_bytes (n div 256) @ bn_byte (n mod 256))"

declare bn_bytes.simps [simp del]

definition bn_bn2hex :: "int \<Rightarrow> string" where
  "bn_bn2hex i = (if i = 0 then ''0'' else if i < 0 then CHR ''-'' # bn_bytes (nat (- i)) else bn_bytes (nat i))"

text \<open>\<open>std::strtol(s, &end, 16)\<close>: an optional sign and prefix, clamped to the range of \<open>long\<close>.\<close>

definition hex_value :: "char \<Rightarrow> nat option" where
  "hex_value c =
     (let n = (of_char c :: nat) in
      if 48 \<le> n \<and> n \<le> 57 then Some (n - 48)
      else if 65 \<le> n \<and> n \<le> 70 then Some (n - 55)
      else if 97 \<le> n \<and> n \<le> 102 then Some (n - 87) else None)"

fun hex_digits :: "nat \<Rightarrow> string \<Rightarrow> nat" where
  "hex_digits acc [] = acc"
| "hex_digits acc (c # cs) = (case hex_value c of Some v \<Rightarrow> hex_digits (acc * 16 + v) cs | None \<Rightarrow> acc)"

definition hex_prefix :: "string \<Rightarrow> string" where
  "hex_prefix u =
     (if length u > 2 \<and> u ! 0 = CHR ''0'' \<and> (u ! 1 = CHR ''x'' \<or> u ! 1 = CHR ''X'') \<and> hex_value (u ! 2) \<noteq> None then drop 2 u else u)"

definition strtol16 :: "string \<Rightarrow> int" where
  "strtol16 s =
     (let t = dropWhile is_space (c_string s);
          neg = (t \<noteq> [] \<and> hd t = CHR ''-'');
          u = (if t \<noteq> [] \<and> (hd t = CHR ''-'' \<or> hd t = CHR ''+'') then tl t else t);
          v = int (hex_digits 0 (hex_prefix u))
      in max (- (2 ^ 63)) (min (2 ^ 63 - 1) (if neg then - v else v)))"


section \<open>The authority\<close>

record revocation_entry =
  re_serial_number :: string
  re_revoked_at :: time
  re_reason :: string
  re_revoked_by :: string

record cert_authority =
  ca_name :: string
  ca_outer_cert_pem :: pem
  ca_revoked_certs :: "(string, revocation_entry) omap"
  ca_cert :: "x509 option"
  ca_key :: "pkey option"
  ca_cert_pem :: pem
  ca_key_pem :: pem

definition new_authority :: "string \<Rightarrow> cert_authority" where
  "new_authority n = \<lparr>ca_name = n, ca_outer_cert_pem = [], ca_revoked_certs = [], ca_cert = None, ca_key = None, ca_cert_pem = [], ca_key_pem = []\<rparr>"

definition initialize_root_ca :: "km_env \<Rightarrow> pem \<Rightarrow> pem \<Rightarrow> cert_authority \<Rightarrow> bool \<times> cert_authority" where
  "initialize_root_ca E key_pem cert_pem ca =
     (let cert = ke_read_x509 E cert_pem; key = ke_read_private E key_pem
      in (cert \<noteq> None \<and> key \<noteq> None, ca\<lparr>ca_key_pem := key_pem, ca_cert_pem := cert_pem, ca_cert := cert, ca_key := key\<rparr>))"

text \<open>The root certificate is not looked at.\<close>

definition load_intermediate_ca :: "km_env \<Rightarrow> pem \<Rightarrow> pem \<Rightarrow> pem \<Rightarrow> cert_authority \<Rightarrow> bool \<times> cert_authority" where
  "load_intermediate_ca E key_pem cert_pem root_cert_pem ca = initialize_root_ca E key_pem cert_pem ca"

definition get_ca_certificate :: "cert_authority \<Rightarrow> pem" where
  "get_ca_certificate ca = ca_outer_cert_pem ca"

text \<open>The operations that issue certificates or judge them are not implemented.\<close>

definition create_root_ca :: "string \<Rightarrow> int \<Rightarrow> cert_authority \<Rightarrow> pem option" where
  "create_root_ca common_name validity_days ca = None"

definition create_intermediate_ca :: "string \<Rightarrow> int \<Rightarrow> cert_authority \<Rightarrow> pem option" where
  "create_intermediate_ca common_name validity_days ca = None"

definition sign_csr :: "pem \<Rightarrow> string \<Rightarrow> string list \<Rightarrow> int \<Rightarrow> cert_authority \<Rightarrow> pem option" where
  "sign_csr csr_pem subject san validity_days ca = None"

definition create_node_certificate :: "node_id \<Rightarrow> string list \<Rightarrow> int \<Rightarrow> cert_authority \<Rightarrow> pem option" where
  "create_node_certificate node_id san validity_days ca = None"

definition create_tls_certificate :: "string \<Rightarrow> string list \<Rightarrow> int \<Rightarrow> cert_authority \<Rightarrow> pem option" where
  "create_tls_certificate common_name san validity_days ca = None"

definition verify_certificate :: "pem \<Rightarrow> pem \<Rightarrow> cert_authority \<Rightarrow> bool" where
  "verify_certificate cert_pem chain_pem ca = False"

definition ca_verify_chain :: "pem list \<Rightarrow> cert_authority \<Rightarrow> bool" where
  "ca_verify_chain cert_chain ca = False"

definition generate_csr :: "string \<Rightarrow> pem \<Rightarrow> string list \<Rightarrow> pem option" where
  "generate_csr common_name private_key_pem san = None"

definition ca_generate_key :: "key_type \<Rightarrow> pem option" where
  "ca_generate_key type = None"

definition revoke_certificate :: "km_env \<Rightarrow> string \<Rightarrow> string \<Rightarrow> cert_authority \<Rightarrow> bool \<times> cert_authority" where
  "revoke_certificate E serial_number reason ca =
     (True, ca\<lparr>ca_revoked_certs := omap_insert serial_number
        \<lparr>re_serial_number = serial_number, re_revoked_at = ke_system_now E, re_reason = reason, re_revoked_by = ca_name ca\<rparr> (ca_revoked_certs ca)\<rparr>)"

definition is_revoked :: "string \<Rightarrow> cert_authority \<Rightarrow> bool" where
  "is_revoked serial_number ca \<longleftrightarrow> omap_lookup (ca_revoked_certs ca) serial_number \<noteq> None"

definition list_revoked_serials :: "cert_authority \<Rightarrow> string list" where
  "list_revoked_serials ca = map fst (ca_revoked_certs ca)"

text \<open>The revocation list; \<open>X509_CRL_sign\<close> with SHA-256 does not sign with an Edwards curve key, and its result is not looked at.\<close>

record x509_crl =
  crl_version :: int
  crl_issuer :: x509_name
  crl_last_update :: int
  crl_next_update :: int
  crl_revoked :: "(int \<times> int) list"
  crl_signed_by :: "pkey option"

definition build_crl :: "km_env \<Rightarrow> cert_authority \<Rightarrow> x509_crl option" where
  "build_crl E ca =
     (case (ca_cert ca, ca_key ca) of
        (Some cert, Some key) \<Rightarrow> Some
          \<lparr>crl_version = 1, crl_issuer = x5_issuer cert, crl_last_update = dsecs (ke_system_now E),
           crl_next_update = dsecs (ke_system_now E + 86400000000000),
           crl_revoked = map (\<lambda>(serial, entry). (strtol16 serial, dsecs (re_revoked_at entry))) (ca_revoked_certs ca),
           crl_signed_by = (if is_edwards E key then None else Some key)\<rparr>
      | _ \<Rightarrow> None)"

definition get_crl :: "(x509_crl \<Rightarrow> pem) \<Rightarrow> km_env \<Rightarrow> cert_authority \<Rightarrow> pem option" where
  "get_crl write_crl E ca = map_option write_crl (build_crl E ca)"

definition get_cert_serial :: "km_env \<Rightarrow> pem \<Rightarrow> string" where
  "get_cert_serial E cert_pem = (case ke_read_x509 E cert_pem of None \<Rightarrow> [] | Some x \<Rightarrow> bn_bn2hex (x5_serial x))"

definition get_cert_subject :: "(x509_name \<Rightarrow> string) \<Rightarrow> km_env \<Rightarrow> pem \<Rightarrow> string" where
  "get_cert_subject oneline E cert_pem = (case ke_read_x509 E cert_pem of None \<Rightarrow> [] | Some x \<Rightarrow> oneline (x5_subject x))"

text \<open>\<open>mktime\<close> takes the broken-down time, which is in UTC, for local time \<open>tz\<close> seconds east of it.\<close>

definition local_mktime :: "int \<Rightarrow> int \<Rightarrow> time" where
  "local_mktime tz t = (t - tz) * 1000000000"

definition get_cert_not_before :: "int \<Rightarrow> km_env \<Rightarrow> pem \<Rightarrow> time" where
  "get_cert_not_before tz E cert_pem = (case ke_read_x509 E cert_pem of None \<Rightarrow> 0 | Some x \<Rightarrow> local_mktime tz (x5_not_before x))"

definition get_cert_not_after :: "int \<Rightarrow> km_env \<Rightarrow> pem \<Rightarrow> time" where
  "get_cert_not_after tz E cert_pem = (case ke_read_x509 E cert_pem of None \<Rightarrow> 0 | Some x \<Rightarrow> local_mktime tz (x5_not_after x))"


section \<open>The validator\<close>

record chain_validator =
  cv_trusted_cas :: "pem list"
  cv_check_revocation :: bool
  cv_check_expiration :: bool
  cv_check_hostname :: bool

definition new_validator :: chain_validator where
  "new_validator = \<lparr>cv_trusted_cas = [], cv_check_revocation = True, cv_check_expiration = True, cv_check_hostname = True\<rparr>"

definition set_revocation_check :: "bool \<Rightarrow> chain_validator \<Rightarrow> chain_validator" where
  "set_revocation_check enable v = v\<lparr>cv_check_revocation := enable\<rparr>"

definition set_expiration_check :: "bool \<Rightarrow> chain_validator \<Rightarrow> chain_validator" where
  "set_expiration_check enable v = v\<lparr>cv_check_expiration := enable\<rparr>"

definition set_hostname_check :: "bool \<Rightarrow> chain_validator \<Rightarrow> chain_validator" where
  "set_hostname_check enable v = v\<lparr>cv_check_hostname := enable\<rparr>"

definition add_trusted_ca :: "pem \<Rightarrow> chain_validator \<Rightarrow> bool \<times> chain_validator" where
  "add_trusted_ca cert_pem v = (True, v\<lparr>cv_trusted_cas := cv_trusted_cas v @ [cert_pem]\<rparr>)"

definition remove_trusted_ca :: "string \<Rightarrow> chain_validator \<Rightarrow> bool" where
  "remove_trusted_ca ca_subject v = False"

definition validate_certificate :: "pem \<Rightarrow> chain_validator \<Rightarrow> bool" where
  "validate_certificate cert_pem v = False"

definition validate_chain :: "pem list \<Rightarrow> chain_validator \<Rightarrow> bool" where
  "validate_chain cert_chain v = False"

definition verify_hostname :: "pem \<Rightarrow> string \<Rightarrow> chain_validator \<Rightarrow> bool" where
  "verify_hostname cert_pem hostname v = False"

definition check_revocation :: "km_env \<Rightarrow> pem \<Rightarrow> chain_validator \<Rightarrow> bool" where
  "check_revocation E cert_pem v = (if \<not> cv_check_revocation v then True else get_cert_serial E cert_pem \<noteq> [])"

definition check_expiration :: "int \<Rightarrow> km_env \<Rightarrow> pem \<Rightarrow> chain_validator \<Rightarrow> bool" where
  "check_expiration tz E cert_pem v = (if \<not> cv_check_expiration v then True else get_cert_not_after tz E cert_pem > ke_system_now E)"


section \<open>The store\<close>

definition cs_cert_path :: "string \<Rightarrow> node_id \<Rightarrow> string" where
  "cs_cert_path storage_path node_id = storage_path @ ''/'' @ node_id @ ''.pem''"

definition cs_key_path :: "string \<Rightarrow> node_id \<Rightarrow> string" where
  "cs_key_path storage_path node_id = storage_path @ ''/'' @ node_id @ ''.key''"

definition crl_path :: "string \<Rightarrow> string" where
  "crl_path storage_path = storage_path @ ''/crl.pem''"

definition store_crl :: "disk_io \<Rightarrow> string \<Rightarrow> pem \<Rightarrow> disk \<Rightarrow> bool \<times> disk" where
  "store_crl io storage_path crl_pem d =
     (if \<not> di_open io then (False, d)
      else if di_good io then (True, write_file io (crl_path storage_path) crl_pem d)
      else (False, write_file io (crl_path storage_path) [] d))"

definition cs_get_crl :: "string \<Rightarrow> disk \<Rightarrow> pem option" where
  "cs_get_crl storage_path d = map_option fst (dk_files d (crl_path storage_path))"

definition cs_store_certificate :: "node_id \<Rightarrow> pem \<Rightarrow> disk \<Rightarrow> bool \<times> disk" where
  "cs_store_certificate node_id cert_pem d = (False, d)"

definition cs_get_certificate :: "node_id \<Rightarrow> disk \<Rightarrow> pem option" where
  "cs_get_certificate node_id d = None"

definition cs_store_key :: "node_id \<Rightarrow> pem \<Rightarrow> disk \<Rightarrow> bool \<times> disk" where
  "cs_store_key node_id key_pem d = (False, d)"

definition cs_get_key :: "node_id \<Rightarrow> disk \<Rightarrow> pem option" where
  "cs_get_key node_id d = None"

definition cs_delete_certificate :: "node_id \<Rightarrow> disk \<Rightarrow> bool \<times> disk" where
  "cs_delete_certificate node_id d = (False, d)"

definition cs_delete_key :: "node_id \<Rightarrow> disk \<Rightarrow> bool \<times> disk" where
  "cs_delete_key node_id d = (False, d)"

definition cs_list_certificates :: "disk \<Rightarrow> string list" where
  "cs_list_certificates d = []"

definition cs_is_expired :: "node_id \<Rightarrow> disk \<Rightarrow> bool" where
  "cs_is_expired node_id d = False"

definition cs_rotate_certificate :: "node_id \<Rightarrow> pem \<Rightarrow> pem \<Rightarrow> disk \<Rightarrow> bool \<times> disk" where
  "cs_rotate_certificate node_id new_cert_pem new_key_pem d = (False, d)"

definition cs_needs_rotation :: "node_id \<Rightarrow> disk \<Rightarrow> bool" where
  "cs_needs_rotation node_id d = False"


section \<open>Vocabulary of the statements\<close>

definition long_range :: "int \<Rightarrow> bool" where
  "long_range i \<longleftrightarrow> - (2 ^ 63) \<le> i \<and> i < 2 ^ 63"

definition revoke_all :: "km_env \<Rightarrow> int list \<Rightarrow> cert_authority \<Rightarrow> cert_authority" where
  "revoke_all E serials ca = fold (\<lambda>s ca. snd (revoke_certificate E (bn_bn2hex s) ''Unspecified'' ca)) serials ca"

definition demo_ca :: cert_authority where
  "demo_ca = (new_authority ''CA'')\<lparr>ca_cert := Some (the (create_x509_cert demo_km_env demo_config ''k'' None None True)), ca_key := Some ''k''\<rparr>"


section \<open>Serial numbers are read back\<close>

lemma hex_value_upper [simp]: "n < 16 \<Longrightarrow> hex_value (hex_upper n) = Some n"
  by (auto simp: hex_value_def hex_upper_def)

lemma hex_digits_append:
  "\<forall>c\<in>set s. hex_value c \<noteq> None \<Longrightarrow> hex_digits acc (s @ t) = hex_digits (hex_digits acc s) t"
  by (induction s arbitrary: acc) auto

lemma bn_bytes_hex: "\<forall>c\<in>set (bn_bytes n). hex_value c \<noteq> None"
proof (induction n rule: bn_bytes.induct)
  case (1 n)
  then show ?case by (subst bn_bytes.simps) (auto simp: bn_byte_def)
qed

lemma hex_digits_bn_bytes: "hex_digits 0 (bn_bytes n) = n"
proof (induction n rule: bn_bytes.induct)
  case (1 n)
  have byte: "hex_digits acc (bn_byte m) = acc * 256 + m" if "m < 256" for acc m
    using that by (simp add: bn_byte_def)
  show ?case
  proof (cases "n < 256")
    case True
    then show ?thesis using byte [of n 0] by (subst bn_bytes.simps) simp
  next
    case False
    have "hex_digits 0 (bn_bytes (n div 256) @ bn_byte (n mod 256)) = hex_digits (n div 256) (bn_byte (n mod 256))"
      using 1 [OF False] hex_digits_append [of "bn_bytes (n div 256)" 0] bn_bytes_hex by simp
    with False byte [of "n mod 256" "n div 256"] show ?thesis by (subst bn_bytes.simps) simp
  qed
qed


lemma hex_value_not_special:
  assumes "hex_value c \<noteq> None"
  shows "c \<noteq> CHR ''-''" "c \<noteq> CHR ''+''" "c \<noteq> CHR ''x''" "c \<noteq> CHR ''X''" "\<not> is_space c" "c \<noteq> CHR 0x00"
  using assms by (auto simp: hex_value_def is_space_def Let_def split: if_splits)

lemma bn_bytes_nonempty [simp]: "bn_bytes n \<noteq> []"
  by (subst bn_bytes.simps) (simp add: bn_byte_def)

lemma strtol16_hex:
  assumes "\<forall>c\<in>set u. hex_value c \<noteq> None" "u \<noteq> []"
  shows "strtol16 u = min (2 ^ 63 - 1) (int (hex_digits 0 u))" "strtol16 (CHR ''-'' # u) = max (- (2 ^ 63)) (- int (hex_digits 0 u))"
proof -
  have zero: "CHR 0x00 \<notin> set u" using assms(1) hex_value_not_special(6) by blast
  have hd: "\<not> is_space (hd u)" "hd u \<noteq> CHR ''-''" "hd u \<noteq> CHR ''+''"
    using assms hex_value_not_special [of "hd u"] by auto
  have x: "hex_prefix u = u"
  proof (cases "length u > 2")
    case True
    then have "u ! 1 \<in> set u" by simp
    then show ?thesis using assms(1) hex_value_not_special(3,4) [of "u ! 1"] by (auto simp: hex_prefix_def)
  qed (simp add: hex_prefix_def)
  have str: "c_string u = u" "c_string (CHR ''-'' # u) = CHR ''-'' # u"
    using zero by (auto intro!: c_string_id)
  have skip: "dropWhile is_space u = u" "dropWhile is_space (CHR ''-'' # u) = CHR ''-'' # u"
    using hd(1) assms(2) by (cases u, simp_all) (simp add: is_space_def)
  show "strtol16 u = min (2 ^ 63 - 1) (int (hex_digits 0 u))"
    unfolding strtol16_def Let_def str skip using hd(2,3) by (simp add: x)
  show "strtol16 (CHR ''-'' # u) = max (- (2 ^ 63)) (- int (hex_digits 0 u))"
    unfolding strtol16_def Let_def str skip by (simp add: x)
qed

lemma serial_read_back:
  assumes "long_range i"
  shows "strtol16 (bn_bn2hex i) = i"
proof -
  consider "i = 0" | "i > 0" | "i < 0" by linarith
  then show ?thesis
  proof cases
    case 1
    have "\<forall>c\<in>set ''0''. hex_value c \<noteq> None" by (simp add: hex_value_def)
    from strtol16_hex(1) [OF this] show ?thesis using 1 by (simp add: bn_bn2hex_def hex_value_def)
  next
    case 2
    then show ?thesis using strtol16_hex(1) [OF bn_bytes_hex bn_bytes_nonempty, of "nat i"] assms
      by (simp add: bn_bn2hex_def hex_digits_bn_bytes long_range_def min_def)
  next
    case 3
    then show ?thesis using strtol16_hex(2) [OF bn_bytes_hex bn_bytes_nonempty, of "nat (- i)"] assms
      by (simp add: bn_bn2hex_def hex_digits_bn_bytes long_range_def max_def)
  qed
qed


section \<open>Revocation\<close>

lemma revoked_keys: "fst ` set (ca_revoked_certs (revoke_all E serials ca)) = bn_bn2hex ` set serials \<union> fst ` set (ca_revoked_certs ca)"
  unfolding revoke_all_def
  by (induction serials arbitrary: ca) (auto simp: revoke_certificate_def set_omap_insert)

lemma revoke_all_keys [simp]: "ca_cert (revoke_all E serials ca) = ca_cert ca" "ca_key (revoke_all E serials ca) = ca_key ca"
  unfolding revoke_all_def by (induction serials arbitrary: ca) (simp_all add: revoke_certificate_def)

text \<open>
  C36. The revocation list of an authority with a certificate and a key exists and names exactly the serial numbers of the
  certificates that were revoked, as long as they fit a long integer, which the serial numbers of the key manager do.
\<close>

theorem crl_exact:
  assumes "ca_revoked_certs ca = []" "ca_cert ca = Some cert" "ca_key ca = Some key" "\<forall>s\<in>set serials. long_range s"
  shows "\<exists>crl. build_crl E (revoke_all E serials ca) = Some crl \<and> fst ` set (crl_revoked crl) = set serials"
proof -
  obtain crl where crl: "build_crl E (revoke_all E serials ca) = Some crl"
    and rev: "crl_revoked crl = map (\<lambda>(s, e). (strtol16 s, dsecs (re_revoked_at e))) (ca_revoked_certs (revoke_all E serials ca))"
    using assms(2,3) by (simp add: build_crl_def)
  have "fst ` set (crl_revoked crl) = strtol16 ` fst ` set (ca_revoked_certs (revoke_all E serials ca))"
    by (force simp: rev image_iff)
  also have "\<dots> = (\<lambda>s. strtol16 (bn_bn2hex s)) ` set serials" by (simp add: revoked_keys assms(1) image_image)
  also have "\<dots> = set serials" using assms(4) serial_read_back by force
  finally show ?thesis using crl by blast
qed

theorem crl_exact_witness:
  "\<exists>crl. build_crl demo_km_env (revoke_all demo_km_env [10, -3] demo_ca) = Some crl \<and> fst ` set (crl_revoked crl) = {10, -3}"
  using crl_exact [of demo_ca _ "''k''" "[10, -3]" demo_km_env] by (simp add: demo_ca_def new_authority_def long_range_def)

text \<open>
  A longer serial number is not listed: every revoked certificate whose serial number exceeds the range, as those of
  other authorities usually do, appears as the largest long integer.
\<close>

theorem long_serials_collapse:
  assumes "2 ^ 63 \<le> s"
  shows "strtol16 (bn_bn2hex s) = 2 ^ 63 - 1"
  using strtol16_hex(1) [OF bn_bytes_hex bn_bytes_nonempty, of "nat s"] assms by (simp add: bn_bn2hex_def hex_digits_bn_bytes min_def)

theorem long_serials_collapse_witness: "2 ^ 63 \<le> (2 ^ 64 :: int) \<and> strtol16 (bn_bn2hex (2 ^ 64)) = 2 ^ 63 - 1"
  using long_serials_collapse [of "2 ^ 64"] by simp

text \<open>The list of an authority with an Edwards curve key is not signed, and the list of an intermediate authority names
  the wrong issuer.\<close>

lemma crl_unsigned: "ca_key ca = Some key \<Longrightarrow> is_edwards E key \<Longrightarrow> build_crl E ca = Some crl \<Longrightarrow> crl_signed_by crl = None"
  by (auto simp: build_crl_def split: option.splits)

lemma crl_issuer_of_intermediate: "ca_cert ca = Some cert \<Longrightarrow> build_crl E ca = Some crl \<Longrightarrow> crl_issuer crl = x5_issuer cert"
  by (auto simp: build_crl_def split: option.splits)

text \<open>The certificate of an initialised authority is never handed out.\<close>

lemma ca_certificate_lost: "get_ca_certificate (snd (initialize_root_ca E key_pem cert_pem (new_authority n))) = []"
  by (simp add: get_ca_certificate_def initialize_root_ca_def new_authority_def Let_def)

text \<open>
  The revocation check of the validator consults no list: it accepts every certificate that can be read, also one the
  authority has revoked.
\<close>

theorem revoked_certificate_accepted:
  assumes "ke_read_x509 E cert_pem = Some x"
  shows "is_revoked (get_cert_serial E cert_pem) (snd (revoke_certificate E (get_cert_serial E cert_pem) reason (new_authority n)))
    \<and> check_revocation E cert_pem v"
  using assms
  by (simp add: is_revoked_def revoke_certificate_def new_authority_def check_revocation_def get_cert_serial_def bn_bn2hex_def)

theorem revoked_certificate_accepted_witness:
  "let E = demo_km_env\<lparr>ke_read_x509 := (\<lambda>_. ca_cert demo_ca)\<rparr>
   in is_revoked (get_cert_serial E ''c'') (snd (revoke_certificate E (get_cert_serial E ''c'') [] (new_authority ''CA''))) \<and> check_revocation E ''c'' new_validator"
  using revoked_certificate_accepted [of "demo_km_env\<lparr>ke_read_x509 := (\<lambda>_. ca_cert demo_ca)\<rparr>" "''c''" "the (ca_cert demo_ca)" "[]" "''CA''" new_validator]
  by (simp add: demo_ca_def)

text \<open>West of Greenwich an expired certificate passes for as long as the clock is behind.\<close>

lemma expired_certificate_accepted:
  assumes "ke_read_x509 E cert_pem = Some x" "ke_system_now E = (x5_not_after x + 1) * 1000000000" "tz < -1"
  shows "check_expiration tz E cert_pem new_validator"
  using assms by (simp add: check_expiration_def new_validator_def get_cert_not_after_def local_mktime_def)

lemma stored_crl_read: "store_crl io p crl d = (True, d') \<Longrightarrow> cs_get_crl p d' = Some crl"
  by (auto simp: store_crl_def cs_get_crl_def write_file_def Let_def split: if_splits)

end
