(* ===== verification/Transport.thy ===== *)
theory Transport
  imports Net Rate_Limit
begin

text \<open>
  \<open>net/TransportLayer.cpp\<close>: the TLS contexts, the transport with its table of sessions, and peer
  discovery by unsigned beacons. What the kernel and OpenSSL return is a record argument; descriptors and
  sessions that are opened, shut down, freed and closed are a trace, in the order of the code.
\<close>


section \<open>TLS contexts\<close>

record tls_config =
  tc_cert_path :: string
  tc_key_path :: string
  tc_ca_path :: string
  tc_verify_client :: bool
  tc_ciphers :: string
  tc_enable_tls13 :: bool
  tc_enable_mtls :: bool

record ssl_ctx =
  sc_min_tls13 :: bool
  sc_ciphersuites :: string
  sc_cipher_list :: string
  sc_security_level :: nat
  sc_certificate :: "string option"
  sc_private_key :: "string option"
  sc_ca_file :: "string option"
  sc_verify_peer :: bool
  sc_fail_if_no_peer_cert :: bool
  sc_client_ca_list :: "string option"
  sc_store :: "string list"

definition fresh_ctx :: ssl_ctx where
  "fresh_ctx = \<lparr>sc_min_tls13 = False, sc_ciphersuites = [], sc_cipher_list = [], sc_security_level = 1, sc_certificate = None,
     sc_private_key = None, sc_ca_file = None, sc_verify_peer = False, sc_fail_if_no_peer_cert = False, sc_client_ca_list = None, sc_store = []\<rparr>"

record tls_env =
  te_server_new :: bool
  te_client_new :: bool
  te_errors :: string
  te_use_certificate :: "string \<Rightarrow> bool"
  te_use_private_key :: "string \<Rightarrow> bool"
  te_check_private_key :: "string \<Rightarrow> string \<Rightarrow> bool"
  te_load_verify :: "string \<Rightarrow> bool"
  te_read_x509 :: "string \<Rightarrow> bool"

record tls_context =
  tx_config :: tls_config
  tx_server :: ssl_ctx
  tx_client :: ssl_ctx

definition protocol_settings :: "tls_config \<Rightarrow> ssl_ctx \<Rightarrow> ssl_ctx" where
  "protocol_settings c x =
     (let x = (if tc_enable_tls13 c then x\<lparr>sc_min_tls13 := True, sc_ciphersuites := ''TLS_AES_256_GCM_SHA384:TLS_AES_128_GCM_SHA256''\<rparr> else x)
      in x\<lparr>sc_cipher_list := c_string (tc_ciphers c), sc_security_level := 2\<rparr>)"

definition tls_load_certificate :: "tls_env \<Rightarrow> tls_context \<Rightarrow> bool \<times> tls_context" where
  "tls_load_certificate E t =
     (let cert = tc_cert_path (tx_config t); key = tc_key_path (tx_config t); s = tx_server t in
      if cert = [] \<or> key = [] then (False, t)
      else if \<not> te_use_certificate E (c_string cert) then (False, t)
      else
        let s = s\<lparr>sc_certificate := Some cert\<rparr> in
        if \<not> te_use_private_key E (c_string key) then (False, t\<lparr>tx_server := s\<rparr>)
        else let s = s\<lparr>sc_private_key := Some key\<rparr> in (te_check_private_key E (c_string cert) (c_string key), t\<lparr>tx_server := s\<rparr>))"

definition load_ca_certificate :: "tls_env \<Rightarrow> tls_context \<Rightarrow> bool \<times> tls_context" where
  "load_ca_certificate E t =
     (let c = tx_config t; ca = tc_ca_path c in
      if ca = [] \<or> \<not> te_load_verify E (c_string ca) then (False, t)
      else
        let s = (tx_server t)\<lparr>sc_ca_file := Some ca\<rparr>;
            s = (if tc_verify_client c \<or> tc_enable_mtls c
                 then s\<lparr>sc_verify_peer := True, sc_fail_if_no_peer_cert := True, sc_client_ca_list := Some ca\<rparr> else s)
        in (True, t\<lparr>tx_server := s, tx_client := (tx_client t)\<lparr>sc_ca_file := Some ca, sc_verify_peer := True\<rparr>\<rparr>))"

text \<open>The constructor does not look at the results of the two loaders.\<close>

definition new_tls_context :: "tls_env \<Rightarrow> tls_config \<Rightarrow> string + tls_context" where
  "new_tls_context E c =
     (if \<not> te_server_new E \<or> \<not> te_client_new E then Inl (''Failed to create SSL contexts: '' @ te_errors E)
      else
        let t = \<lparr>tx_config = c, tx_server = protocol_settings c fresh_ctx, tx_client = protocol_settings c fresh_ctx\<rparr>;
            t = (if tc_cert_path c \<noteq> [] \<and> tc_key_path c \<noteq> [] then snd (tls_load_certificate E t) else t);
            t = (if tc_ca_path c \<noteq> [] then snd (load_ca_certificate E t) else t)
        in Inr t)"

definition trust_peer_cert :: "tls_env \<Rightarrow> string \<Rightarrow> tls_context \<Rightarrow> bool \<times> tls_context" where
  "trust_peer_cert E pem_cert t =
     (if \<not> te_read_x509 E pem_cert then (False, t)
      else (True, t\<lparr>tx_server := (tx_server t)\<lparr>sc_store := sc_store (tx_server t) @ [pem_cert]\<rparr>,
                    tx_client := (tx_client t)\<lparr>sc_store := sc_store (tx_client t) @ [pem_cert]\<rparr>\<rparr>))"


section \<open>The transport\<close>

datatype tl_out =
    FdOpened int
  | FdClosed int
  | BoundAddr "nat list" "16 word"
  | SslNew nat
  | SslShutdown nat
  | SslFree nat

record transport =
  tl_tls :: tls_context
  tl_server_fd :: int
  tl_active_ssl :: "(int, nat) omap"
  tl_running :: bool
  tl_rate_ts :: time
  tl_accept_rate :: int
  tl_next_ssl :: nat
  tl_outs :: "tl_out list"

definition new_transport :: "tls_env \<Rightarrow> tls_config \<Rightarrow> string + transport" where
  "new_transport E c =
     map_sum id (\<lambda>t. \<lparr>tl_tls = t, tl_server_fd = -1, tl_active_ssl = [], tl_running = False, tl_rate_ts = 0, tl_accept_rate = 0,
        tl_next_ssl = 0, tl_outs = []\<rparr>) (new_tls_context E c)"

definition tl_emit :: "tl_out list \<Rightarrow> transport \<Rightarrow> transport" where
  "tl_emit os t = t\<lparr>tl_outs := tl_outs t @ os\<rparr>"

text \<open>The session is shut down, the descriptor closed, and the session destroyed at the end of the function, where its deleter shuts it down again.\<close>

definition tl_close :: "int \<Rightarrow> transport \<Rightarrow> transport" where
  "tl_close fd t =
     (let fd_closed = (if fd \<ge> 0 then [FdClosed fd] else []) in
      case omap_lookup (tl_active_ssl t) fd of
        Some s \<Rightarrow> tl_emit ([SslShutdown s] @ fd_closed @ [SslShutdown s, SslFree s]) (t\<lparr>tl_active_ssl := omap_erase fd (tl_active_ssl t)\<rparr>)
      | None \<Rightarrow> tl_emit fd_closed t)"

text \<open>\<open>order\<close> is the order in which the table is traversed.\<close>

definition drop_session :: "transport \<Rightarrow> int \<Rightarrow> tl_out list" where
  "drop_session t fd =
     (case omap_lookup (tl_active_ssl t) fd of
        Some s \<Rightarrow> [SslShutdown s, SslShutdown s, SslFree s] @ (if fd \<ge> 0 then [FdClosed fd] else [])
      | None \<Rightarrow> [])"

definition tl_shutdown :: "int list \<Rightarrow> transport \<Rightarrow> transport" where
  "tl_shutdown order t =
     (let os = concat (map (drop_session t) order);
          t = tl_emit os (t\<lparr>tl_running := False, tl_active_ssl := []\<rparr>)
      in if tl_server_fd t \<ge> 0 then (tl_emit [FdClosed (tl_server_fd t)] t)\<lparr>tl_server_fd := -1\<rparr> else t)"

record bind_io =
  bi_socket :: int
  bi_setsockopt :: bool
  bi_bind :: bool

definition bind_address :: "string \<Rightarrow> nat list" where
  "bind_address address =
     (if address = [] \<or> address = ''0.0.0.0'' \<or> address = ''::'' then [0, 0, 0, 0]
      else case inet_pton4 (c_string address) of Some a \<Rightarrow> a | None \<Rightarrow> [0, 0, 0, 0])"

definition tl_bind :: "bind_io \<Rightarrow> string \<Rightarrow> 16 word \<Rightarrow> transport \<Rightarrow> bool \<times> transport" where
  "tl_bind io address port t =
     (let fd = bi_socket io; t = t\<lparr>tl_server_fd := fd\<rparr> in
      if fd < 0 then (False, t)
      else
        let t = tl_emit [FdOpened fd] t in
        if \<not> bi_setsockopt io \<or> \<not> bi_bind io then (False, (tl_close fd t)\<lparr>tl_server_fd := -1\<rparr>)
        else (True, tl_emit [BoundAddr (bind_address address) port] (t\<lparr>tl_running := True\<rparr>)))"

definition tl_listen :: "bool \<Rightarrow> transport \<Rightarrow> bool" where
  "tl_listen ok t \<longleftrightarrow> tl_server_fd t \<ge> 0 \<and> ok"

text \<open>The window of the accept limit, and the count of accepted connections in it.\<close>

definition accept_window :: "time \<Rightarrow> transport \<Rightarrow> bool \<times> transport" where
  "accept_window now t =
     (let t = (if dsecs (now - tl_rate_ts t) \<ge> 1 then t\<lparr>tl_accept_rate := 0, tl_rate_ts := now\<rparr> else t)
      in (tl_accept_rate t < 50, t))"

text \<open>
  The handshake: the result of the i-th call of \<open>SSL_do_handshake\<close>, and of the call of
  \<open>poll\<close> after it, which waits at most three seconds. \<open>None\<close> is a loop that does not end.
\<close>

datatype handshake_event = HsDone | HsFatal | HsWant int

partial_function (option) handshake :: "(nat \<Rightarrow> handshake_event) \<Rightarrow> nat \<Rightarrow> bool option" where
  "handshake ev i =
     (case ev i of
        HsDone \<Rightarrow> Some True
      | HsFatal \<Rightarrow> Some False
      | HsWant pr \<Rightarrow> if pr \<le> 0 then Some False else handshake ev (i + 1))"

record accept_io =
  ac_now :: time
  ac_accept4 :: int
  ac_ssl_new :: bool
  ac_handshake :: "nat \<Rightarrow> handshake_event"

text \<open>From the accepted descriptor on.\<close>

definition accept_session :: "accept_io \<Rightarrow> int \<Rightarrow> transport \<Rightarrow> (int \<times> transport) option" where
  "accept_session io fd t =
     (let s = tl_next_ssl t; t = tl_emit [FdOpened fd] t in
      if \<not> ac_ssl_new io then Some (-1, tl_close fd t)
      else
        let t = tl_emit [SslNew s] (t\<lparr>tl_next_ssl := s + 1\<rparr>) in
        case handshake (ac_handshake io) 0 of
          None \<Rightarrow> None
        | Some False \<Rightarrow> Some (-1, tl_close fd (tl_emit [SslFree s] t))
        | Some True \<Rightarrow> Some (fd, t\<lparr>tl_active_ssl := omap_insert fd s (tl_active_ssl t)\<rparr>))"

definition tl_accept :: "accept_io \<Rightarrow> transport \<Rightarrow> (int \<times> transport) option" where
  "tl_accept io t =
     (if tl_server_fd t < 0 then Some (-1, t)
      else
        let (ok, t) = accept_window (ac_now io) t in
        if \<not> ok \<or> length (tl_active_ssl t) \<ge> 256 \<or> ac_accept4 io < 0 then Some (-1, t)
        else accept_session io (ac_accept4 io) (t\<lparr>tl_accept_rate := tl_accept_rate t + 1\<rparr>))"

record connect_io =
  co_socket :: int
  co_connect :: bool
  co_ssl_new :: bool
  co_ssl_connect :: bool
  co_verify_ok :: bool

definition tl_connect :: "connect_io \<Rightarrow> transport \<Rightarrow> int \<times> transport" where
  "tl_connect io t =
     (let fd = co_socket io; s = tl_next_ssl t in
      if fd < 0 then (-1, t)
      else
        let t = tl_emit [FdOpened fd] t in
        if \<not> co_connect io \<or> \<not> co_ssl_new io then (-1, tl_close fd t)
        else
          let t = tl_emit [SslNew s] (t\<lparr>tl_next_ssl := s + 1\<rparr>) in
          if \<not> co_ssl_connect io \<or> \<not> co_verify_ok io then (-1, tl_close fd (tl_emit [SslFree s] t))
          else (fd, t\<lparr>tl_active_ssl := omap_insert fd s (tl_active_ssl t)\<rparr>))"

text \<open>The loop of \<open>send\<close>: \<open>w sent\<close> is what the call at that offset returned.\<close>

function send_loop :: "(nat \<Rightarrow> int) \<Rightarrow> nat \<Rightarrow> nat \<Rightarrow> int" where
  "send_loop w len sent =
     (if sent < len
      then if w sent \<le> 0 then (if sent > 0 then int sent else -1) else send_loop w len (sent + nat (w sent))
      else int sent)"
  by pat_completeness auto

termination send_loop
  by (relation "measure (\<lambda>(w, len, sent). len - sent)") auto

declare send_loop.simps [simp del]

definition tl_send :: "(nat \<Rightarrow> int) \<Rightarrow> (nat \<Rightarrow> int) \<Rightarrow> int \<Rightarrow> nat \<Rightarrow> transport \<Rightarrow> int" where
  "tl_send plain ssl fd len t =
     (case omap_lookup (tl_active_ssl t) fd of None \<Rightarrow> send_loop plain len 0 | Some _ \<Rightarrow> send_loop ssl len 0)"

definition tl_recv :: "int \<Rightarrow> int \<Rightarrow> int \<Rightarrow> transport \<Rightarrow> int" where
  "tl_recv plain ssl fd t = (case omap_lookup (tl_active_ssl t) fd of None \<Rightarrow> plain | Some _ \<Rightarrow> ssl)"

record connection_info =
  ci_peer_ip :: string
  ci_peer_port :: "16 word"
  ci_subject_cn :: string
  ci_verified :: bool

text \<open>The certificate the peer sent, if any, as its common name; the result of the verification; the address of the peer.\<close>

record session_io =
  se_peer_cert :: "string option option"
  se_verify_ok :: bool
  se_peername :: "(nat list \<times> 16 word) option"

definition get_connection_info :: "session_io \<Rightarrow> int \<Rightarrow> transport \<Rightarrow> connection_info option" where
  "get_connection_info io fd t =
     (case (omap_lookup (tl_active_ssl t) fd, se_peer_cert io) of
        (Some _, Some cn) \<Rightarrow> Some
          \<lparr>ci_peer_ip = (case se_peername io of Some (a, _) \<Rightarrow> inet_ntop4 a | None \<Rightarrow> []),
           ci_peer_port = (case se_peername io of Some (_, p) \<Rightarrow> p | None \<Rightarrow> 0),
           ci_subject_cn = (case cn of Some n \<Rightarrow> c_string n | None \<Rightarrow> []),
           ci_verified = se_verify_ok io\<rparr>
      | _ \<Rightarrow> None)"


section \<open>Peer discovery\<close>

record peer_info =
  pi_node_id :: node_id
  pi_ip :: string
  pi_port :: "16 word"
  pi_public_key_pem :: pem
  pi_last_seen :: time
  pi_is_verified :: bool
  pi_connection_count :: "32 word"

record discovery =
  pd_beacon_port :: "16 word"
  pd_peer_timeout_ms :: "16 word"
  pd_node_id :: node_id
  pd_beacon_sock :: int
  pd_running :: bool
  pd_peers :: "node_id \<rightharpoonup> peer_info"
  pd_discovered :: "peer_info list"
  pd_lost :: "node_id list"

definition new_discovery :: "node_id \<Rightarrow> discovery" where
  "new_discovery node_id =
     \<lparr>pd_beacon_port = 9998, pd_peer_timeout_ms = 15000, pd_node_id = node_id, pd_beacon_sock = -1, pd_running = False,
      pd_peers = Map.empty, pd_discovered = [], pd_lost = []\<rparr>"

definition pd_start :: "int \<Rightarrow> bool \<Rightarrow> discovery \<Rightarrow> bool \<times> discovery" where
  "pd_start sock bind_ok p =
     (if pd_running p then (True, p)
      else if sock < 0 then (False, p)
      else if \<not> bind_ok then (False, p\<lparr>pd_beacon_sock := -1\<rparr>)
      else (True, p\<lparr>pd_beacon_sock := sock, pd_running := True\<rparr>))"

definition pd_stop :: "discovery \<Rightarrow> discovery" where
  "pd_stop p = (if \<not> pd_running p then p else p\<lparr>pd_running := False, pd_beacon_sock := -1\<rparr>)"

definition split_bar :: "string \<Rightarrow> (string \<times> string) option" where
  "split_bar s =
     (let a = takeWhile (\<lambda>c. c \<noteq> CHR ''|'') s in if length a < length s then Some (a, drop (length a + 1) s) else None)"

definition read_discovery :: "string \<Rightarrow> (node_id \<times> string \<times> 16 word) option" where
  "read_discovery payload =
     (case split_bar payload of
        None \<Rightarrow> None
      | Some (node_id, rest) \<Rightarrow>
          (case split_bar rest of
             None \<Rightarrow> None
           | Some (ip, port) \<Rightarrow> map_option (\<lambda>(v, _). (node_id, ip, word_of_int v)) (stoi port)))"

text \<open>The address of the peer is the source of the datagram, not the one in its text.\<close>

definition handle_incoming_beacon :: "time \<Rightarrow> string \<Rightarrow> nat list \<Rightarrow> discovery \<Rightarrow> bool \<times> discovery" where
  "handle_incoming_beacon now payload src p =
     (case read_discovery payload of
        None \<Rightarrow> (False, p)
      | Some (node_id, _, port) \<Rightarrow>
          if node_id = pd_node_id p then (False, p)
          else
            (True,
             case pd_peers p node_id of
               None \<Rightarrow>
                 let peer = \<lparr>pi_node_id = node_id, pi_ip = inet_ntop4 src, pi_port = port, pi_public_key_pem = [],
                             pi_last_seen = now, pi_is_verified = False, pi_connection_count = 0\<rparr>
                 in p\<lparr>pd_peers := (pd_peers p)(node_id \<mapsto> peer), pd_discovered := pd_discovered p @ [peer]\<rparr>
             | Some peer \<Rightarrow>
                 p\<lparr>pd_peers := (pd_peers p)(node_id \<mapsto> peer\<lparr>pi_last_seen := now, pi_ip := inet_ntop4 src, pi_port := port\<rparr>)\<rparr>))"

definition stale :: "time \<Rightarrow> discovery \<Rightarrow> node_id \<Rightarrow> bool" where
  "stale now p n = (case pd_peers p n of None \<Rightarrow> False | Some peer \<Rightarrow> dmillis (now - pi_last_seen peer) > uint (pd_peer_timeout_ms p))"

text \<open>\<open>order\<close> is the order in which the map is traversed.\<close>

definition pd_cleanup :: "node_id list \<Rightarrow> time \<Rightarrow> discovery \<Rightarrow> discovery" where
  "pd_cleanup order now p =
     p\<lparr>pd_peers := (\<lambda>n. if stale now p n then None else pd_peers p n), pd_lost := pd_lost p @ filter (stale now p) order\<rparr>"

definition beacon_iteration :: "node_id list \<Rightarrow> time \<Rightarrow> (string \<times> nat list) option \<Rightarrow> discovery \<Rightarrow> discovery" where
  "beacon_iteration order now datagram p =
     (let p = (case datagram of
                 Some (payload, src) \<Rightarrow> if payload \<noteq> [] then snd (handle_incoming_beacon now (take 4095 payload) src p) else p
               | None \<Rightarrow> p)
      in pd_cleanup order now p)"

definition get_active_peers :: "node_id list \<Rightarrow> discovery \<Rightarrow> peer_info list" where
  "get_active_peers order p = List.map_filter (pd_peers p) order"

definition pd_get_peer :: "node_id \<Rightarrow> discovery \<Rightarrow> peer_info option" where
  "pd_get_peer node_id p = pd_peers p node_id"

definition announcement :: "node_id \<Rightarrow> string \<Rightarrow> 16 word \<Rightarrow> string" where
  "announcement node_id ip port = node_id @ ''|'' @ ip @ ''|'' @ nat_str (unat port)"

text \<open>The datagram that is broadcast, if there is a socket, and whether all of it was sent.\<close>

definition announce_peer :: "int \<Rightarrow> peer_info \<Rightarrow> discovery \<Rightarrow> bool \<times> string option" where
  "announce_peer sent peer p =
     (if pd_beacon_sock p < 0 then (False, None)
      else let payload = announcement (pd_node_id p) (pi_ip peer) (pi_port peer) in (sent = int (length payload), Some payload))"

definition verify_peer :: "node_id \<Rightarrow> pem \<Rightarrow> discovery \<Rightarrow> bool \<times> discovery" where
  "verify_peer node_id public_key_pem p =
     (case pd_peers p node_id of
        Some peer \<Rightarrow> (True, p\<lparr>pd_peers := (pd_peers p)(node_id \<mapsto> peer\<lparr>pi_public_key_pem := public_key_pem, pi_is_verified := True\<rparr>)\<rparr>)
      | None \<Rightarrow> (False, p))"


section \<open>Vocabulary of the statements\<close>

text \<open>The descriptors and sessions a trace leaves open; \<open>None\<close> when it closes or frees one that is not.\<close>

fun held :: "(int list \<times> nat list) \<Rightarrow> tl_out list \<Rightarrow> (int list \<times> nat list) option" where
  "held h [] = Some h"
| "held (fds, ss) (FdOpened fd # os) = held (fd # fds, ss) os"
| "held (fds, ss) (FdClosed fd # os) = (if fd \<in> set fds then held (remove1 fd fds, ss) os else None)"
| "held (fds, ss) (SslNew s # os) = held (fds, s # ss) os"
| "held (fds, ss) (SslFree s # os) = (if s \<in> set ss then held (fds, remove1 s ss) os else None)"
| "held h (SslShutdown s # os) = held h os"
| "held h (BoundAddr a p # os) = held h os"

definition added :: "transport \<Rightarrow> transport \<Rightarrow> tl_out list" where
  "added t t' = drop (length (tl_outs t)) (tl_outs t')"

definition demo_transport :: transport where
  "demo_transport =
     \<lparr>tl_tls = \<lparr>tx_config = \<lparr>tc_cert_path = [], tc_key_path = [], tc_ca_path = [], tc_verify_client = False, tc_ciphers = [],
         tc_enable_tls13 = True, tc_enable_mtls = True\<rparr>, tx_server = fresh_ctx, tx_client = fresh_ctx\<rparr>,
      tl_server_fd = 3, tl_active_ssl = [], tl_running = True, tl_rate_ts = 0, tl_accept_rate = 0, tl_next_ssl = 0, tl_outs = []\<rparr>"

text \<open>What an operation that may open one connection leaves behind.\<close>

definition owns :: "transport \<Rightarrow> int \<Rightarrow> transport \<Rightarrow> bool" where
  "owns t r t' \<longleftrightarrow>
     held ([], []) (added t t') = Some (if r \<ge> 0 then ([r], [tl_next_ssl t]) else ([], []))
     \<and> tl_active_ssl t' = (if r \<ge> 0 then omap_insert r (tl_next_ssl t) (tl_active_ssl t) else tl_active_ssl t)"

definition demo_accept :: "(nat \<Rightarrow> handshake_event) \<Rightarrow> accept_io" where
  "demo_accept ev = \<lparr>ac_now = 5, ac_accept4 = 7, ac_ssl_new = True, ac_handshake = ev\<rparr>"

definition demo_connect :: connect_io where
  "demo_connect = \<lparr>co_socket = 7, co_connect = True, co_ssl_new = True, co_ssl_connect = True, co_verify_ok = True\<rparr>"

definition demo_tls_env :: tls_env where
  "demo_tls_env = \<lparr>te_server_new = True, te_client_new = True, te_errors = [], te_use_certificate = (\<lambda>_. True), te_use_private_key = (\<lambda>_. True),
     te_check_private_key = (\<lambda>_ _. True), te_load_verify = (\<lambda>_. False), te_read_x509 = (\<lambda>_. True)\<rparr>"

text \<open>The events at which the loop of the handshake ends.\<close>

definition hs_ends :: "handshake_event \<Rightarrow> bool" where
  "hs_ends e = (case e of HsWant pr \<Rightarrow> pr \<le> 0 | _ \<Rightarrow> True)"

text \<open>Fifty connections a second.\<close>

definition admit_connection :: "time \<Rightarrow> transport \<Rightarrow> bool \<times> transport" where
  "admit_connection now t = (let (ok, t) = accept_window now t in (ok, if ok then t\<lparr>tl_accept_rate := tl_accept_rate t + 1\<rparr> else t))"

definition demo_peer :: peer_info where
  "demo_peer = \<lparr>pi_node_id = ''beta'', pi_ip = ''10.0.0.1'', pi_port = 9999, pi_public_key_pem = ''key'', pi_last_seen = 0, pi_is_verified = True, pi_connection_count = 0\<rparr>"


section \<open>TLS contexts\<close>

lemma load_certificate_frame [simp]:
  "tx_config (snd (tls_load_certificate E t)) = tx_config t"
  "tx_client (snd (tls_load_certificate E t)) = tx_client t"
  "sc_verify_peer (tx_server (snd (tls_load_certificate E t))) = sc_verify_peer (tx_server t)"
  "sc_fail_if_no_peer_cert (tx_server (snd (tls_load_certificate E t))) = sc_fail_if_no_peer_cert (tx_server t)"
  "sc_min_tls13 (tx_server (snd (tls_load_certificate E t))) = sc_min_tls13 (tx_server t)"
  by (simp_all add: tls_load_certificate_def Let_def)

lemma load_ca_frame [simp]:
  "sc_certificate (tx_client (snd (load_ca_certificate E t))) = sc_certificate (tx_client t)"
  "sc_private_key (tx_client (snd (load_ca_certificate E t))) = sc_private_key (tx_client t)"
  "sc_min_tls13 (tx_server (snd (load_ca_certificate E t))) = sc_min_tls13 (tx_server t)"
  "sc_min_tls13 (tx_client (snd (load_ca_certificate E t))) = sc_min_tls13 (tx_client t)"
  by (simp_all add: load_ca_certificate_def Let_def)

lemma load_ca_fails [simp]: "\<not> te_load_verify E (c_string (tc_ca_path (tx_config t))) \<Longrightarrow> snd (load_ca_certificate E t) = t"
  by (simp add: load_ca_certificate_def Let_def)

lemma load_ca_works:
  assumes "tc_ca_path (tx_config t) \<noteq> []" "te_load_verify E (c_string (tc_ca_path (tx_config t)))" "tc_enable_mtls (tx_config t)"
  shows "sc_verify_peer (tx_server (snd (load_ca_certificate E t)))" "sc_fail_if_no_peer_cert (tx_server (snd (load_ca_certificate E t)))"
    "sc_verify_peer (tx_client (snd (load_ca_certificate E t)))"
  using assms by (simp_all add: load_ca_certificate_def Let_def)

lemma protocol_frame [simp]:
  "sc_certificate (protocol_settings c x) = sc_certificate x" "sc_private_key (protocol_settings c x) = sc_private_key x"
  "sc_verify_peer (protocol_settings c x) = sc_verify_peer x" "sc_fail_if_no_peer_cert (protocol_settings c x) = sc_fail_if_no_peer_cert x"
  "sc_min_tls13 (protocol_settings c x) = (sc_min_tls13 x \<or> tc_enable_tls13 c)"
  by (simp_all add: protocol_settings_def Let_def)

lemma fresh_ctx_simps [simp]:
  "sc_certificate fresh_ctx = None" "sc_private_key fresh_ctx = None" "\<not> sc_verify_peer fresh_ctx" "\<not> sc_fail_if_no_peer_cert fresh_ctx" "\<not> sc_min_tls13 fresh_ctx"
  by (simp_all add: fresh_ctx_def)

text \<open>
  Mutual authentication fails open: when it is asked for and the authority file is missing from the configuration or cannot be loaded, the
  contexts are created all the same, and the server asks no client for a certificate.
\<close>

theorem mtls_fails_open:
  assumes "tc_enable_mtls c" "tc_ca_path c = [] \<or> \<not> te_load_verify E (c_string (tc_ca_path c))" "te_server_new E" "te_client_new E"
  shows "\<exists>t. new_tls_context E c = Inr t \<and> \<not> sc_verify_peer (tx_server t) \<and> \<not> sc_fail_if_no_peer_cert (tx_server t)
    \<and> \<not> sc_verify_peer (tx_client t)"
  using assms(2-) by (cases "tc_ca_path c = []") (simp_all add: new_tls_context_def Let_def)

text \<open>
  The certificate of a node is installed for incoming connections only: the client side of every context has no certificate,
  so no node can connect to a peer that demands one.
\<close>

theorem client_has_no_certificate:
  assumes "new_tls_context E c = Inr t"
  shows "sc_certificate (tx_client t) = None \<and> sc_private_key (tx_client t) = None"
  using assms by (auto simp: new_tls_context_def Let_def split: if_splits)

text \<open>With an authority that loads, the server demands a certificate and the client verifies its peer.\<close>

lemma mtls_enforced:
  assumes "new_tls_context E c = Inr t" "tc_enable_mtls c" "tc_ca_path c \<noteq> []" "te_load_verify E (c_string (tc_ca_path c))"
  shows "sc_verify_peer (tx_server t) \<and> sc_fail_if_no_peer_cert (tx_server t) \<and> sc_verify_peer (tx_client t)"
  using assms by (auto simp: new_tls_context_def Let_def load_ca_works split: if_splits)

lemma tls13_enforced:
  assumes "new_tls_context E c = Inr t" "tc_enable_tls13 c"
  shows "sc_min_tls13 (tx_server t) \<and> sc_min_tls13 (tx_client t)"
  using assms by (auto simp: new_tls_context_def Let_def split: if_splits)


section \<open>Sessions and descriptors\<close>

lemma held_append: "held h (os @ os') = Option.bind (held h os) (\<lambda>h. held h os')"
  by (induction h os rule: held.induct) auto

lemma outs_emit [simp]: "tl_outs (tl_emit os t) = tl_outs t @ os"
  by (simp add: tl_emit_def)

lemma emit_other [simp]:
  "tl_active_ssl (tl_emit os t) = tl_active_ssl t" "tl_next_ssl (tl_emit os t) = tl_next_ssl t" "tl_server_fd (tl_emit os t) = tl_server_fd t"
  "tl_accept_rate (tl_emit os t) = tl_accept_rate t" "tl_rate_ts (tl_emit os t) = tl_rate_ts t"
  by (simp_all add: tl_emit_def)


lemma close_fresh:
  "omap_lookup (tl_active_ssl t) fd = None \<Longrightarrow> 0 \<le> fd \<Longrightarrow> tl_close fd t = tl_emit [FdClosed fd] t"
  by (simp add: tl_close_def)

lemma window_frame [simp]:
  "tl_active_ssl (snd (accept_window now t)) = tl_active_ssl t" "tl_next_ssl (snd (accept_window now t)) = tl_next_ssl t"
  "tl_outs (snd (accept_window now t)) = tl_outs t" "tl_server_fd (snd (accept_window now t)) = tl_server_fd t"
  by (simp_all add: accept_window_def Let_def)

lemma accept_session_owns:
  assumes "accept_session io fd t = Some (r, t')" "omap_lookup (tl_active_ssl t) fd = None" "0 \<le> fd"
  shows "owns t r t'"
proof (cases "ac_ssl_new io")
  case False
  then show ?thesis using assms by (simp add: accept_session_def Let_def close_fresh owns_def added_def) (auto simp: added_def)
next
  case new: True
  show ?thesis
  proof (cases "handshake (ac_handshake io) 0")
    case None
    then show ?thesis using new assms(1) by (simp add: accept_session_def Let_def)
  next
    case (Some ok)
    then show ?thesis using new assms by (cases ok) (auto simp: accept_session_def Let_def close_fresh owns_def added_def)
  qed
qed


text \<open>
  C32. Connecting returns a descriptor only after the handshake is complete and the certificate of the peer has been verified; it then holds exactly that
  descriptor and its session. In every other case it leaves nothing behind.
\<close>

theorem connect_verified:
  assumes "tl_connect io t = (r, t')" "omap_lookup (tl_active_ssl t) (co_socket io) = None"
  shows "owns t r t' \<and> (r \<ge> 0 \<longrightarrow> r = co_socket io \<and> co_ssl_connect io \<and> co_verify_ok io)"
proof (cases "co_socket io < 0")
  case True
  then show ?thesis using assms(1) by (auto simp: tl_connect_def Let_def owns_def added_def)
next
  case fd: False
  show ?thesis
  proof (cases "co_connect io \<and> co_ssl_new io")
    case False
    then show ?thesis using assms fd by (auto simp: tl_connect_def Let_def close_fresh owns_def added_def)
  next
    case True
    then show ?thesis using assms fd
      by (cases "co_ssl_connect io \<and> co_verify_ok io") (auto simp: tl_connect_def Let_def close_fresh owns_def added_def)
  qed
qed

lemma demo_window [simp]: "accept_window 5 demo_transport = (True, demo_transport)"
  by (simp add: accept_window_def dsecs_def trunc_div_def demo_transport_def)

lemma demo_accept_simps [simp]:
  "ac_now (demo_accept ev) = 5" "ac_accept4 (demo_accept ev) = 7" "ac_ssl_new (demo_accept ev)" "ac_handshake (demo_accept ev) = ev"
  by (simp_all add: demo_accept_def)

lemma demo_transport_simps [simp]:
  "tl_server_fd demo_transport = 3" "tl_active_ssl demo_transport = []" "tl_accept_rate demo_transport = 0" "tl_rate_ts demo_transport = 0"
  "tl_next_ssl demo_transport = 0" "tl_outs demo_transport = []"
  by (simp_all add: demo_transport_def)


theorem connect_verified_witness: "owns demo_transport 7 (snd (tl_connect demo_connect demo_transport))"
  using connect_verified [of demo_connect demo_transport 7 "snd (tl_connect demo_connect demo_transport)"]
  by (simp add: tl_connect_def demo_connect_def)

text \<open>The handshake ends exactly when the client finishes it, breaks it, or falls silent.\<close>

lemma handshake_returns:
  assumes "handshake ev i = Some b"
  shows "\<exists>j \<ge> i. hs_ends (ev j)"
proof (rule handshake.raw_induct [OF _ assms])
  fix h :: "(nat \<Rightarrow> handshake_event) \<Rightarrow> nat \<Rightarrow> bool option" and ev i b
  assume ih: "\<And>ev i b. h ev i = Some b \<Longrightarrow> \<exists>j \<ge> i. hs_ends (ev j)"
    and step: "(case ev i of HsDone \<Rightarrow> Some True | HsFatal \<Rightarrow> Some False | HsWant pr \<Rightarrow> if pr \<le> 0 then Some False else h ev (i + 1)) = Some b"
  show "\<exists>j \<ge> i. hs_ends (ev j)"
  proof (cases "hs_ends (ev i)")
    case False
    then have "h ev (i + 1) = Some b" using step by (simp add: hs_ends_def split: handshake_event.splits)
    from ih [OF this] obtain j where "i + 1 \<le> j" "hs_ends (ev j)" by blast
    then show ?thesis by (intro exI [of _ j]) simp
  qed blast
qed

lemma handshake_ends: "hs_ends (ev (i + k)) \<Longrightarrow> \<exists>b. handshake ev i = Some b"
proof (induction k arbitrary: i)
  case 0
  then show ?case using handshake.simps [of ev i] by (cases "ev i") (auto simp: hs_ends_def)
next
  case (Suc k)
  then have "hs_ends (ev ((i + 1) + k))" by simp
  from Suc.IH [OF this] obtain b where "handshake ev (i + 1) = Some b" by blast
  then show ?case using handshake.simps [of ev i] by (cases "ev i") auto
qed

text \<open>
  One client can stop the transport from accepting anybody: when it keeps sending something within every three seconds and never completes the
  handshake, the call of accept that took it does not return. Nothing else makes the call not return.
\<close>

theorem slow_handshake_blocks_accept:
  assumes "0 \<le> tl_server_fd t" "fst (accept_window (ac_now io) t)" "length (tl_active_ssl t) < 256" "0 \<le> ac_accept4 io" "ac_ssl_new io"
  shows "tl_accept io t = None \<longleftrightarrow> (\<forall>i. \<not> hs_ends (ac_handshake io i))"
proof -
  obtain w where w: "accept_window (ac_now io) t = (True, w)" using assms(2) by (cases "accept_window (ac_now io) t") auto
  have "tl_active_ssl w = tl_active_ssl t" using window_frame(1) [of "ac_now io" t] unfolding w by simp
  then have "tl_accept io t = accept_session io (ac_accept4 io) (w\<lparr>tl_accept_rate := tl_accept_rate w + 1\<rparr>)"
    using assms by (simp add: tl_accept_def w)
  then have "tl_accept io t = None \<longleftrightarrow> handshake (ac_handshake io) 0 = None"
    using assms(5) by (simp add: accept_session_def Let_def split: option.split bool.split)
  moreover have "handshake (ac_handshake io) 0 = None" if "\<forall>i. \<not> hs_ends (ac_handshake io i)"
    using handshake_returns [of "ac_handshake io" 0] that by (cases "handshake (ac_handshake io) 0") auto
  moreover have "\<forall>i. \<not> hs_ends (ac_handshake io i)" if "handshake (ac_handshake io) 0 = None"
    using handshake_ends [of "ac_handshake io" 0] that by auto
  ultimately show ?thesis by argo
qed

theorem slow_handshake_blocks_accept_witness: "tl_accept (demo_accept (\<lambda>_. HsWant 1)) demo_transport = None"
  using slow_handshake_blocks_accept [of demo_transport "demo_accept (\<lambda>_. HsWant 1)"] by (simp add: hs_ends_def)

theorem mtls_fails_open_witness:
  "\<exists>t. new_tls_context demo_tls_env (tx_config (tl_tls demo_transport)) = Inr t \<and> \<not> sc_fail_if_no_peer_cert (tx_server t)"
  using mtls_fails_open [of "tx_config (tl_tls demo_transport)" demo_tls_env] by (auto simp: demo_transport_def demo_tls_env_def)

theorem client_has_no_certificate_witness:
  "\<exists>t. new_tls_context demo_tls_env (tx_config (tl_tls demo_transport)) = Inr t \<and> sc_certificate (tx_client t) = None"
proof -
  obtain t where "new_tls_context demo_tls_env (tx_config (tl_tls demo_transport)) = Inr t"
    by (simp add: new_tls_context_def demo_tls_env_def Let_def)
  then show ?thesis using client_has_no_certificate [of demo_tls_env "tx_config (tl_tls demo_transport)" t] by blast
qed

text \<open>A session is shut down a second time after its descriptor has been closed, and possibly opened again by another thread for something else.\<close>

lemma session_outlives_descriptor:
  assumes "omap_lookup (tl_active_ssl t) fd = Some s" "0 \<le> fd"
  shows "tl_outs (tl_close fd t) = tl_outs t @ [SslShutdown s, FdClosed fd, SslShutdown s, SslFree s]"
  using assms by (simp add: tl_close_def)

text \<open>Binding again forgets the first listening socket, which stays open; an address that cannot be read binds every interface.\<close>

lemma second_bind_leaks:
  assumes "bi_socket io \<ge> 0" "bi_setsockopt io" "bi_bind io" "tl_server_fd t \<ge> 0" "bi_socket io \<noteq> tl_server_fd t"
  shows "tl_server_fd (snd (tl_bind io a p t)) = bi_socket io \<and> FdClosed (tl_server_fd t) \<notin> set (added t (snd (tl_bind io a p t)))"
  using assms by (simp add: tl_bind_def added_def Let_def)

lemma unreadable_address_binds_all: "inet_pton4 (c_string a) = None \<Longrightarrow> bind_address a = bind_address ''0.0.0.0''"
  by (simp add: bind_address_def)

text \<open>Everything that the table holds, and the listening socket, is released by \<open>shutdown\<close>.\<close>

lemma held_sessions:
  assumes "distinct order" "\<And>fd. fd \<in> set order \<Longrightarrow> 0 \<le> fd \<and> omap_lookup m fd = Some (f fd)" "inj_on f (set order)" "m = tl_active_ssl t"
  shows "held (order @ fds, map f order @ ss) (concat (map (drop_session t) order)) = Some (fds, ss)"
  using assms by (induction order) (auto simp: inj_on_def drop_session_def)

lemma shutdown_releases:
  assumes "distinct order" "\<And>fd. fd \<in> set order \<Longrightarrow> 0 \<le> fd \<and> omap_lookup (tl_active_ssl t) fd = Some (f fd)" "inj_on f (set order)" "0 \<le> tl_server_fd t"
  shows "held (order @ [tl_server_fd t], map f order) (added t (tl_shutdown order t)) = Some ([], [])
    \<and> tl_active_ssl (tl_shutdown order t) = [] \<and> tl_server_fd (tl_shutdown order t) = -1"
  using held_sessions [OF assms(1-3), of t "[tl_server_fd t]" "[]"] assms(4)
  by (simp add: tl_shutdown_def added_def held_append Let_def)


interpretation accept_limit: rate_limiter "\<lambda>t. 0 \<le> tl_accept_rate t" admit_connection "\<lambda>t. max 0 (tl_accept_rate t)" "\<lambda>_. 50"
proof unfold_locales
  have zero: "dsecs 0 = 0" by (simp add: dsecs_def trunc_div_def)
  fix t :: transport and now
  show "0 \<le> max 0 (tl_accept_rate t)" by simp
  assume ok: "0 \<le> tl_accept_rate t"
  show "0 \<le> tl_accept_rate (snd (admit_connection now t))"
    using ok by (simp add: admit_connection_def accept_window_def Let_def)
  show "(50 :: int) = 50" by simp
  show "max 0 (tl_accept_rate t) \<le> 50 \<Longrightarrow> max 0 (tl_accept_rate (snd (admit_connection now t))) \<le> 50"
    using ok by (simp add: admit_connection_def accept_window_def Let_def)
  show "fst (admit_connection now t) \<Longrightarrow> 1 \<le> max 0 (tl_accept_rate (snd (admit_connection now t)))"
    using ok by (simp add: admit_connection_def accept_window_def Let_def)
  show "max 0 (tl_accept_rate (snd (admit_connection now (snd (admit_connection now t))))) =
      (if fst (admit_connection now (snd (admit_connection now t))) then max 0 (tl_accept_rate (snd (admit_connection now t))) + 1
       else max 0 (tl_accept_rate (snd (admit_connection now t))))"
    using ok by (simp add: admit_connection_def accept_window_def Let_def zero)
qed

lemma accept_burst_bounded: "0 \<le> tl_accept_rate t \<Longrightarrow> tl_accept_rate t \<le> 50 \<Longrightarrow> fst (accept_limit.burst k now t) \<le> 50"
  using accept_limit.burst_bounded [of t k now] by simp


lemma send_loop_step: "sent < len \<Longrightarrow> 0 < w sent \<Longrightarrow> send_loop w len sent = send_loop w len (sent + nat (w sent))"
  by (subst send_loop.simps) simp

lemma send_loop_stop: "\<not> (sent < len \<and> 0 < w sent) \<Longrightarrow> send_loop w len sent = (if sent < len \<and> sent = 0 then -1 else int sent)"
  by (subst send_loop.simps) auto

text \<open>Every call reports what was sent, or an error when that is nothing; when the calls below make progress, all of it is sent.\<close>

lemma send_loop_bounds:
  assumes "\<forall>i < len. w i \<le> int (len - i)" "sent \<le> len"
  shows "send_loop w len sent = -1 \<and> sent = 0 \<or> int sent \<le> send_loop w len sent \<and> send_loop w len sent \<le> int len"
  using assms
proof (induction "len - sent" arbitrary: sent rule: less_induct)
  case less
  show ?case
  proof (cases "sent < len \<and> 0 < w sent")
    case True
    then have le: "sent + nat (w sent) \<le> len" using less.prems(1) by fastforce
    have "len - (sent + nat (w sent)) < len - sent" using True le by linarith
    from less.hyps [OF this less.prems(1) le] True show ?thesis by (simp add: send_loop_step)
  next
    case False
    then show ?thesis using less.prems(2) by (simp add: send_loop_stop)
  qed
qed

lemma send_loop_complete:
  assumes "\<forall>i < len. 0 < w i \<and> w i \<le> int (len - i)" "sent \<le> len"
  shows "send_loop w len sent = int len"
  using assms
proof (induction "len - sent" arbitrary: sent rule: less_induct)
  case less
  show ?case
  proof (cases "sent < len")
    case True
    then have w: "0 < w sent" "sent + nat (w sent) \<le> len" using less.prems(1) by fastforce+
    have "len - (sent + nat (w sent)) < len - sent" using True w by linarith
    from less.hyps [OF this less.prems(1) w(2)] True w(1) show ?thesis by (simp add: send_loop_step)
  next
    case False
    then show ?thesis using less.prems(2) by (simp add: send_loop_stop)
  qed
qed

section \<open>Discovery\<close>

lemma split_bar_append: "CHR ''|'' \<notin> set a \<Longrightarrow> split_bar (a @ CHR ''|'' # b) = Some (a, b)"
proof -
  assume a: "CHR ''|'' \<notin> set a"
  then have "takeWhile (\<lambda>c. c \<noteq> CHR ''|'') (a @ CHR ''|'' # b) = a" by (induction a) auto
  then show ?thesis by (simp add: split_bar_def)
qed

lemma read_announcement:
  assumes "CHR ''|'' \<notin> set node_id" "CHR ''|'' \<notin> set ip"
  shows "read_discovery (announcement node_id ip port) = Some (node_id, ip, port)"
proof -
  have "uint port < 2 ^ 16" using unsigned_less [of port] by simp
  moreover have "- (2 ^ 31) \<le> uint port" by (rule order_trans [of _ 0]) simp_all
  ultimately have "stoi (nat_str (unat port)) = Some (uint port, [])"
    using stoi_int_str [of "uint port"] by (simp add: int_str_def)
  then show ?thesis using assms
    by (simp add: read_discovery_def announcement_def split_bar_append)
qed

text \<open>
  An announcement is read back as it was made, provided that the node's name and the address have no bar in them; a peer known under that name is from
  then on at the source of the datagram and at the announced port, and a node never enters itself.
\<close>

theorem announcement_heard:
  assumes "CHR ''|'' \<notin> set (pd_node_id q)" "CHR ''|'' \<notin> set (pi_ip peer)" "announce_peer n peer q = (b, Some payload)"
    "handle_incoming_beacon now payload src p = (heard, p')"
  shows "heard = (pd_node_id q \<noteq> pd_node_id p)
    \<and> (if heard then \<exists>i. pd_peers p' (pd_node_id q) = Some i \<and> pi_ip i = inet_ntop4 src \<and> pi_port i = pi_port peer \<and> pi_last_seen i = now else p' = p)
    \<and> (\<forall>m. m \<noteq> pd_node_id q \<longrightarrow> pd_peers p' m = pd_peers p m)"
proof -
  have "payload = announcement (pd_node_id q) (pi_ip peer) (pi_port peer)"
    using assms(3) by (simp add: announce_peer_def Let_def split: if_splits)
  then have "read_discovery payload = Some (pd_node_id q, pi_ip peer, pi_port peer)" using assms(1,2) by (simp add: read_announcement)
  then show ?thesis using assms(4)
    by (cases "pd_peers p (pd_node_id q)") (auto simp: handle_incoming_beacon_def Let_def split: if_splits)
qed

theorem announcement_heard_witness:
  "\<exists>i. pd_peers (snd (handle_incoming_beacon 5 (announcement ''beta'' ''10.0.0.1'' 9999) [10, 0, 0, 7] (new_discovery ''alpha''))) ''beta'' = Some i
     \<and> pi_ip i = inet_ntop4 [10, 0, 0, 7]"
proof -
  let ?q = "snd (pd_start 4 True (new_discovery ''beta''))" and ?pay = "announcement ''beta'' ''10.0.0.1'' 9999"
  have "announce_peer 0 demo_peer ?q = (0 = int (length ?pay), Some ?pay)"
    by (simp add: announce_peer_def pd_start_def new_discovery_def demo_peer_def Let_def)
  from announcement_heard [OF _ _ this, of 5 "[10, 0, 0, 7]" "new_discovery ''alpha''"] show ?thesis
    by (cases "handle_incoming_beacon 5 ?pay [10, 0, 0, 7] (new_discovery ''alpha'')")
      (auto simp: pd_start_def new_discovery_def demo_peer_def split: if_splits)
qed

text \<open>
  Verification of a peer does not bind its address: an unsigned datagram from anywhere that names a verified peer makes the sender's address and any port
  the address of that peer, which stays marked as verified with its old key.
\<close>

theorem verified_peer_hijacked:
  assumes "pd_peers p node_id = Some peer" "pi_is_verified peer" "node_id \<noteq> pd_node_id p" "CHR ''|'' \<notin> set node_id"
  shows "\<exists>peer'. pd_peers (snd (handle_incoming_beacon now (announcement node_id [] port) src p)) node_id = Some peer'
    \<and> pi_is_verified peer' \<and> pi_public_key_pem peer' = pi_public_key_pem peer \<and> pi_ip peer' = inet_ntop4 src \<and> pi_port peer' = port"
  using assms read_announcement [of node_id "[]" port] by (simp add: handle_incoming_beacon_def)

theorem verified_peer_hijacked_witness:
  "\<exists>peer'. pd_peers (snd (handle_incoming_beacon 5 (announcement ''beta'' [] 666) [6, 6, 6, 6] ((new_discovery ''alpha'')\<lparr>pd_peers := [''beta'' \<mapsto> demo_peer]\<rparr>)))
     ''beta'' = Some peer' \<and> pi_is_verified peer' \<and> pi_ip peer' = inet_ntop4 [6, 6, 6, 6]"
  using verified_peer_hijacked [of "(new_discovery ''alpha'')\<lparr>pd_peers := [''beta'' \<mapsto> demo_peer]\<rparr>" "''beta''" demo_peer 5 666 "[6, 6, 6, 6]"]
  by (auto simp: demo_peer_def new_discovery_def)

text \<open>Exactly the peers that have been silent for longer than the timeout are removed, and each is reported once.\<close>

lemma cleanup_exact:
  assumes "distinct order" "set order = dom (pd_peers p)"
  shows "dom (pd_peers (pd_cleanup order now p)) = {n \<in> dom (pd_peers p). \<not> stale now p n}"
    "set (drop (length (pd_lost p)) (pd_lost (pd_cleanup order now p))) = {n \<in> dom (pd_peers p). stale now p n}"
    "distinct (drop (length (pd_lost p)) (pd_lost (pd_cleanup order now p)))"
  using assms by (auto simp: pd_cleanup_def split: if_splits)

lemma own_name_never_stored:
  "pd_peers p (pd_node_id p) = None \<Longrightarrow> pd_peers (beacon_iteration order now d p) (pd_node_id p) = None"
  by (auto simp: beacon_iteration_def pd_cleanup_def handle_incoming_beacon_def Let_def split: option.splits prod.splits if_splits)

end
