(* ===== verification/Result_Type.thy ===== *)
theory Result_Type
  imports Main
begin

text \<open>
  \<open>common/Result.hpp\<close>: the value or the error of an operation that can fail. A
  \<open>Result<T, E>\<close> is a sum with the error on the left; a \<open>Result<void, E>\<close> is an optional error.
  Reading the alternative that is not there throws, which is \<open>None\<close>.
\<close>


section \<open>Results with a value\<close>

type_synonym ('a, 'e) cpp_result = "'e + 'a"

definition result_ok :: "('a, 'e) cpp_result \<Rightarrow> bool" where
  "result_ok r = (case r of Inr _ \<Rightarrow> True | Inl _ \<Rightarrow> False)"

definition result_is_err :: "('a, 'e) cpp_result \<Rightarrow> bool" where
  "result_is_err r \<longleftrightarrow> \<not> result_ok r"

definition result_value :: "('a, 'e) cpp_result \<Rightarrow> 'a option" where
  "result_value r = (case r of Inr v \<Rightarrow> Some v | Inl _ \<Rightarrow> None)"

definition result_error :: "('a, 'e) cpp_result \<Rightarrow> 'e option" where
  "result_error r = (case r of Inr _ \<Rightarrow> None | Inl e \<Rightarrow> Some e)"

definition unwrap_or :: "('a, 'e) cpp_result \<Rightarrow> 'a \<Rightarrow> 'a" where
  "unwrap_or r fallback = (if result_ok r then the (result_value r) else fallback)"

definition value_or :: "('a, 'e) cpp_result \<Rightarrow> 'a \<Rightarrow> 'a" where
  "value_or r fallback = (if result_ok r then the (result_value r) else fallback)"

definition result_map :: "('a \<Rightarrow> 'b) \<Rightarrow> ('a, 'e) cpp_result \<Rightarrow> ('b, 'e) cpp_result" where
  "result_map f r = (case r of Inr v \<Rightarrow> Inr (f v) | Inl e \<Rightarrow> Inl e)"

definition map_or :: "'a \<Rightarrow> ('a \<Rightarrow> 'a) \<Rightarrow> ('a, 'e) cpp_result \<Rightarrow> 'a" where
  "map_or fallback f r = (case r of Inr v \<Rightarrow> f v | Inl _ \<Rightarrow> fallback)"

definition map_err :: "('e \<Rightarrow> 'f) \<Rightarrow> ('a, 'e) cpp_result \<Rightarrow> ('a, 'f) cpp_result" where
  "map_err f r = (case r of Inr v \<Rightarrow> Inr v | Inl e \<Rightarrow> Inl (f e))"


section \<open>Results without a value\<close>

type_synonym 'e void_result = "'e option"

definition void_ok :: "'e void_result \<Rightarrow> bool" where
  "void_ok r \<longleftrightarrow> r = None"

definition void_is_err :: "'e void_result \<Rightarrow> bool" where
  "void_is_err r \<longleftrightarrow> r \<noteq> None"


section \<open>Laws\<close>

lemma result_map_compose: "result_map g (result_map f r) = result_map (g \<circ> f) r"
  by (cases r) (simp_all add: result_map_def)

lemma map_err_compose: "map_err g (map_err f r) = map_err (g \<circ> f) r"
  by (cases r) (simp_all add: map_err_def)

lemma maps_commute: "map_err g (result_map f r) = result_map f (map_err g r)"
  by (cases r) (simp_all add: result_map_def map_err_def)

lemma result_read_exact: "(result_value r \<noteq> None) = result_ok r" "(result_error r \<noteq> None) = result_is_err r"
  by (cases r; simp add: result_value_def result_error_def result_ok_def result_is_err_def)+

lemma map_or_value_or: "map_or d f r = value_or (result_map f r) d"
  by (cases r) (simp_all add: map_or_def value_or_def result_map_def result_ok_def result_value_def)

end
