(* ===== verification/TelemetryBridge.thy ===== *)
theory TelemetryBridge
  imports AuditLogger Result_Type
begin

text \<open>
  \<open>telemetry/TelemetryBridge.cpp\<close>: the parent forks a sandboxed child and writes JSON lines into
  a pipe; the child reads the pipe and publishes each line to its subscribers. The model has the parent's operations, the stages of the
  sandbox and the pipe monitor of the child; the results of system calls are arguments, the
  WebSocket library is reduced to the list of what is published.
\<close>


section \<open>The parent\<close>

record bridge_config =
  bc_websocket_port :: "16 word"
  bc_chroot_path :: string
  bc_sandbox_uid :: "32 word"
  bc_sandbox_gid :: "32 word"
  bc_log_path :: string

definition default_bridge_config :: bridge_config where
  "default_bridge_config =
     \<lparr>bc_websocket_port = 9000, bc_chroot_path = ''/var/empty'', bc_sandbox_uid = 65534, bc_sandbox_gid = 65534,
      bc_log_path = ''/tmp/telemetry_bridge.log''\<rparr>"

datatype bridge_out =
    PipeEnd int
  | FdOut audit_out
  | Forked int
  | Polled int
  | SignalTo int int
  | AwaitedExit int

text \<open>\<open>br_stream\<close> is what the pipe has accepted since the child was forked.\<close>

record bridge =
  br_config :: bridge_config
  br_write_fd :: int
  br_child_pid :: int
  br_stream :: string
  br_outs :: "bridge_out list"

definition new_bridge :: "bridge_config \<Rightarrow> bridge" where
  "new_bridge cfg = \<lparr>br_config = cfg, br_write_fd = -1, br_child_pid = -1, br_stream = [], br_outs = []\<rparr>"

definition br_emit :: "bridge_out list \<Rightarrow> bridge \<Rightarrow> bridge" where
  "br_emit os b = b\<lparr>br_outs := br_outs b @ os\<rparr>"

text \<open>The read and the write end of the pipe, what \<open>fork\<close> returned to the parent, and the text of \<open>errno\<close>.\<close>

record spawn_io =
  si_pipe :: "(int \<times> int) option"
  si_fork :: int
  si_err :: string

definition set_write_fd :: "int \<Rightarrow> bridge \<Rightarrow> bridge" where
  "set_write_fd fd b =
     (let (own, _, closed) = fd_move_assign (br_write_fd b) fd in br_emit (map FdOut closed) (b\<lparr>br_write_fd := own\<rparr>))"

definition spawn :: "spawn_io \<Rightarrow> bridge \<Rightarrow> string void_result \<times> bridge" where
  "spawn io b =
     (if br_child_pid b > 0 then (Some (''spawn(): child already running (pid='' @ int_str (br_child_pid b) @ '')''), b)
      else case si_pipe io of
        None \<Rightarrow> (Some (''pipe2(O_CLOEXEC | O_NONBLOCK) failed: '' @ si_err io), b)
      | Some (r, w) \<Rightarrow>
          let b = br_emit [PipeEnd r, PipeEnd w] b in
          if si_fork io = -1 then (Some (''fork() failed: '' @ si_err io), br_emit [FdOut (CloseFd r), FdOut (CloseFd w)] b)
          else (None, (set_write_fd w (br_emit [Forked (si_fork io), FdOut (CloseFd r)] b))\<lparr>br_child_pid := si_fork io, br_stream := []\<rparr>))"

text \<open>What the two calls of \<open>write\<close> returned, whether a failure was a full pipe, and the text of \<open>errno\<close>.\<close>

record push_io =
  pu_written :: int
  pu_again :: bool
  pu_rest :: int
  pu_rest_again :: bool
  pu_err :: string

definition framed :: "string \<Rightarrow> string" where
  "framed json = json @ [CHR 0x0A]"

definition bridge_push :: "push_io \<Rightarrow> string \<Rightarrow> bridge \<Rightarrow> string void_result \<times> bridge" where
  "bridge_push io json b =
     (if \<not> fd_valid (br_write_fd b) then (Some ''bridge not spawned'', b)
      else if pu_written io < 0
      then (Some (if pu_again io then ''pipe write: EAGAIN (buffer full, message dropped)'' else ''pipe write failed: '' @ pu_err io), b)
      else
        let n = nat (pu_written io); b = b\<lparr>br_stream := br_stream b @ take n (framed json)\<rparr> in
        if n < length (framed json)
        then if pu_rest io < 0
             then (Some (if pu_rest_again io then ''pipe write (partial): EAGAIN (buffer full, remainder dropped)''
                         else ''pipe write (partial) failed: '' @ pu_err io), b)
             else (None, b\<lparr>br_stream := br_stream b @ take (nat (pu_rest io)) (drop n (framed json))\<rparr>)
        else (None, b))"

definition SIGTERM_nr :: int where "SIGTERM_nr = 15"
definition SIGKILL_nr :: int where "SIGKILL_nr = 9"

text \<open>The loop that waits for the child, at most \<open>n\<close> rounds: \<open>waits i\<close> is what the i-th call of \<open>waitpid\<close> returned.\<close>

fun poll_child :: "(nat \<Rightarrow> int) \<Rightarrow> nat \<Rightarrow> nat \<Rightarrow> int \<Rightarrow> int \<times> bridge_out list" where
  "poll_child waits i 0 waited = (waited, [])"
| "poll_child waits i (Suc n) waited =
     (let waited = waits i in
      if waited > 0 then (waited, [Polled waited])
      else let (r, os) = poll_child waits (i + 1) n waited in (r, Polled waited # os))"

definition bridge_shutdown :: "(nat \<Rightarrow> int) \<Rightarrow> bridge \<Rightarrow> string void_result \<times> bridge" where
  "bridge_shutdown waits b =
     (if br_child_pid b \<le> 0 then (None, b)
      else
        let pid = br_child_pid b;
            b = br_emit [Polled (waits 0)] (set_write_fd (-1) b);
            b = (if waits 0 = 0
                 then let (waited, os) = poll_child waits 1 30 (waits 0);
                          b = br_emit (SignalTo pid SIGTERM_nr # os) b
                      in if waited = 0 then br_emit [SignalTo pid SIGKILL_nr, AwaitedExit pid] b else b
                 else b)
        in (None, b\<lparr>br_child_pid := -1\<rparr>))"

definition bridge_alive :: "(int \<Rightarrow> bool) \<Rightarrow> bridge \<Rightarrow> bool" where
  "bridge_alive signal_0 b \<longleftrightarrow> br_child_pid b > 0 \<and> signal_0 (br_child_pid b)"


section \<open>The sandbox of the child\<close>

text \<open>The calls that can fail, in the order of the code.\<close>

datatype sandbox_call =
    PrctlNoNewPrivs | StatChroot | IsDirectory | Chroot | ChdirRoot | Setgroups | Setresgid | Setresuid | SeccompInit | SeccompLoad | ListenPort

text \<open>The part of the process the stages restrict; \<open>None\<close> as the root is the root of the host, as the filter no filter.\<close>

record child =
  ch_no_new_privs :: bool
  ch_root :: "string option"
  ch_cwd_inside :: bool
  ch_groups :: "32 word list"
  ch_gid :: "32 word"
  ch_uid :: "32 word"
  ch_filter :: "string list option"

definition apply_no_new_privs :: "(sandbox_call \<Rightarrow> bool) \<Rightarrow> child \<Rightarrow> int + child" where
  "apply_no_new_privs ok c = (if \<not> ok PrctlNoNewPrivs then Inl 1 else Inr (c\<lparr>ch_no_new_privs := True\<rparr>))"

definition apply_fs_isolation :: "(sandbox_call \<Rightarrow> bool) \<Rightarrow> bridge_config \<Rightarrow> child \<Rightarrow> int + child" where
  "apply_fs_isolation ok cfg c =
     (if \<not> ok StatChroot then Inl 1
      else if \<not> ok IsDirectory then Inl 1
      else if \<not> ok Chroot then Inl 1
      else let c = c\<lparr>ch_root := Some (bc_chroot_path cfg)\<rparr> in
        if \<not> ok ChdirRoot then Inl 1 else Inr (c\<lparr>ch_cwd_inside := True\<rparr>))"

definition apply_uid_drop :: "(sandbox_call \<Rightarrow> bool) \<Rightarrow> bridge_config \<Rightarrow> child \<Rightarrow> int + child" where
  "apply_uid_drop ok cfg c =
     (if \<not> ok Setgroups then Inl 1
      else let c = c\<lparr>ch_groups := []\<rparr> in
        if \<not> ok Setresgid then Inl 1
        else let c = c\<lparr>ch_gid := bc_sandbox_gid cfg\<rparr> in
          if \<not> ok Setresuid then Inl 1 else Inr (c\<lparr>ch_uid := bc_sandbox_uid cfg\<rparr>))"

definition syscall_whitelist :: "string list" where
  "syscall_whitelist =
     [''read'', ''write'', ''close'', ''exit_group'', ''brk'', ''mmap'', ''munmap'', ''mprotect'', ''madvise'', ''epoll_create1'',
      ''epoll_ctl'', ''epoll_wait'', ''socket'', ''bind'', ''listen'', ''accept4'', ''shutdown'', ''setsockopt'', ''getsockname'',
      ''getpeername'', ''getsockopt'', ''connect'', ''sendmsg'', ''recvmsg'', ''recvfrom'', ''sendto'', ''fcntl'', ''futex'',
      ''clock_gettime'', ''clock_nanosleep'', ''nanosleep'', ''restart_syscall'', ''timerfd_create'', ''timerfd_settime'', ''eventfd2'',
      ''getrandom'', ''sched_yield'', ''rt_sigaction'', ''rt_sigprocmask'', ''getpid'', ''gettid'', ''openat'', ''newfstatat'',
      ''readlink'', ''fstat'', ''lseek'', ''ioctl'', ''pipe2'', ''set_robust_list'', ''rseq'', ''prlimit64'', ''set_tid_address'',
      ''arch_prctl'', ''rt_sigreturn'', ''membarrier'', ''tgkill'', ''clone'', ''clone3'', ''mremap'', ''poll'', ''ppoll'', ''kill'',
      ''getppid'', ''getuid'', ''getgid'']"

definition apply_seccomp_filter :: "(sandbox_call \<Rightarrow> bool) \<Rightarrow> child \<Rightarrow> int + child" where
  "apply_seccomp_filter ok c =
     (if \<not> ok SeccompInit then Inl 1
      else if \<not> ok SeccompLoad then Inr c
      else Inr (c\<lparr>ch_filter := Some syscall_whitelist\<rparr>))"

definition run_event_loop :: "(sandbox_call \<Rightarrow> bool) \<Rightarrow> child \<Rightarrow> int + child" where
  "run_event_loop ok c = (if \<not> ok ListenPort then Inl 1 else Inr c)"

text \<open>\<open>Inl\<close> is the exit code of a child that gives up, \<open>Inr\<close> the process in which the event loop and the pipe monitor run.\<close>

definition child_main :: "(sandbox_call \<Rightarrow> bool) \<Rightarrow> string option \<Rightarrow> bridge_config \<Rightarrow> child \<Rightarrow> int + child" where
  "child_main ok env cfg c =
     (if env = Some ''1'' then run_event_loop ok c
      else case apply_no_new_privs ok c of Inl e \<Rightarrow> Inl e | Inr c \<Rightarrow>
        (case apply_fs_isolation ok cfg c of Inl e \<Rightarrow> Inl e | Inr c \<Rightarrow>
          (case apply_uid_drop ok cfg c of Inl e \<Rightarrow> Inl e | Inr c \<Rightarrow>
            (case apply_seccomp_filter ok c of Inl e \<Rightarrow> Inl e | Inr c \<Rightarrow> run_event_loop ok c))))"


section \<open>The pipe monitor of the child\<close>

record pipe_monitor =
  mo_buffer :: string
  mo_published :: "string list"

definition new_monitor :: pipe_monitor where
  "new_monitor = \<lparr>mo_buffer = [], mo_published = []\<rparr>"

text \<open>One round of the loop: \<open>poll\<close> failed (by a signal or not) or timed out; \<open>read\<close> failed (for now or for good) or returned bytes, none at the end.\<close>

datatype pipe_event = PollFailed bool | PollTimeout | ReadFailed bool | ReadBytes string

function take_lines :: "string \<Rightarrow> string \<times> string" where
  "take_lines buffer =
     (let line = takeWhile (\<lambda>c. c \<noteq> CHR 0x0A) buffer in
      if length line < length buffer
      then let (rest, out) = take_lines (drop (length line + 1) buffer) in (rest, (if line = [] then [] else line @ [CHR 0x0A]) @ out)
      else (buffer, []))"
  by pat_completeness auto

termination take_lines
  by (relation "measure length") auto

declare take_lines.simps [simp del]

function publish_lines :: "string \<Rightarrow> string list" where
  "publish_lines out =
     (let line = takeWhile (\<lambda>c. c \<noteq> CHR 0x0A) out in
      if length line < length out
      then (if line = [] then [] else [line]) @ publish_lines (drop (length line + 1) out)
      else [])"
  by pat_completeness auto

termination publish_lines
  by (relation "measure length") auto

declare publish_lines.simps [simp del]

definition monitor_limit :: nat where "monitor_limit = 1048576"

definition monitor_step :: "pipe_event \<Rightarrow> pipe_monitor \<Rightarrow> int + pipe_monitor" where
  "monitor_step ev m =
     (case ev of
        PollFailed interrupted \<Rightarrow> if interrupted then Inr m else Inl 0
      | PollTimeout \<Rightarrow> Inr m
      | ReadFailed for_now \<Rightarrow> if for_now then Inr m else Inl 0
      | ReadBytes bytes \<Rightarrow>
          if bytes = [] then Inl 0
          else
            let (rest, out) = take_lines (mo_buffer m @ bytes) in
            Inr (m\<lparr>mo_buffer := (if length rest > monitor_limit then [] else rest), mo_published := mo_published m @ publish_lines out\<rparr>))"

text \<open>The loop over what happens; \<open>Inl\<close> keeps what had been published at the exit.\<close>

fun monitor_loop :: "pipe_event list \<Rightarrow> pipe_monitor \<Rightarrow> pipe_monitor + pipe_monitor" where
  "monitor_loop [] m = Inr m"
| "monitor_loop (ev # evs) m = (case monitor_step ev m of Inl _ \<Rightarrow> Inl m | Inr m' \<Rightarrow> monitor_loop evs m')"


section \<open>Vocabulary of the statements\<close>

text \<open>The terminated lines of a text and what follows the last of them.\<close>

fun stream_lines :: "string \<Rightarrow> string \<Rightarrow> string list \<times> string" where
  "stream_lines acc [] = ([], acc)"
| "stream_lines acc (c # s) =
     (if c = CHR 0x0A then let (ls, r) = stream_lines [] s in (acc # ls, r) else stream_lines (acc @ [c]) s)"

text \<open>The bytes that arrive in a list of rounds.\<close>

fun bytes_of :: "pipe_event list \<Rightarrow> string" where
  "bytes_of [] = []"
| "bytes_of (ReadBytes s # evs) = s @ bytes_of evs"
| "bytes_of (_ # evs) = bytes_of evs"

text \<open>Rounds in which the child goes on.\<close>

definition harmless :: "pipe_event \<Rightarrow> bool" where
  "harmless ev = (case ev of PollFailed b \<Rightarrow> b | PollTimeout \<Rightarrow> True | ReadFailed b \<Rightarrow> b | ReadBytes s \<Rightarrow> s \<noteq> [])"

text \<open>A call whose bytes the pipe took, at once or in two parts.\<close>

definition whole :: "push_io \<Rightarrow> string \<Rightarrow> bool" where
  "whole io json \<longleftrightarrow> 0 \<le> pu_written io \<and> pu_written io \<le> int (length (framed json))
     \<and> (pu_written io = int (length (framed json)) \<or> pu_written io + pu_rest io = int (length (framed json)))"

definition push_all :: "(push_io \<times> string) list \<Rightarrow> bridge \<Rightarrow> bridge" where
  "push_all = fold (\<lambda>(io, json) b. snd (bridge_push io json b))"

definition demo_bridge :: bridge where
  "demo_bridge = (new_bridge default_bridge_config)\<lparr>br_write_fd := 5, br_child_pid := 77\<rparr>"

definition demo_push :: "int \<Rightarrow> int \<Rightarrow> push_io" where
  "demo_push n r = \<lparr>pu_written = n, pu_again = False, pu_rest = r, pu_rest_again = False, pu_err = []\<rparr>"

definition root_child :: child where
  "root_child = \<lparr>ch_no_new_privs = False, ch_root = None, ch_cwd_inside = False, ch_groups = [0], ch_gid = 0, ch_uid = 0, ch_filter = None\<rparr>"

text \<open>The child along a trace: whether it has been reaped, or \<open>None\<close> when it is waited for or signalled afterwards, or another process is signalled.\<close>

fun reaped :: "int \<Rightarrow> bool \<Rightarrow> bridge_out list \<Rightarrow> bool option" where
  "reaped pid r [] = Some r"
| "reaped pid r (Polled w # os) = (if r then None else reaped pid (w = pid) os)"
| "reaped pid r (SignalTo p s # os) = (if r \<or> p \<noteq> pid then None else reaped pid r os)"
| "reaped pid r (AwaitedExit p # os) = (if r \<or> p \<noteq> pid then None else reaped pid True os)"
| "reaped pid r (_ # os) = reaped pid r os"

definition shutdown_trace :: "(nat \<Rightarrow> int) \<Rightarrow> bridge \<Rightarrow> bridge_out list" where
  "shutdown_trace waits b = drop (length (br_outs b)) (br_outs (snd (bridge_shutdown waits b)))"


section \<open>Lines\<close>

lemma stream_lines_append:
  "stream_lines acc (s @ t) =
     (let (ls, r) = stream_lines acc s; (ls', r') = stream_lines r t in (ls @ ls', r'))"
  by (induction acc s rule: stream_lines.induct) (auto simp: Let_def split: prod.split)

lemma stream_lines_plain: "CHR 0x0A \<notin> set s \<Longrightarrow> stream_lines acc s = ([], acc @ s)"
  by (induction acc s rule: stream_lines.induct) auto

lemma stream_lines_line: "CHR 0x0A \<notin> set a \<Longrightarrow> stream_lines acc (a @ CHR 0x0A # b) = (let (ls, r) = stream_lines [] b in ((acc @ a) # ls, r))"
  by (simp add: stream_lines_append stream_lines_plain Let_def split: prod.split)

lemma takeWhile_all: "c \<notin> set s \<Longrightarrow> takeWhile (\<lambda>d. d \<noteq> c) s = s"
  by (induction s) auto

lemma takeWhile_upto: "c \<notin> set a \<Longrightarrow> takeWhile (\<lambda>d. d \<noteq> c) (a @ c # b) = a"
  by (induction a) auto

lemma take_lines_plain: "CHR 0x0A \<notin> set s \<Longrightarrow> take_lines s = (s, [])"
  by (subst take_lines.simps) (simp add: takeWhile_all)

lemma take_lines_line:
  "CHR 0x0A \<notin> set a \<Longrightarrow> take_lines (a @ CHR 0x0A # b) = (let (rest, out) = take_lines b in (rest, (if a = [] then [] else framed a) @ out))"
  by (subst take_lines.simps) (simp add: takeWhile_upto framed_def)

lemma publish_lines_plain: "CHR 0x0A \<notin> set s \<Longrightarrow> publish_lines s = []"
  by (subst publish_lines.simps) (simp add: takeWhile_all)

lemma publish_lines_line: "CHR 0x0A \<notin> set a \<Longrightarrow> publish_lines (a @ CHR 0x0A # b) = (if a = [] then [] else [a]) @ publish_lines b"
  by (subst publish_lines.simps) (simp add: takeWhile_upto)

text \<open>Induction over the lines of a text.\<close>

lemma lines_induct [case_names plain line]:
  assumes "\<And>s. c \<notin> set s \<Longrightarrow> P s" "\<And>a b. c \<notin> set a \<Longrightarrow> P b \<Longrightarrow> P (a @ c # b)"
  shows "P s"
proof (induction s rule: length_induct)
  case (1 s)
  show ?case
  proof (cases "c \<in> set s")
    case True
    then obtain a b where "s = a @ c # b" "c \<notin> set a" by (meson split_list_first)
    then show ?thesis using 1 assms(2) by simp
  qed (rule assms(1))
qed

text \<open>The two passes of the monitor publish exactly the terminated lines that are not empty.\<close>

lemma monitor_lines:
  "fst (take_lines s) = snd (stream_lines [] s)"
  "publish_lines (snd (take_lines s)) = filter (\<lambda>l. l \<noteq> []) (fst (stream_lines [] s))"
proof (induction s rule: lines_induct [where c = "CHR 0x0A"])
  case (plain s)
  {
    case 1
    then show ?case using plain by (simp add: take_lines_plain stream_lines_plain)
  next
    case 2
    then show ?case using plain by (simp add: take_lines_plain stream_lines_plain publish_lines_plain)
  }
next
  case (line a b)
  {
    case 1
    then show ?case using line by (simp add: take_lines_line stream_lines_line Let_def split_beta)
  next
    case 2
    have "publish_lines (framed a @ x) = (if a = [] then [] else [a]) @ publish_lines x" for x
      using publish_lines_line [OF line(1)] by (simp add: framed_def)
    then show ?case using line by (simp add: take_lines_line stream_lines_line Let_def split_beta)
  }
qed

lemma partial_line_bounded:
  assumes "monitor_step (ReadBytes s) m = Inr m'"
  shows "length (mo_buffer m') \<le> monitor_limit"
  using assms by (simp add: monitor_step_def split: prod.splits if_splits) auto

lemma stream_rest_plain: "CHR 0x0A \<notin> set acc \<Longrightarrow> CHR 0x0A \<notin> set (snd (stream_lines acc s))"
  by (induction acc s rule: stream_lines.induct) (auto simp: Let_def split: prod.split)

text \<open>A child that goes on has published the terminated lines of what it was sent, as long as no unterminated line passes the limit.\<close>

lemma monitor_loop_lines:
  assumes "\<forall>ev \<in> set evs. harmless ev" "\<forall>n. length (snd (stream_lines (mo_buffer m) (take n (bytes_of evs)))) \<le> monitor_limit"
    "CHR 0x0A \<notin> set (mo_buffer m)"
  shows "\<exists>m'. monitor_loop evs m = Inr m' \<and> mo_buffer m' = snd (stream_lines (mo_buffer m) (bytes_of evs))
    \<and> mo_published m' = mo_published m @ filter (\<lambda>l. l \<noteq> []) (fst (stream_lines (mo_buffer m) (bytes_of evs)))"
  using assms
proof (induction evs arbitrary: m)
  case (Cons ev evs)
  show ?case
  proof (cases ev)
    case (ReadBytes s)
    let ?r = "snd (stream_lines (mo_buffer m) s)" and ?ls = "fst (stream_lines (mo_buffer m) s)"
    have acc: "stream_lines [] (mo_buffer m @ s) = (?ls, ?r)"
      using Cons.prems(3) by (simp add: stream_lines_append stream_lines_plain split_beta)
    let ?m = "m\<lparr>mo_buffer := ?r, mo_published := mo_published m @ filter (\<lambda>l. l \<noteq> []) ?ls\<rparr>"
    have "length ?r \<le> monitor_limit" using Cons.prems(2) [rule_format, of "length s"] ReadBytes by simp
    then have step: "monitor_step ev m = Inr ?m"
      using Cons.prems(1) monitor_lines [of "mo_buffer m @ s"] ReadBytes by (simp add: monitor_step_def harmless_def split_beta acc)
    have "\<forall>n. length (snd (stream_lines (mo_buffer ?m) (take n (bytes_of evs)))) \<le> monitor_limit"
    proof
      fix n
      show "length (snd (stream_lines (mo_buffer ?m) (take n (bytes_of evs)))) \<le> monitor_limit"
        using Cons.prems(2) [rule_format, of "length s + n"] ReadBytes by (simp add: stream_lines_append split_beta Let_def)
    qed
    moreover have "CHR 0x0A \<notin> set ?r" using stream_rest_plain [OF Cons.prems(3)] .
    ultimately show ?thesis using Cons.IH [of ?m] Cons.prems(1) ReadBytes step
      by (simp add: stream_lines_append split_beta Let_def)
  qed (use Cons in \<open>auto simp: monitor_step_def harmless_def\<close>)
qed (simp)


section \<open>From the caller to the subscribers\<close>

lemma push_frame [simp]:
  "br_write_fd (snd (bridge_push io json b)) = br_write_fd b" "br_child_pid (snd (bridge_push io json b)) = br_child_pid b"
  by (simp_all add: bridge_push_def Let_def)

lemma push_whole:
  assumes "fd_valid (br_write_fd b)" "whole io json"
  shows "fst (bridge_push io json b) = None \<and> br_stream (snd (bridge_push io json b)) = br_stream b @ framed json"
proof -
  let ?n = "nat (pu_written io)"
  have "take ?n (framed json) @ take (nat (pu_rest io)) (drop ?n (framed json)) = framed json"
    if "pu_written io + pu_rest io = int (length (framed json))"
  proof -
    have "nat (pu_rest io) = length (drop ?n (framed json))" using that assms(2) by (simp add: whole_def) arith
    then show ?thesis by (metis append_take_drop_id order_refl take_all)
  qed
  then show ?thesis using assms by (auto simp: bridge_push_def whole_def Let_def)
qed

lemma push_all_stream:
  assumes "fd_valid (br_write_fd b)" "\<forall>(io, json) \<in> set calls. whole io json"
  shows "br_stream (push_all calls b) = br_stream b @ concat (map (framed \<circ> snd) calls)"
  using assms
proof (induction calls arbitrary: b)
  case (Cons c calls)
  then show ?case using push_whole [of b "fst c" "snd c"] by (auto simp: push_all_def split_beta)
qed (simp add: push_all_def)

lemma framed_lines:
  assumes "\<forall>l \<in> set ls. CHR 0x0A \<notin> set l"
  shows "stream_lines [] (concat (map framed ls)) = (ls, [])"
  using assms by (induction ls) (auto simp: framed_def stream_lines_line)

lemma framed_partial:
  assumes "\<forall>l \<in> set ls. CHR 0x0A \<notin> set l \<and> length l \<le> k"
  shows "length (snd (stream_lines [] (take n (concat (map framed ls))))) \<le> k"
  using assms
proof (induction ls arbitrary: n)
  case (Cons l ls)
  show ?case
  proof (cases "n \<le> length l")
    case True
    then have "take n (framed l @ x) = take n l" for x by (simp add: framed_def)
    moreover have "CHR 0x0A \<notin> set (take n l)" using Cons.prems by (auto dest: in_set_takeD)
    moreover have "length (take n l) \<le> k" using Cons.prems by (simp add: min.coboundedI1)
    ultimately show ?thesis by (simp add: stream_lines_plain del: take_append length_take)
  next
    case False
    then obtain d where n: "n = Suc (length l) + d" by (metis add_Suc_right less_imp_Suc_add linorder_not_le plus_nat.simps(2))
    have "take n (framed l @ x) = l @ CHR 0x0A # take d x" for x by (simp add: framed_def n)
    then show ?thesis using Cons.IH [of d] Cons.prems by (simp add: stream_lines_line split_beta Let_def del: take_append)
  qed
qed simp



text \<open>
  A short second write is not noticed: the call reports success, the message is cut without a line break, and the next message is published glued to
  the piece, so that neither of the two arrives.
\<close>

theorem short_write_glues_messages:
  assumes "fd_valid (br_write_fd b)" "br_stream b = []" "0 < pu_written io" "0 \<le> pu_rest io" "k = nat (pu_written io + pu_rest io)" "k \<le> length j1"
    "CHR 0x0A \<notin> set j1 \<union> set j2" "whole io2 j2" "length j1 + length j2 \<le> 1048576"
  shows "fst (bridge_push io j1 b) = None
    \<and> (\<exists>m. monitor_loop [ReadBytes (br_stream (push_all [(io, j1), (io2, j2)] b))] new_monitor = Inr m \<and> mo_published m = [take k j1 @ j2])"
proof -
  let ?n = "nat (pu_written io)" and ?r = "nat (pu_rest io)"
  have k: "k = ?n + ?r" using assms(3-5) by (simp add: nat_add_distrib)
  have "take ?n (framed j1) @ take ?r (drop ?n (framed j1)) = take k j1"
    using k assms(6) by (simp add: framed_def flip: take_add)
  then have first: "fst (bridge_push io j1 b) = None" "br_stream (snd (bridge_push io j1 b)) = take k j1"
    using assms(1-6) k by (auto simp: bridge_push_def Let_def framed_def)
  then have stream: "br_stream (push_all [(io, j1), (io2, j2)] b) = (take k j1 @ j2) @ [CHR 0x0A]"
    using push_whole [of "snd (bridge_push io j1 b)" io2 j2] assms(1,8) by (simp add: push_all_def framed_def)
  have plain: "CHR 0x0A \<notin> set (take k j1 @ j2)" using assms(7) by (auto dest: in_set_takeD)
  have "k > 0" using k assms(3) by simp
  then have "take k j1 @ j2 \<noteq> []" using assms(6) by auto
  moreover have lines: "\<forall>l \<in> set [take k j1 @ j2]. CHR 0x0A \<notin> set l \<and> length l \<le> monitor_limit"
    using plain assms(9) by (simp add: monitor_limit_def)
  ultimately show ?thesis using first(1) framed_partial [OF lines] framed_lines [of "[take k j1 @ j2]"]
      monitor_loop_lines [of "[ReadBytes ((take k j1 @ j2) @ [CHR 0x0A])]" new_monitor]
    unfolding stream by (simp add: harmless_def new_monitor_def framed_def del: monitor_loop.simps) blast
qed

theorem short_write_glues_messages_witness:
  "\<exists>m. monitor_loop [ReadBytes (br_stream (push_all [(demo_push 1 1, ''{1}''), (demo_push 4 0, ''{2}'')] demo_bridge))] new_monitor = Inr m
     \<and> mo_published m = [''{1{2}'']"
  using short_write_glues_messages [of demo_bridge "demo_push 1 1" 2 "''{1}''" "''{2}''" "demo_push 4 0"]
  by (simp add: demo_bridge_def new_bridge_def demo_push_def fd_valid_def whole_def framed_def)


section \<open>The sandbox\<close>



text \<open>The filter lets no program be started and no identity be changed, but it does let the child connect to other hosts and signal processes.\<close>

lemma whitelist_refuses:
  "set [''execve'', ''execveat'', ''ptrace'', ''setuid'', ''setresuid'', ''mount'', ''chroot'', ''prctl'', ''bpf''] \<inter> set syscall_whitelist = {}"
  "{''connect'', ''kill'', ''clone'', ''openat''} \<subseteq> set syscall_whitelist"
  "length syscall_whitelist = 65" "distinct syscall_whitelist"
  by (simp_all add: syscall_whitelist_def)

lemma filter_fails_open:
  "child_main (\<lambda>call. call \<noteq> SeccompLoad) None cfg root_child = Inr c \<Longrightarrow> ch_filter c = None"
  by (auto simp: child_main_def apply_no_new_privs_def apply_fs_isolation_def apply_uid_drop_def apply_seccomp_filter_def run_event_loop_def root_child_def Let_def)


section \<open>The life of the child\<close>

lemma emit_frame [simp]:
  "br_outs (br_emit os b) = br_outs b @ os" "br_write_fd (br_emit os b) = br_write_fd b" "br_child_pid (br_emit os b) = br_child_pid b"
  by (simp_all add: br_emit_def)

lemma set_write_fd_frame [simp]:
  "br_write_fd (set_write_fd fd b) = fd" "br_child_pid (set_write_fd fd b) = br_child_pid b"
  "br_outs (set_write_fd fd b) = br_outs b @ (if br_write_fd b \<ge> 0 then [FdOut (CloseFd (br_write_fd b))] else [])"
  by (simp_all add: set_write_fd_def fd_move_assign_def)

lemma poll_child_reaps:
  assumes "\<forall>k. waits k = 0 \<or> waits k = pid" "0 < pid" "w = 0"
  shows "reaped pid False (snd (poll_child waits i n w) @ os) = reaped pid (fst (poll_child waits i n w) = pid) os
    \<and> (fst (poll_child waits i n w) = 0 \<or> fst (poll_child waits i n w) = pid) \<and> length (snd (poll_child waits i n w)) \<le> n"
  using assms(3)
proof (induction n arbitrary: i w)
  case 0
  then show ?case using assms(2) by simp
next
  case (Suc n)
  show ?case
  proof (cases "waits i = pid")
    case True
    then show ?thesis using assms(2) by simp
  next
    case False
    then have "waits i = 0" using assms(1) by blast
    then show ?thesis using Suc.IH [of 0 "Suc i"] False by (simp add: split_beta)
  qed
qed

lemma reaped_closed [simp]: "reaped pid r (FdOut x # os) = reaped pid r os"
  by simp



text \<open>A child that has died blocks a new one until the bridge is shut down; a failed fork leaves both ends of the pipe closed.\<close>

lemma dead_child_blocks_spawn: "0 < br_child_pid b \<Longrightarrow> void_is_err (fst (spawn io b)) \<and> snd (spawn io b) = b"
  by (simp add: spawn_def void_is_err_def)

lemma failed_fork_closes:
  assumes "br_child_pid b \<le> 0" "si_pipe io = Some (r, w)" "si_fork io = -1"
  shows "br_outs (snd (spawn io b)) = br_outs b @ [PipeEnd r, PipeEnd w, FdOut (CloseFd r), FdOut (CloseFd w)]" "void_is_err (fst (spawn io b))"
  using assms by (simp_all add: spawn_def void_is_err_def)

lemma spawned_bridge:
  assumes "br_child_pid b \<le> 0" "si_pipe io = Some (r, w)" "0 < si_fork io" "0 \<le> w"
  shows "void_ok (fst (spawn io b))" "fd_valid (br_write_fd (snd (spawn io b)))" "br_stream (snd (spawn io b)) = []" "br_child_pid (snd (spawn io b)) = si_fork io"
  using assms by (simp_all add: spawn_def void_ok_def fd_valid_def)

end
