(* ===== verification/AttackSimulator.thy ===== *)
theory AttackSimulator
  imports Base64 Float_Text Net
begin

text \<open>
  \<open>attacks/AttackSimulator.cpp\<close>: the rehearsal of attack scenarios against the mesh. The orchestrator
  runs registered scenarios and records what happened; playbooks group scenarios by phase and are kept in text files; the assessment
  computes detection rates and a report; the remaining helpers build test payloads. What a registered executor or injector does is an argument.
\<close>

unbundle bit_operations_syntax


section \<open>Scenarios and results\<close>

datatype attack_phase =
    RECONNAISSANCE | INITIAL_ACCESS | EXECUTION | PERSISTENCE | PRIVILEGE_ESCALATION | DEFENSE_EVASION
  | CREDENTIAL_ACCESS | DISCOVERY | LATERAL_MOVEMENT | COLLECTION | COMMAND_AND_CONTROL | IMPACT

text \<open>The underlying integer of a phase.\<close>

definition phase_int :: "attack_phase \<Rightarrow> int" where
  "phase_int p = (case p of
     RECONNAISSANCE \<Rightarrow> 0 | INITIAL_ACCESS \<Rightarrow> 1 | EXECUTION \<Rightarrow> 2 | PERSISTENCE \<Rightarrow> 3 | PRIVILEGE_ESCALATION \<Rightarrow> 4 | DEFENSE_EVASION \<Rightarrow> 5
   | CREDENTIAL_ACCESS \<Rightarrow> 6 | DISCOVERY \<Rightarrow> 7 | LATERAL_MOVEMENT \<Rightarrow> 8 | COLLECTION \<Rightarrow> 9 | COMMAND_AND_CONTROL \<Rightarrow> 10 | IMPACT \<Rightarrow> 11)"

datatype attack_severity = SEV_LOW | SEV_MEDIUM | SEV_HIGH | SEV_CRITICAL

datatype detection_result = DETECTED | BLOCKED | ALLOWED | PARTIALLY_DETECTED

record attack_scenario =
  sc_scenario_id :: string
  sc_name :: string
  sc_description :: string
  sc_phase :: attack_phase
  sc_technique :: nat
  sc_severity :: attack_severity
  sc_mitre_tactics :: "string list"
  sc_detection_signatures :: "string list"
  sc_success_probability_percent :: int

text \<open>The field \<open>detection\<close> has no initial value: \<open>None\<close> is an indeterminate one.\<close>

record attack_result =
  ar_scenario_id :: string
  ar_start_time :: time
  ar_end_time :: time
  ar_detection :: "detection_result option"
  ar_execution_successful :: bool
  ar_error_message :: string
  ar_telemetry_captured :: "(string, string) omap"

record detection_metrics =
  dm_scenario_id :: string
  dm_total_attempts :: int
  dm_detected_count :: int
  dm_blocked_count :: int
  dm_allowed_count :: int
  dm_avg_detection_time :: int
  dm_detection_rate_percent :: rat
  dm_block_rate_percent :: rat


section \<open>The orchestrator\<close>

text \<open>What a registered attack does when it is run: it returns, throws a standard exception, or throws something else.\<close>

datatype run_outcome = Returned bool | Threw string | ThrewOther

record atomic_attack =
  aa_attack_id :: string
  aa_executor :: "nat \<Rightarrow> run_outcome"
  aa_telemetry_generator :: "(string, string) omap option"

text \<open>\<open>ao_notified\<close> is what the detection callback was given, \<open>None\<close> when there is no callback; an executor is given the number of results so far.\<close>

record orchestrator =
  ao_scenarios :: "attack_scenario list"
  ao_atomic_attacks :: "(string, atomic_attack) omap"
  ao_results :: "attack_result list"
  ao_notified :: "attack_result list option"

definition new_orchestrator :: orchestrator where
  "new_orchestrator = \<lparr>ao_scenarios = [], ao_atomic_attacks = [], ao_results = [], ao_notified = None\<rparr>"

definition load_scenarios :: "attack_scenario list \<Rightarrow> orchestrator \<Rightarrow> orchestrator" where
  "load_scenarios scenarios a = a\<lparr>ao_scenarios := scenarios\<rparr>"

definition register_atomic_attack :: "atomic_attack \<Rightarrow> orchestrator \<Rightarrow> orchestrator" where
  "register_atomic_attack attack a = a\<lparr>ao_atomic_attacks := omap_insert (aa_attack_id attack) attack (ao_atomic_attacks a)\<rparr>"

definition get_scenarios_by_phase :: "attack_phase \<Rightarrow> orchestrator \<Rightarrow> attack_scenario list" where
  "get_scenarios_by_phase phase a = filter (\<lambda>s. sc_phase s = phase) (ao_scenarios a)"

definition get_scenarios_by_technique :: "nat \<Rightarrow> orchestrator \<Rightarrow> attack_scenario list" where
  "get_scenarios_by_technique technique a = filter (\<lambda>s. sc_technique s = technique) (ao_scenarios a)"

text \<open>\<open>None\<close> is an exception that is not a standard one and leaves the function.\<close>

definition execute_attack :: "orchestrator \<Rightarrow> attack_scenario \<Rightarrow> attack_result \<Rightarrow> (bool \<times> attack_result) option" where
  "execute_attack a scenario r =
     (case omap_lookup (ao_atomic_attacks a) (sc_scenario_id scenario) of
        None \<Rightarrow> Some (False, r\<lparr>ar_error_message := ''No atomic attack registered for '' @ sc_scenario_id scenario\<rparr>)
      | Some attack \<Rightarrow>
          (case aa_executor attack (length (ao_results a)) of
             ThrewOther \<Rightarrow> None
           | Threw e \<Rightarrow> Some (False, r\<lparr>ar_error_message := e, ar_detection := Some ALLOWED\<rparr>)
           | Returned ok \<Rightarrow>
               let r = (case aa_telemetry_generator attack of Some t \<Rightarrow> if ok then r\<lparr>ar_telemetry_captured := t\<rparr> else r | None \<Rightarrow> r)
               in Some (ok, r\<lparr>ar_detection := Some (if ok then DETECTED else ALLOWED)\<rparr>)))"

definition keep_result :: "attack_result \<Rightarrow> orchestrator \<Rightarrow> attack_result \<times> orchestrator" where
  "keep_result r a = (r, a\<lparr>ao_notified := map_option (\<lambda>rs. rs @ [r]) (ao_notified a), ao_results := ao_results a @ [r]\<rparr>)"

definition execute_scenario :: "time \<times> time \<Rightarrow> string \<Rightarrow> orchestrator \<Rightarrow> (attack_result \<times> orchestrator) option" where
  "execute_scenario clock scenario_id a =
     (let r = \<lparr>ar_scenario_id = scenario_id, ar_start_time = fst clock, ar_end_time = 0, ar_detection = None, ar_execution_successful = False,
               ar_error_message = [], ar_telemetry_captured = []\<rparr> in
      case find (\<lambda>s. sc_scenario_id s = scenario_id) (ao_scenarios a) of
        None \<Rightarrow>
          Some (keep_result (r\<lparr>ar_error_message := ''Scenario not found: '' @ scenario_id, ar_detection := Some ALLOWED, ar_end_time := snd clock\<rparr>) a)
      | Some s \<Rightarrow>
          (case execute_attack a s r of
             None \<Rightarrow> None
           | Some (ok, r) \<Rightarrow>
               let r = r\<lparr>ar_execution_successful := ok, ar_end_time := snd clock\<rparr>;
                   r = (if \<not> ok \<and> ar_error_message r = [] then r\<lparr>ar_error_message := ''Attack execution failed''\<rparr> else r)
               in Some (keep_result r a)))"

fun execute_campaign :: "(nat \<Rightarrow> time \<times> time) \<Rightarrow> string list \<Rightarrow> orchestrator \<Rightarrow> (attack_result list \<times> orchestrator) option" where
  "execute_campaign clock [] a = Some ([], a)"
| "execute_campaign clock (scenario_id # ids) a =
     (case execute_scenario (clock (length (ao_results a))) scenario_id a of
        None \<Rightarrow> None
      | Some (r, a) \<Rightarrow> map_option (\<lambda>(rs, a). (r # rs, a)) (execute_campaign clock ids a))"

definition count_detection :: "detection_result \<Rightarrow> attack_result list \<Rightarrow> int" where
  "count_detection d rs = int (length (filter (\<lambda>r. ar_detection r = Some d) rs))"

definition detection_time :: "attack_result \<Rightarrow> int" where
  "detection_time r = dmillis (ar_end_time r - ar_start_time r)"

definition calculate_metrics :: "string \<Rightarrow> orchestrator \<Rightarrow> detection_metrics" where
  "calculate_metrics scenario_id a =
     (let rs = filter (\<lambda>r. ar_scenario_id r = scenario_id) (ao_results a);
          total_n = int (length rs);
          detected = count_detection DETECTED rs;
          blocked = count_detection BLOCKED rs;
          spent = sum_list (map detection_time (filter (\<lambda>r. ar_detection r = Some DETECTED) rs))
      in \<lparr>dm_scenario_id = [], dm_total_attempts = total_n, dm_detected_count = detected, dm_blocked_count = blocked,
          dm_allowed_count = count_detection ALLOWED rs,
          dm_avg_detection_time = (if detected > 0 then trunc_div spent detected else 0),
          dm_detection_rate_percent = (if total_n > 0 then fdiv (fmul 100 (of_int detected)) (of_int total_n) else 0),
          dm_block_rate_percent = (if total_n > 0 then fdiv (fmul 100 (of_int blocked)) (of_int total_n) else 0)\<rparr>)"

text \<open>\<open>order\<close> is the order in which the set of scenarios is traversed.\<close>

definition calculate_all_metrics :: "string list \<Rightarrow> orchestrator \<Rightarrow> detection_metrics list" where
  "calculate_all_metrics order a = map (\<lambda>i. calculate_metrics i a) order"

definition get_overall_detection_rate :: "orchestrator \<Rightarrow> rat" where
  "get_overall_detection_rate a = 0"

definition get_undetected_techniques :: "orchestrator \<Rightarrow> string list" where
  "get_undetected_techniques a = []"


section \<open>Playbooks\<close>

text \<open>A phase read from a file can be any integer.\<close>

record playbook =
  pb_phases :: "(int, string list) omap"
  pb_name :: string

definition empty_playbook :: playbook where
  "empty_playbook = \<lparr>pb_phases = [], pb_name = []\<rparr>"

definition add_phase :: "attack_phase \<Rightarrow> string list \<Rightarrow> playbook \<Rightarrow> playbook" where
  "add_phase phase ids pb = pb\<lparr>pb_phases := omap_insert (phase_int phase) ids (pb_phases pb)\<rparr>"

definition get_phase_scenarios :: "attack_phase \<Rightarrow> playbook \<Rightarrow> string list" where
  "get_phase_scenarios phase pb = (case omap_lookup (pb_phases pb) (phase_int phase) of Some ids \<Rightarrow> ids | None \<Rightarrow> [])"

definition execute_playbook :: "playbook \<Rightarrow> bool" where
  "execute_playbook pb \<longleftrightarrow> pb_phases pb \<noteq> []"

definition validate_playbook :: "playbook \<Rightarrow> bool" where
  "validate_playbook pb \<longleftrightarrow> pb_phases pb \<noteq> []"

definition phase_line :: "int \<times> string list \<Rightarrow> string" where
  "phase_line p = int_str (fst p) @ '':'' @ join_fields (CHR '','') (snd p) @ [CHR 0x0A]"

text \<open>What is written to the file, and what is read from one; \<open>Inl\<close> is an exception of \<open>std::stoi\<close>.\<close>

definition save_playbook :: "playbook \<Rightarrow> string" where
  "save_playbook pb = ''# Red Team Playbook: '' @ pb_name pb @ [CHR 0x0A] @ concat (map phase_line (pb_phases pb))"

definition load_line :: "string \<Rightarrow> (int, string list) omap \<Rightarrow> (int, string list) omap option" where
  "load_line line phases =
     (if line = [] \<or> hd line = CHR ''#'' then Some phases
      else let before = takeWhile (\<lambda>c. c \<noteq> CHR '':'') line in
        if length before = length line then Some phases
        else case stoi before of
          None \<Rightarrow> None
        | Some (phase_val, _) \<Rightarrow>
            let rest = drop (length before + 1) line; ids = filter (\<lambda>i. i \<noteq> []) (getline_tokens (CHR '','') rest)
            in Some (omap_insert phase_val ids phases))"

fun load_lines :: "string list \<Rightarrow> (int, string list) omap \<Rightarrow> (int, string list) omap option" where
  "load_lines [] phases = Some phases"
| "load_lines (line # rest) phases = (case load_line line phases of None \<Rightarrow> None | Some phases \<Rightarrow> load_lines rest phases)"

definition load_playbook :: "string option \<Rightarrow> playbook \<Rightarrow> (bool \<times> playbook) option" where
  "load_playbook content pb =
     (case content of
        None \<Rightarrow> Some (False, pb)
      | Some s \<Rightarrow> map_option (\<lambda>phases. (True, pb\<lparr>pb_phases := phases\<rparr>)) (load_lines (getline_tokens (CHR 0x0A) s) []))"

definition get_common_playbooks :: "string list" where
  "get_common_playbooks = [''initial_access'', ''lateral_movement'', ''full_chain'', ''defense_evasion'']"

definition create_initial_access_playbook :: playbook where
  "create_initial_access_playbook =
     add_phase INITIAL_ACCESS [''phishing_link'', ''exploit_vuln'']
       (add_phase RECONNAISSANCE [''scan_discovery'', ''port_enumeration''] (empty_playbook\<lparr>pb_name := ''initial_access''\<rparr>))"

definition create_lateral_movement_playbook :: playbook where
  "create_lateral_movement_playbook =
     add_phase LATERAL_MOVEMENT [''ssh_lateral'', ''wmi_lateral'']
       (add_phase DISCOVERY [''account_discovery'', ''remote_system_discovery''] (empty_playbook\<lparr>pb_name := ''lateral_movement''\<rparr>))"

definition create_full_chain_playbook :: playbook where
  "create_full_chain_playbook =
     fold (\<lambda>(p, ids). add_phase p ids)
       [(RECONNAISSANCE, [''network_scan'']), (INITIAL_ACCESS, [''exploit_public_app'']), (EXECUTION, [''command_interpreter'']),
        (PERSISTENCE, [''scheduled_task'']), (LATERAL_MOVEMENT, [''remote_services'']), (COLLECTION, [''local_data_staging'']),
        (COMMAND_AND_CONTROL, [''app_layer_protocol'']), (IMPACT, [''data_encrypted''])]
       (empty_playbook\<lparr>pb_name := ''full_chain''\<rparr>)"


section \<open>The assessment\<close>

record assessment =
  as_baseline_results :: "attack_result list"
  as_technique_rates :: "(string, rat) omap"
  as_phase_rates :: "(int, rat) omap"

definition new_assessment :: assessment where
  "new_assessment = \<lparr>as_baseline_results = [], as_technique_rates = [], as_phase_rates = []\<rparr>"

definition set_baseline_results :: "attack_result list \<Rightarrow> assessment \<Rightarrow> assessment" where
  "set_baseline_results results e = e\<lparr>as_baseline_results := results\<rparr>"

definition noticed :: "attack_result \<Rightarrow> bool" where
  "noticed r \<longleftrightarrow> ar_detection r = Some DETECTED \<or> ar_detection r = Some BLOCKED"

definition bump :: "'k :: linorder \<Rightarrow> ('k, int) omap \<Rightarrow> ('k, int) omap" where
  "bump k m = omap_insert k ((case omap_lookup m k of Some n \<Rightarrow> n | None \<Rightarrow> 0) + 1) m"

text \<open>One pass over the results: the attempts and the noticed attempts of each key.\<close>

fun tally :: "(attack_result \<Rightarrow> 'k :: linorder) \<Rightarrow> attack_result list \<Rightarrow> ('k, int) omap \<times> ('k, int) omap \<Rightarrow> ('k, int) omap \<times> ('k, int) omap" where
  "tally key [] acc = acc"
| "tally key (r # rs) (tot, det) = tally key rs (bump (key r) tot, if noticed r then bump (key r) det else det)"

definition rates :: "('k :: linorder, int) omap \<times> ('k, int) omap \<Rightarrow> ('k, rat) omap" where
  "rates acc = map (\<lambda>(k, n). (k, if n > 0 then fdiv (of_int (case omap_lookup (snd acc) k of Some d \<Rightarrow> d | None \<Rightarrow> 0)) (of_int n) else 0)) (fst acc)"

definition run_coverage_assessment :: "assessment \<Rightarrow> assessment" where
  "run_coverage_assessment e =
     e\<lparr>as_technique_rates := rates (tally ar_scenario_id (as_baseline_results e) ([], [])),
       as_phase_rates := rates (tally (\<lambda>_. phase_int RECONNAISSANCE) (as_baseline_results e) ([], []))\<rparr>"

definition run_detection_rate_assessment :: "assessment \<Rightarrow> assessment" where
  "run_detection_rate_assessment = run_coverage_assessment"

definition run_impact_assessment :: "assessment \<Rightarrow> assessment" where
  "run_impact_assessment = run_coverage_assessment"

definition calculate_detection_coverage :: "assessment \<Rightarrow> rat" where
  "calculate_detection_coverage e =
     (if as_technique_rates e = [] then 0
      else fdiv (foldl fadd 0 (map snd (as_technique_rates e))) (of_nat (length (as_technique_rates e))))"

definition calculate_false_positive_rate :: "assessment \<Rightarrow> rat" where
  "calculate_false_positive_rate e = 0"

definition generate_assessment_report :: "assessment \<Rightarrow> string" where
  "generate_assessment_report e =
     (let nl = [CHR 0x0A]; percent = (\<lambda>x. general6 (fmul x 100) @ ''%'') in
      ''=== Neuro-Mesh Security Assessment Report ==='' @ nl
      @ ''Detection coverage: '' @ percent (calculate_detection_coverage e) @ nl
      @ ''Techniques assessed: '' @ nat_str (length (as_technique_rates e)) @ nl
      @ ''Phases covered: '' @ nat_str (length (as_phase_rates e)) @ nl
      @ (if as_technique_rates e = [] then []
         else nl @ ''Technique Detection Rates:'' @ nl
           @ concat (map (\<lambda>(tech, rate). ''  '' @ tech @ '': '' @ percent rate @ nl) (as_technique_rates e))))"


section \<open>Payloads of the rehearsal\<close>

fun encode_base64 :: "string \<Rightarrow> string" where
  "encode_base64 [] = []"
| "encode_base64 (a # rest) =
     (let n = push_bit 16 (byte a) :: 32 word;
          n = (case rest of b # _ \<Rightarrow> n OR push_bit 8 (byte b) | [] \<Rightarrow> n);
          n = (case rest of _ # c # _ \<Rightarrow> n OR byte c | _ \<Rightarrow> n);
          table = (\<lambda>w. b64_chars ! unat (w AND 0x3F))
      in [table (drop_bit 18 n), table (drop_bit 12 n), if length rest \<ge> 1 then table (drop_bit 6 n) else CHR ''='',
          if length rest \<ge> 2 then table n else CHR ''=''] @ encode_base64 (drop 2 rest))"

definition encode_payload :: "string \<Rightarrow> string \<Rightarrow> string" where
  "encode_payload payload encoding =
     (if encoding = ''base64'' then encode_base64 payload else if encoding = ''hex'' then hex_string payload else payload)"

text \<open>The result for an empty key is undefined: the index is taken modulo zero.\<close>

definition xor_char :: "char \<Rightarrow> char \<Rightarrow> char" where
  "xor_char a b = char_of (unat (byte a XOR byte b))"

definition encrypt_payload :: "string \<Rightarrow> string \<Rightarrow> string option" where
  "encrypt_payload payload key =
     (if payload \<noteq> [] \<and> key = [] then None
      else Some (concat (map (\<lambda>i. [xor_char (payload ! i) (key ! (i mod length key)), char_of ((i * 37 + 13) mod 256 :: nat)]) [0..<length payload])))"

text \<open>The bytes drawn by the generator, with their positions.\<close>

definition mutate_signature :: "(nat \<times> char) list \<Rightarrow> string \<Rightarrow> string" where
  "mutate_signature draws original =
     (if original = [] then []
      else let m = fold (\<lambda>(p, c) m. m[p := c]) (take (min (length original div 10) 16) draws) original
        in if length m > 3 then (m[0 := hd original])[length m - 1 := last original] else m)"

definition obfuscate_shellcode :: "8 word \<Rightarrow> string \<Rightarrow> string" where
  "obfuscate_shellcode rd shellcode =
     (if shellcode = [] then []
      else let key = char_of (unat (0xAA XOR rd))
        in [key] @ concat (map (\<lambda>i. [xor_char (shellcode ! i) key, char_of (i mod 256 :: nat)]) [0..<length shellcode]) @ [CHR 0xCC])"

definition create_persistence_legitimate :: "string \<Rightarrow> string" where
  "create_persistence_legitimate payload_path = ''systemd user unit: ~/.config/systemd/user/legit-service.service -> '' @ payload_path"

definition generate_anti_debug_tricks :: "string list" where
  "generate_anti_debug_tricks =
     [''PTRACE_TRACEME check'', ''LD_PRELOAD hook detection'', ''/proc/self/status TracerPid inspection'', ''INT3 breakpoint scan'',
      ''Timing-based debugger detection (RDTSC)'']"

definition generate_anti_vm_tricks :: "string list" where
  "generate_anti_vm_tricks =
     [''CPUID hypervisor bit check'', ''VMware I/O port probe'', ''VirtualBox DMI product scan'', ''QEMU fw_cfg detection'',
      ''MAC address OUI enumeration'']"

text \<open>The simulator: a socket is an argument, what is done with it a trace; an injector is an optional argument.\<close>

datatype sim_out = ConnectTo "nat list" "16 word" | SendBytes "nat list" "16 word" nat | CloseSock int

definition sim_address :: "string \<Rightarrow> nat list" where
  "sim_address ip = (case inet_pton4 (c_string ip) of Some a \<Rightarrow> a | None \<Rightarrow> [0, 0, 0, 0])"

definition send_malicious_packet :: "int \<Rightarrow> string \<Rightarrow> int \<Rightarrow> nat \<Rightarrow> bool \<times> sim_out list" where
  "send_malicious_packet sock ip port len =
     (if sock < 0 then (False, []) else (True, [SendBytes (sim_address ip) (word_of_int port) len, CloseSock sock]))"

definition simulate_network_attack :: "int \<Rightarrow> string \<Rightarrow> int \<Rightarrow> string \<Rightarrow> bool \<times> sim_out list" where
  "simulate_network_attack sock ip port attack_type =
     (if attack_type = ''syn_flood'' \<or> attack_type = ''syn_probe''
      then if sock < 0 then (False, []) else (True, [ConnectTo (sim_address ip) (word_of_int port), CloseSock sock])
      else if attack_type = ''udp_flood''
      then if sock < 0 then (False, []) else (True, [SendBytes (sim_address ip) (word_of_int port) 1024, CloseSock sock])
      else if attack_type = ''malicious_payload'' then send_malicious_packet sock ip port 1024
      else (False, []))"

definition simulate_endpoint_attack :: "(int \<Rightarrow> string \<Rightarrow> bool) option \<Rightarrow> string \<Rightarrow> string \<Rightarrow> bool" where
  "simulate_endpoint_attack injector target_process attack_type =
     (case injector of Some inject \<Rightarrow> if target_process \<noteq> [] then inject 0 attack_type else False | None \<Rightarrow> False)"

definition simulate_lateral_movement :: "(string \<Rightarrow> string \<Rightarrow> bool) option \<Rightarrow> string \<Rightarrow> string \<Rightarrow> string \<Rightarrow> bool" where
  "simulate_lateral_movement injector source_node target_node technique =
     (case injector of Some inject \<Rightarrow> inject target_node (''LATERAL|'' @ source_node @ ''|'' @ technique) | None \<Rightarrow> False)"

definition simulate_command_and_control :: "(string \<Rightarrow> string \<Rightarrow> bool) option \<Rightarrow> string \<Rightarrow> string \<Rightarrow> bool" where
  "simulate_command_and_control injector c2_server protocol =
     (case injector of
        Some inject \<Rightarrow> if c2_server \<noteq> [] then inject c2_server (''C2_BEACON|'' @ protocol @ ''|'' @ c2_server) else False
      | None \<Rightarrow> False)"


section \<open>Vocabulary of the statements\<close>

text \<open>What the methods of the orchestrator record about a run.\<close>

definition results_of :: "string \<Rightarrow> orchestrator \<Rightarrow> attack_result list" where
  "results_of scenario_id a = filter (\<lambda>r. ar_scenario_id r = scenario_id) (ao_results a)"

definition line_of :: "int \<times> string list \<Rightarrow> string" where
  "line_of p = int_str (fst p) @ '':'' @ join_fields (CHR '','') (snd p)"

definition tally_of :: "(attack_result \<Rightarrow> 'k) \<Rightarrow> (attack_result \<Rightarrow> bool) \<Rightarrow> attack_result list \<Rightarrow> 'k \<Rightarrow> int" where
  "tally_of key P rs k = int (length (filter (\<lambda>r. key r = k \<and> P r) rs))"

definition at0 :: "('k :: linorder, int) omap \<Rightarrow> 'k \<Rightarrow> int" where
  "at0 m k = (case omap_lookup m k of Some n \<Rightarrow> n | None \<Rightarrow> 0)"

definition demo_result :: "detection_result \<Rightarrow> attack_result" where
  "demo_result d = \<lparr>ar_scenario_id = ''scan'', ar_start_time = 0, ar_end_time = 1, ar_detection = Some d, ar_execution_successful = True, ar_error_message = [],
     ar_telemetry_captured = []\<rparr>"

definition demo_scenario :: attack_scenario where
  "demo_scenario = \<lparr>sc_scenario_id = ''scan'', sc_name = ''scan'', sc_description = [], sc_phase = DISCOVERY, sc_technique = 3, sc_severity = SEV_LOW,
     sc_mitre_tactics = [], sc_detection_signatures = [], sc_success_probability_percent = 50\<rparr>"

definition demo_orchestrator :: orchestrator where
  "demo_orchestrator = register_atomic_attack \<lparr>aa_attack_id = ''scan'', aa_executor = (\<lambda>_. Returned True), aa_telemetry_generator = None\<rparr>
     (load_scenarios [demo_scenario] new_orchestrator)"

text \<open>Texts that the file format keeps.\<close>

definition plain_id :: "string \<Rightarrow> bool" where
  "plain_id i \<longleftrightarrow> i \<noteq> [] \<and> CHR '','' \<notin> set i \<and> CHR 0x0A \<notin> set i"

definition phase_ok :: "int \<times> string list \<Rightarrow> bool" where
  "phase_ok p \<longleftrightarrow> - (2 ^ 31) \<le> fst p \<and> fst p < 2 ^ 31 \<and> (\<forall>i \<in> set (snd p). plain_id i)"


section \<open>The orchestrator\<close>

lemma execute_attack_detection:
  assumes "execute_attack a s r = Some (ok, r')" "ar_detection r = None"
  shows "ar_detection r' = (if omap_lookup (ao_atomic_attacks a) (sc_scenario_id s) = None then None else Some (if ok then DETECTED else ALLOWED))"
    "ar_scenario_id r' = ar_scenario_id r"
proof -
  show "ar_detection r' = (if omap_lookup (ao_atomic_attacks a) (sc_scenario_id s) = None then None else Some (if ok then DETECTED else ALLOWED))"
  proof (cases "omap_lookup (ao_atomic_attacks a) (sc_scenario_id s)")
    case None
    then show ?thesis using assms by (auto simp: execute_attack_def)
  next
    case (Some att)
    then show ?thesis using assms by (cases "aa_executor att (length (ao_results a))") (auto simp: execute_attack_def Let_def)
  qed
  show "ar_scenario_id r' = ar_scenario_id r"
    using assms by (auto simp: execute_attack_def Let_def split: option.splits run_outcome.splits if_splits)
qed

text \<open>
  What is recorded as detected is the success of the attack and not an observation of the defence: for a registered scenario the result is
  \<open>DETECTED\<close> exactly when the executor returned true. For a scenario without an executor the recorded detection has no value at all.
\<close>

theorem detected_means_succeeded:
  assumes "execute_scenario clock scenario_id a = Some (r, a')" "find (\<lambda>s. sc_scenario_id s = scenario_id) (ao_scenarios a) = Some s"
  shows "ar_detection r = (if omap_lookup (ao_atomic_attacks a) scenario_id = None then None
      else Some (if ar_execution_successful r then DETECTED else ALLOWED))
    \<and> ao_results a' = ao_results a @ [r] \<and> ar_scenario_id r = scenario_id \<and> (\<not> ar_execution_successful r \<longrightarrow> ar_error_message r \<noteq> [])"
proof -
  have found: "sc_scenario_id s = scenario_id" using assms(2) by (auto simp: find_Some_iff)
  let ?r = "\<lparr>ar_scenario_id = scenario_id, ar_start_time = fst clock, ar_end_time = 0, ar_detection = None, ar_execution_successful = False,
    ar_error_message = [], ar_telemetry_captured = []\<rparr>"
  obtain ok q where q: "execute_attack a s ?r = Some (ok, q)"
    using assms by (auto simp: execute_scenario_def Let_def split: option.splits)
  from execute_attack_detection [OF q] show ?thesis
    using assms(1) found
    by (cases "\<not> ok \<and> ar_error_message q = []") (auto simp: execute_scenario_def assms(2) q keep_result_def Let_def)
qed

theorem detected_means_succeeded_witness:
  "\<exists>r a'. execute_scenario (1, 5) ''scan'' demo_orchestrator = Some (r, a') \<and> ar_detection r = Some DETECTED"
proof -
  obtain r a' where run: "execute_scenario (1, 5) ''scan'' demo_orchestrator = Some (r, a')" and ok: "ar_execution_successful r"
    by (simp add: execute_scenario_def demo_orchestrator_def load_scenarios_def register_atomic_attack_def new_orchestrator_def demo_scenario_def
      execute_attack_def keep_result_def Let_def)
  have "find (\<lambda>s. sc_scenario_id s = ''scan'') (ao_scenarios demo_orchestrator) = Some demo_scenario"
    "omap_lookup (ao_atomic_attacks demo_orchestrator) ''scan'' \<noteq> None"
    by (simp_all add: demo_orchestrator_def load_scenarios_def register_atomic_attack_def new_orchestrator_def demo_scenario_def)
  with detected_means_succeeded [OF run] run ok show ?thesis by auto
qed

text \<open>The counts of a scenario are exact; a partial detection is an attempt that is in none of the three counts.\<close>

lemma metrics_counts:
  "dm_total_attempts (calculate_metrics i a) = int (length (results_of i a))"
  "dm_detected_count (calculate_metrics i a) + dm_blocked_count (calculate_metrics i a) + dm_allowed_count (calculate_metrics i a)
     = int (length (filter (\<lambda>r. ar_detection r \<in> {Some DETECTED, Some BLOCKED, Some ALLOWED}) (results_of i a)))"
proof -
  show "dm_total_attempts (calculate_metrics i a) = int (length (results_of i a))" by (simp add: calculate_metrics_def results_of_def Let_def)
  have "length (filter (\<lambda>r. ar_detection r = Some DETECTED) rs) + length (filter (\<lambda>r. ar_detection r = Some BLOCKED) rs)
      + length (filter (\<lambda>r. ar_detection r = Some ALLOWED) rs) = length (filter (\<lambda>r. ar_detection r \<in> {Some DETECTED, Some BLOCKED, Some ALLOWED}) rs)" for rs
    by (induction rs) auto
  from this [of "results_of i a"] show "dm_detected_count (calculate_metrics i a) + dm_blocked_count (calculate_metrics i a) + dm_allowed_count (calculate_metrics i a)
     = int (length (filter (\<lambda>r. ar_detection r \<in> {Some DETECTED, Some BLOCKED, Some ALLOWED}) (results_of i a)))"
    by (simp add: calculate_metrics_def results_of_def count_detection_def Let_def flip: of_nat_add)
qed


section \<open>Playbooks\<close>

lemma join_plain: "\<forall>i \<in> set ids. plain_id i \<Longrightarrow> CHR 0x0A \<notin> set (join_fields (CHR '','') ids)"
  by (induction "CHR '',''" ids rule: join_fields.induct) (auto simp: plain_id_def)

lemma ids_roundtrip:
  assumes "\<forall>i \<in> set ids. plain_id i"
  shows "filter (\<lambda>i. i \<noteq> []) (getline_tokens (CHR '','') (join_fields (CHR '','') ids)) = ids"
proof (cases "ids = []")
  case False
  then have "getline_tokens (CHR '','') (join_fields (CHR '','') ids) = ids" using assms by (intro getline_tokens_join) (auto simp: plain_id_def)
  then show ?thesis using assms by (simp add: plain_id_def)
qed simp

lemma takeWhile_colon: "CHR '':'' \<notin> set a \<Longrightarrow> takeWhile (\<lambda>c. c \<noteq> CHR '':'') (a @ CHR '':'' # b) = a"
  by (induction a) auto

lemma load_phase_line:
  assumes "phase_ok p" "phase_line p = line @ [CHR 0x0A]"
  shows "load_line line m = Some (omap_insert (fst p) (snd p) m)"
proof -
  have line: "line = int_str (fst p) @ CHR '':'' # join_fields (CHR '','') (snd p)" using assms(2) by (simp add: phase_line_def)
  have digits: "CHR '':'' \<notin> set (int_str (fst p))" "CHR ''#'' \<notin> set (int_str (fst p))" by (rule int_str_no_sep; simp add: is_digit_def)+
  then have "hd line \<noteq> CHR ''#''" unfolding line by (cases "int_str (fst p)") auto
  moreover have "stoi (int_str (fst p)) = Some (fst p, [])" using assms(1) by (intro stoi_int_str) (auto simp: phase_ok_def)
  ultimately show ?thesis using assms(1) digits ids_roundtrip [of "snd p"]
    by (simp add: load_line_def line takeWhile_colon phase_ok_def Let_def)
qed


lemma phase_line_split: "phase_line p = line_of p @ [CHR 0x0A]"
  by (simp add: phase_line_def line_of_def)

lemma line_of_plain: "phase_ok p \<Longrightarrow> CHR 0x0A \<notin> set (line_of p)"
  using int_str_no_sep [of "CHR 0x0A" "fst p"] join_plain [of "snd p"] by (auto simp: line_of_def phase_ok_def is_digit_def)

lemma load_phase_lines:
  assumes "\<forall>p \<in> set ps. phase_ok p"
  shows "load_lines (map line_of ps) m = Some (fold (\<lambda>p. omap_insert (fst p) (snd p)) ps m)"
  using assms by (induction ps arbitrary: m) (auto simp: load_phase_line [OF _ phase_line_split])

lemma omap_insert_last: "omap_inv (m @ [(k, v)]) \<Longrightarrow> omap_insert k v m = m @ [(k, v)]"
  by (induction k v m rule: omap_insert.induct) (auto simp: omap_inv_def)

lemma fold_insert_all: "omap_inv (m @ ps) \<Longrightarrow> fold (\<lambda>p. omap_insert (fst p) (snd p)) ps m = m @ ps"
proof (induction ps arbitrary: m)
  case (Cons p ps)
  then have "omap_inv (m @ [p])" by (auto simp: omap_inv_def sorted_wrt_append)
  then have "omap_insert (fst p) (snd p) m = m @ [p]" by (cases p) (simp add: omap_insert_last)
  then show ?case using Cons.IH [of "m @ [p]"] Cons.prems by simp
qed simp

text \<open>
  A playbook that was saved is loaded back with the same phases and scenarios, when its name and its scenarios have no line break and its scenarios are
  not empty and have no comma. Its name is not: the loaded playbook keeps the name it had.
\<close>

theorem playbook_roundtrip:
  assumes "omap_inv (pb_phases pb)" "\<forall>p \<in> set (pb_phases pb). phase_ok p" "CHR 0x0A \<notin> set (pb_name pb)"
  shows "load_playbook (Some (save_playbook pb)) old = Some (True, \<lparr>pb_phases = pb_phases pb, pb_name = pb_name old\<rparr>)"
proof -
  let ?head = "''# Red Team Playbook: '' @ pb_name pb"
  have "save_playbook pb = concat (map (\<lambda>l. l @ [CHR 0x0A]) (?head # map line_of (pb_phases pb)))"
    using arg_cong [OF ext [of phase_line "\<lambda>p. line_of p @ [CHR 0x0A]", OF phase_line_split], of "\<lambda>f. concat (map f (pb_phases pb))"]
    by (simp add: save_playbook_def comp_def)
  moreover have "CHR 0x0A \<notin> set l" if "l \<in> set (?head # map line_of (pb_phases pb))" for l
    using that assms(2,3) line_of_plain by auto
  ultimately have "getline_tokens (CHR 0x0A) (save_playbook pb) = ?head # map line_of (pb_phases pb)"
    using getline_lines by metis
  moreover have "load_line ?head [] = Some []" by (simp add: load_line_def)
  ultimately show ?thesis using load_phase_lines [OF assms(2), of "[]"] fold_insert_all [of "[]" "pb_phases pb"] assms(1)
    by (cases old) (simp add: load_playbook_def)
qed

theorem playbook_roundtrip_witness:
  "load_playbook (Some (save_playbook create_initial_access_playbook)) empty_playbook
     = Some (True, \<lparr>pb_phases = pb_phases create_initial_access_playbook, pb_name = []\<rparr>)"
  using playbook_roundtrip [of create_initial_access_playbook empty_playbook]
  by (simp add: create_initial_access_playbook_def add_phase_def empty_playbook_def phase_int_def phase_ok_def plain_id_def omap_inv_def)

text \<open>A line whose phase is not a number makes the load throw, after the old phases have been discarded.\<close>

lemma bad_playbook_throws: "load_playbook (Some ''RECON:scan'') pb = None"
  by (simp add: load_playbook_def load_line_def getline_tokens_def stoi_def sto_range_def sto_parse_def is_space_def is_digit_def Let_def)


section \<open>The assessment\<close>

lemma lookup_bump: "omap_inv m \<Longrightarrow> omap_lookup (bump k m) = (omap_lookup m)(k \<mapsto> (case omap_lookup m k of Some n \<Rightarrow> n | None \<Rightarrow> 0) + 1)"
  by (simp add: bump_def)

lemma tally_counts:
  assumes "omap_inv (fst acc)" "omap_inv (snd acc)"
  shows "omap_inv (fst (tally key rs acc)) \<and> omap_inv (snd (tally key rs acc))
    \<and> at0 (fst (tally key rs acc)) k = at0 (fst acc) k + tally_of key (\<lambda>_. True) rs k
    \<and> at0 (snd (tally key rs acc)) k = at0 (snd acc) k + tally_of key noticed rs k
    \<and> (omap_lookup (fst (tally key rs acc)) k \<noteq> None \<longleftrightarrow> omap_lookup (fst acc) k \<noteq> None \<or> (\<exists>r \<in> set rs. key r = k))"
  using assms
proof (induction rs arbitrary: acc)
  case (Cons r rs)
  obtain tot det where acc: "acc = (tot, det)" by (cases acc)
  let ?acc = "(bump (key r) tot, if noticed r then bump (key r) det else det)"
  have inv: "omap_inv (fst ?acc)" "omap_inv (snd ?acc)" using Cons.prems by (simp_all add: acc bump_def)
  have "at0 (fst ?acc) k = at0 tot k + (if key r = k then 1 else 0)" "at0 (snd ?acc) k = at0 det k + (if key r = k \<and> noticed r then 1 else 0)"
    using Cons.prems by (simp_all add: acc at0_def lookup_bump)
  moreover have "omap_lookup (fst ?acc) k \<noteq> None \<longleftrightarrow> omap_lookup tot k \<noteq> None \<or> key r = k"
    using Cons.prems by (simp add: acc lookup_bump)
  ultimately show ?case using Cons.IH [OF inv] by (auto simp: acc tally_of_def)
qed (simp add: tally_of_def)

lemma map_fst_rates: "map fst (rates acc) = map fst (fst acc)"
  by (simp add: rates_def split_beta comp_def)

lemma omap_inv_rates: "omap_inv (fst acc) \<Longrightarrow> omap_inv (rates acc)"
  by (simp add: omap_inv_def map_fst_rates)

lemma lookup_map_values: "omap_lookup (map (\<lambda>(k, n). (k, f k n)) m) k = map_option (f k) (omap_lookup m k)"
  by (induction m) auto

lemma lookup_rates:
  "omap_lookup (rates acc) k = map_option (\<lambda>n. if n > 0 then fdiv (of_int (at0 (snd acc) k)) (of_int n) else 0) (omap_lookup (fst acc) k)"
  unfolding rates_def at0_def by (rule lookup_map_values)

lemma lookup_tally_rates:
  "omap_lookup (rates (tally key rs ([], []))) k =
     (if \<exists>r \<in> set rs. key r = k then Some (fdiv (of_int (tally_of key noticed rs k)) (of_int (tally_of key (\<lambda>_. True) rs k))) else None)"
proof (cases "\<exists>r \<in> set rs. key r = k")
  case True
  then have "filter (\<lambda>r. key r = k) rs \<noteq> []" by (simp add: filter_empty_conv)
  then have "0 < tally_of key (\<lambda>_. True) rs k" by (simp add: tally_of_def)
  moreover obtain n where "omap_lookup (fst (tally key rs ([], []))) k = Some n"
    using tally_counts [of "([], [])" key rs k] True by auto
  ultimately show ?thesis using tally_counts [of "([], [])" key rs k] True by (simp add: lookup_rates) (simp add: at0_def)
next
  case False
  then show ?thesis using tally_counts [of "([], [])" key rs k] by (simp add: lookup_rates)
qed

text \<open>
  The assessed rate of every scenario is the rounded share of its attempts that were detected or blocked, between zero and one, and no other scenario is
  assessed. The phases are not: all attempts are counted under reconnaissance, whatever the phase of their scenario.
\<close>

theorem coverage_exact:
  assumes "e' = run_coverage_assessment e" "rs = as_baseline_results e"
  shows "omap_lookup (as_technique_rates e') t =
      (if \<exists>r \<in> set rs. ar_scenario_id r = t
       then Some (fdiv (of_int (tally_of ar_scenario_id noticed rs t)) (of_int (tally_of ar_scenario_id (\<lambda>_. True) rs t))) else None)
    \<and> (\<forall>x. omap_lookup (as_technique_rates e') t = Some x \<longrightarrow> 0 \<le> x \<and> x \<le> 1)
    \<and> (\<forall>p. omap_lookup (as_phase_rates e') p \<noteq> None \<longrightarrow> p = phase_int RECONNAISSANCE)"
proof -
  have "tally_of ar_scenario_id noticed rs t \<le> tally_of ar_scenario_id (\<lambda>_. True) rs t"
    unfolding tally_of_def by (induction rs) auto
  then have "0 \<le> fl (of_int (tally_of ar_scenario_id noticed rs t) / of_int (tally_of ar_scenario_id (\<lambda>_. True) rs t))"
    "fl (of_int (tally_of ar_scenario_id noticed rs t) / of_int (tally_of ar_scenario_id (\<lambda>_. True) rs t)) \<le> 1"
    by (intro fl_nonneg fl_le_one; simp add: tally_of_def divide_le_eq_1)+
  then show ?thesis unfolding assms(1)
    by (simp add: run_coverage_assessment_def lookup_tally_rates flip: assms(2))
qed

theorem coverage_exact_witness:
  "omap_lookup (as_technique_rates (run_coverage_assessment (set_baseline_results [demo_result BLOCKED, demo_result ALLOWED] new_assessment))) ''scan''
     = Some (fdiv 1 2)"
  using coverage_exact [OF refl refl, of "set_baseline_results [demo_result BLOCKED, demo_result ALLOWED] new_assessment" "''scan''"]
  by (simp add: set_baseline_results_def new_assessment_def demo_result_def tally_of_def noticed_def)


section \<open>Payloads\<close>

lemma byte_bits:
  fixes a :: "32 word"
  assumes "a AND 255 = a"
  shows "bit a n \<Longrightarrow> n < 8"
proof -
  assume "bit a n"
  then have "bit (a AND 255) n" using assms by simp
  then have "bit (mask 8 :: 32 word) n" by (simp add: bit_and_iff mask_eq_decr_exp)
  then show "n < 8" by (simp add: bit_mask_iff)
qed

lemma byte_masked: "byte c AND 255 = byte c"
  by (simp add: and_mask_take_bit)

lemma table_index:
  fixes a b c :: "32 word"
  assumes "a AND 255 = a" "b AND 255 = b" "c AND 255 = c"
  shows "drop_bit 18 (push_bit 16 a OR push_bit 8 b OR c) AND 0x3F = drop_bit 2 a"
    "drop_bit 12 (push_bit 16 a OR push_bit 8 b OR c) AND 0x3F = push_bit 4 (a AND 3) OR drop_bit 4 b"
    "drop_bit 6 (push_bit 16 a OR push_bit 8 b OR c) AND 0x3F = push_bit 2 (b AND 15) OR drop_bit 6 c"
    "(push_bit 16 a OR push_bit 8 b OR c) AND 0x3F = c AND 63"
proof -
  have m: "(0x3F :: 32 word) = mask 6" "(3 :: 32 word) = mask 2" "(15 :: 32 word) = mask 4" "(63 :: 32 word) = mask 6" by (simp_all add: mask_eq_decr_exp)
  note bits = byte_bits [OF assms(1)] byte_bits [OF assms(2)] byte_bits [OF assms(3)]
  show "drop_bit 18 (push_bit 16 a OR push_bit 8 b OR c) AND 0x3F = drop_bit 2 a"
    unfolding m by (rule bit_word_eqI) (auto simp: bit_simps dest: bits)
  show "drop_bit 12 (push_bit 16 a OR push_bit 8 b OR c) AND 0x3F = push_bit 4 (a AND 3) OR drop_bit 4 b"
    unfolding m by (rule bit_word_eqI) (auto simp: bit_simps dest: bits)
  show "drop_bit 6 (push_bit 16 a OR push_bit 8 b OR c) AND 0x3F = push_bit 2 (b AND 15) OR drop_bit 6 c"
    unfolding m by (rule bit_word_eqI) (auto simp: bit_simps dest: bits)
  show "(push_bit 16 a OR push_bit 8 b OR c) AND 0x3F = c AND 63"
    unfolding m by (rule bit_word_eqI) (auto simp: bit_simps dest: bits)
qed

text \<open>
  The second base64 encoder of the code base agrees with the one the wire messages use, on every text.
\<close>

theorem base64_encoders_agree: "encode_payload s ''base64'' = base64_encode s"
proof -
  have "encode_base64 s = base64_encode s"
  proof (induction s rule: base64_encode.induct)
    case (1 a b c rest)
    then show ?case using table_index [of "byte a" "byte b" "byte c"] by (simp add: byte_masked Let_def or.assoc)
  next
    case (2 a b)
    then show ?case using table_index [of "byte a" "byte b" 0] by (simp add: byte_masked Let_def)
  next
    case (3 a)
    then show ?case using table_index [of "byte a" 0 0] by (simp add: byte_masked Let_def)
  qed simp
  then show ?thesis by (simp add: encode_payload_def)
qed

lemma byte_xor_char: "byte (xor_char a b) = byte a XOR byte b"
proof -
  have "take_bit 8 (byte a XOR byte b) = byte a XOR byte b" by (simp add: take_bit_xor)
  then have "unat (byte a XOR byte b) < 256" using take_bit_nat_less_exp [of 8 "unat (byte a XOR byte b)"] by (simp flip: unsigned_take_bit_eq)
  then show ?thesis by (simp add: xor_char_def byte_def)
qed

lemma xor_char_involution: "xor_char (xor_char a b) b = a"
  unfolding xor_char_def [of "xor_char a b"] byte_xor_char by (simp add: xor.assoc)

text \<open>An empty key makes the code take an index modulo zero.\<close>

lemma empty_key_undefined: "encrypt_payload p k = None \<longleftrightarrow> p \<noteq> [] \<and> k = []"
  by (simp add: encrypt_payload_def)

lemma length_fold_update: "length (fold (\<lambda>(p, c) m. m[p := c]) ds m) = length m"
  by (induction ds arbitrary: m) auto

lemma ends_updated:
  assumes "length m = n" "3 < n"
  shows "hd (m[0 := x, n - 1 := y]) = x \<and> last (m[0 := x, n - 1 := y]) = y"
proof -
  have "m[0 := x, n - 1 := y] \<noteq> []" using assms by auto
  then have "hd (m[0 := x, n - 1 := y]) = m[0 := x, n - 1 := y] ! 0" "last (m[0 := x, n - 1 := y]) = m[0 := x, n - 1 := y] ! (n - 1)"
    using assms(1) by (simp_all add: hd_conv_nth last_conv_nth)
  then show ?thesis using assms by (simp add: nth_list_update)
qed

lemma mutation_keeps_ends:
  assumes "3 < length s"
  shows "length (mutate_signature ds s) = length s \<and> hd (mutate_signature ds s) = hd s \<and> last (mutate_signature ds s) = last s"
proof -
  let ?m = "fold (\<lambda>(p, c) m. m[p := c]) (take (min (length s div 10) 16) ds) s"
  have len: "length ?m = length s" by (rule length_fold_update)
  have "mutate_signature ds s = ?m[0 := hd s, length s - 1 := last s]" using assms len by (auto simp: mutate_signature_def Let_def)
  then show ?thesis using ends_updated [OF len assms] len by simp
qed

end
