(* ===== verification/ControlPlane.thy ===== *)
theory ControlPlane
  imports MeshWire "HOL-Library.AList"
begin

text \<open>
  The control plane in Python: \<open>orchestration/control_server.py\<close>, which collects the telemetry of the nodes and serves the
  dashboard, and \<open>orchestration/anomaly_classifier.py\<close>, the second detector. A dictionary is an association list
  in insertion order; a decoded JSON value is a \<open>jval\<close> with finite numbers; \<open>json.loads\<close>, the clock and the state of files are arguments. Node
  identifiers are texts. An exception that no handler catches is \<open>Inl\<close>.
\<close>


section \<open>Values\<close>

datatype jval = JNull | JBool bool | JNum rat | JStr string | JList "jval list" | JObj "(string \<times> jval) list"

type_synonym payload = "(string \<times> jval) list"

definition jget :: "payload \<Rightarrow> string \<Rightarrow> jval \<Rightarrow> jval" where
  "jget p k d = (case map_of p k of Some v \<Rightarrow> v | None \<Rightarrow> d)"

text \<open>The number a comparison uses; \<open>None\<close> is a \<open>TypeError\<close>.\<close>

definition jnumber :: "jval \<Rightarrow> rat option" where
  "jnumber v = (case v of JNum r \<Rightarrow> Some r | JBool b \<Rightarrow> Some (if b then 1 else 0) | _ \<Rightarrow> None)"

text \<open>\<open>msg.split("|", 2)\<close>: the text after the second bar, if there are two.\<close>

definition third_field :: "string \<Rightarrow> string option" where
  "third_field msg =
     (let r1 = dropWhile (\<lambda>c. c \<noteq> CHR ''|'') msg in
      if r1 = [] then None
      else let r2 = dropWhile (\<lambda>c. c \<noteq> CHR ''|'') (tl r1) in if r2 = [] then None else Some (tl r2))"

text \<open>
  A datagram: \<open>Inl\<close> is the error of the decoding. \<open>loads\<close> is \<open>json.loads\<close>, \<open>Inl\<close> the text of its error. A document that is no object
  makes the handler throw, which drops the datagram.
\<close>

datatype telemetry_read = Dropped | Malformed string | Telemetry node_id payload

definition read_telemetry :: "(string \<Rightarrow> string + jval) \<Rightarrow> string + string \<Rightarrow> telemetry_read" where
  "read_telemetry loads datagram =
     (case datagram of
        Inl err \<Rightarrow> Malformed err
      | Inr msg \<Rightarrow>
          if \<not> starts_with ''TELEMETRY|'' msg then Dropped
          else case third_field msg of
            None \<Rightarrow> Dropped
          | Some text \<Rightarrow>
              (case loads text of
                 Inl err \<Rightarrow> Malformed err
               | Inr (JObj p) \<Rightarrow> (case map_of p ''ID'' of Some (JStr nid) \<Rightarrow> if nid = [] then Dropped else Telemetry nid p | _ \<Rightarrow> Dropped)
               | Inr _ \<Rightarrow> Dropped))"


section \<open>The control server\<close>

record node_entry =
  ne_hostname :: jval
  ne_cpu_load :: jval
  ne_ram_mb :: jval
  ne_entropy :: jval
  ne_kernel_anomaly :: jval
  ne_status :: string
  ne_mitre_attack :: jval
  ne_last_seen :: rat

record control =
  cs_nodes_db :: "(node_id \<times> node_entry) list"
  cs_cooldown :: "(node_id \<times> (rat \<times> bool)) list"
  cs_logs :: "string list"

definition new_control :: control where
  "new_control = \<lparr>cs_nodes_db = [], cs_cooldown = [], cs_logs = []\<rparr>"

definition COOLDOWN_SECONDS :: rat where "COOLDOWN_SECONDS = 10"

text \<open>\<open>clock\<close> is the text of the time.\<close>

definition ctrl_log :: "string \<Rightarrow> string \<Rightarrow> control \<Rightarrow> control" where
  "ctrl_log clock msg s =
     (let logs = cs_logs s @ [''['' @ clock @ ''] '' @ msg] in s\<lparr>cs_logs := (if length logs > 50 then tl logs else logs)\<rparr>)"

text \<open>The text of a number with four decimals, for the log.\<close>

definition fixed4 :: "rat \<Rightarrow> string" where
  "fixed4 x =
     (let n = (let y = \<bar>x\<bar> * 10000; d = \<lfloor>y\<rfloor> in if y - of_int d > 1 / 2 \<or> y - of_int d = 1 / 2 \<and> odd d then d + 1 else d);
          frac = nat_str (nat (n mod 10000))
      in (if x < 0 then ''-'' else []) @ nat_str (nat (n div 10000)) @ ''.'' @ replicate (4 - length frac) (CHR ''0'') @ frac)"

text \<open>The cool-down of a node: the time of its last spike and whether it is flagged. The first result says that the node is released.\<close>

definition cool_down :: "rat \<Rightarrow> rat \<Rightarrow> rat \<times> bool \<Rightarrow> bool \<times> rat \<times> bool" where
  "cool_down now e cd =
     (if e > fl (65 / 100) then (False, now, True)
      else if e < fl (2 / 10) \<and> snd cd \<and> now - fst cd > COOLDOWN_SECONDS then (True, fst cd, False)
      else (False, cd))"

definition node_status :: "jval \<Rightarrow> jval \<Rightarrow> string" where
  "node_status anomaly reported =
     (if anomaly = JStr ''TRUE'' then ''FLAGGED'' else if reported = JStr ''SELF_ISOLATED'' then ''FLAGGED'' else ''STABLE'')"

definition node_of :: "payload \<Rightarrow> jval \<Rightarrow> jval \<Rightarrow> rat \<Rightarrow> node_entry" where
  "node_of p anomaly reported now =
     \<lparr>ne_hostname = jget p ''HOST'' (JStr ''Edge_Node''), ne_cpu_load = jget p ''CPU_LOAD'' (JNum 0), ne_ram_mb = jget p ''RAM_MB'' (JNum 0),
      ne_entropy = jget p ''entropy'' (JNum 0), ne_kernel_anomaly = anomaly, ne_status = node_status anomaly reported,
      ne_mitre_attack = jget p ''mitre_attack'' (JList []), ne_last_seen = now\<rparr>"

definition update_node :: "string \<Rightarrow> rat \<Rightarrow> node_id \<Rightarrow> payload \<Rightarrow> control \<Rightarrow> string + control" where
  "update_node clock now nid p s =
     (case jnumber (jget p ''entropy'' (JNum 0)) of
        None \<Rightarrow> Inl ''TypeError''
      | Some e \<Rightarrow>
          let (released, cd) = cool_down now e (case map_of (cs_cooldown s) nid of Some cd \<Rightarrow> cd | None \<Rightarrow> (0, False));
              reported = (if released then JStr ''STABLE'' else jget p ''STATUS'' (JStr ''STABLE''));
              anomaly = (if released then JStr ''FALSE'' else jget p ''KERNEL_ANOMALY'' (JStr ''FALSE''));
              s = (if released then ctrl_log clock (''COOLDOWN: '' @ nid @ '' status reset to STABLE (entropy='' @ fixed4 e @ '')'') s else s);
              s = s\<lparr>cs_cooldown := AList.update nid cd (cs_cooldown s), cs_nodes_db := AList.update nid (node_of p anomaly reported now) (cs_nodes_db s)\<rparr>
          in Inr (if anomaly = JStr ''TRUE'' then ctrl_log clock (''ALERT: eBPF anomaly verified on '' @ nid) s else s))"

text \<open>\<open>addr\<close> is the text of the sender's address.\<close>

definition ctrl_datagram :: "(string \<Rightarrow> string + jval) \<Rightarrow> string \<Rightarrow> rat \<Rightarrow> string \<Rightarrow> string + string \<Rightarrow> control \<Rightarrow> control" where
  "ctrl_datagram loads clock now addr datagram s =
     (case read_telemetry loads datagram of
        Dropped \<Rightarrow> s
      | Malformed err \<Rightarrow> ctrl_log clock (''Telemetry parse error from '' @ addr @ '': '' @ err) s
      | Telemetry nid p \<Rightarrow> (case update_node clock now nid p s of Inl _ \<Rightarrow> s | Inr s' \<Rightarrow> s'))"

definition drop_dead :: "rat \<Rightarrow> control \<Rightarrow> control" where
  "drop_dead now s = s\<lparr>cs_nodes_db := filter (\<lambda>(k, v). \<not> now - ne_last_seen v > 5) (cs_nodes_db s)\<rparr>"

definition system_status :: "control \<Rightarrow> string" where
  "system_status s = (if \<exists>n \<in> set (cs_nodes_db s). ne_status (snd n) = ''FLAGGED'' then ''ALERT'' else ''ONLINE'')"

text \<open>The events sent to a dashboard.\<close>

datatype ctrl_event =
    Heartbeat node_id jval jval jval string string jval jval nat "node_id list"
  | EbpfEntropy node_id rat

definition heartbeat :: "control \<Rightarrow> node_id \<times> node_entry \<Rightarrow> ctrl_event" where
  "heartbeat s n =
     Heartbeat (fst n) (ne_cpu_load (snd n)) (ne_ram_mb (snd n)) (ne_entropy (snd n))
       (if ne_kernel_anomaly (snd n) = JStr ''TRUE'' then ''CRITICAL'' else ''NOMINAL'') (ne_status (snd n)) (ne_kernel_anomaly (snd n))
       (ne_mitre_attack (snd n)) (length (cs_nodes_db s) - 1) (filter (\<lambda>k. k \<noteq> fst n) (map fst (cs_nodes_db s)))"

text \<open>The first match of \<open>on (\S+)\<close>.\<close>

fun match_on :: "string \<Rightarrow> string option" where
  "match_on [] = None"
| "match_on (c # s) =
     (if c = CHR ''o'' \<and> take 2 s = ''n '' \<and> drop 2 s \<noteq> [] \<and> \<not> is_space (hd (drop 2 s)) then Some (takeWhile (\<lambda>c. \<not> is_space c) (drop 2 s))
      else match_on s)"

definition occurs_in :: "string \<Rightarrow> string \<Rightarrow> bool" where
  "occurs_in w s \<longleftrightarrow> str_find w s \<noteq> None"

definition log_events :: "control \<Rightarrow> string \<Rightarrow> ctrl_event list" where
  "log_events s log_msg =
     (if \<not> occurs_in ''eBPF anomaly verified on'' log_msg then []
      else
        let nid = (case match_on log_msg of Some n \<Rightarrow> n | None \<Rightarrow> ''UNKNOWN'') in
        case map_of (cs_nodes_db s) nid of
          None \<Rightarrow> []
        | Some n \<Rightarrow> (case jnumber (ne_entropy n) of Some e \<Rightarrow> if e > fl (65 / 100) then [EbpfEntropy nid e] else [] | None \<Rightarrow> []))"

text \<open>One round of a dashboard connection that has been sent the first \<open>sent\<close> log entries.\<close>

definition ws_round :: "rat \<Rightarrow> nat \<Rightarrow> control \<Rightarrow> ctrl_event list \<times> nat \<times> control" where
  "ws_round now sent s =
     (let s = drop_dead now s in
      (map (heartbeat s) (cs_nodes_db s) @ concat (map (log_events s) (drop sent (cs_logs s))), max sent (length (cs_logs s)), s))"


section \<open>The classifier\<close>

record live_node =
  ln_hostname :: jval
  ln_ram_mb :: jval
  ln_cpu_load :: jval
  ln_flagged :: bool
  ln_last_seen :: rat

type_synonym live_nodes = "(node_id \<times> live_node) list"

text \<open>Whether the text of the reported status contains the mark of an isolated node; texts are all that is modelled of \<open>str\<close>.\<close>

definition self_isolated :: "jval \<Rightarrow> bool" where
  "self_isolated v = (case v of JStr s \<Rightarrow> occurs_in ''SELF_ISOLATED'' s | _ \<Rightarrow> False)"

definition classifier_datagram :: "(string \<Rightarrow> string + jval) \<Rightarrow> rat \<Rightarrow> string + string \<Rightarrow> live_nodes \<Rightarrow> live_nodes" where
  "classifier_datagram loads now datagram live =
     (case read_telemetry loads datagram of
        Telemetry nid p \<Rightarrow>
          AList.update nid
            \<lparr>ln_hostname = jget p ''HOST'' (JStr ''UNKNOWN''), ln_ram_mb = jget p ''RAM_MB'' (JNum 0), ln_cpu_load = jget p ''CPU_LOAD'' (JNum 0),
             ln_flagged = self_isolated (jget p ''STATUS'' (JStr [])), ln_last_seen = now\<rparr> live
      | _ \<Rightarrow> live)"

text \<open>The command for one node, if any; \<open>None\<close> is a comparison that throws.\<close>

definition isolate_command :: "node_id \<Rightarrow> string" where
  "isolate_command nid = ''CMD:ISOLATE|'' @ nid"

definition classify :: "node_id \<times> live_node \<Rightarrow> string list option" where
  "classify n =
     (if fst n = ''UNKNOWN'' \<or> ln_flagged (snd n) then Some []
      else case jnumber (ln_cpu_load (snd n)) of
        None \<Rightarrow> None
      | Some cpu \<Rightarrow>
          if cpu > 85 then Some [isolate_command (fst n)]
          else case jnumber (ln_ram_mb (snd n)) of
            None \<Rightarrow> None
          | Some ram \<Rightarrow> Some (if ram > 14000 then [isolate_command (fst n)] else []))"

fun classify_all :: "live_nodes \<Rightarrow> string list \<times> bool" where
  "classify_all [] = ([], True)"
| "classify_all (n # ns) =
     (case classify n of
        None \<Rightarrow> ([], False)
      | Some cmds \<Rightarrow> (let (rest, ok) = classify_all ns in (cmds @ rest, ok)))"

definition write_commands :: "string list \<Rightarrow> string \<Rightarrow> string" where
  "write_commands cmds content = content @ concat (map (\<lambda>c. c @ [CHR 0x0A]) cmds)"

text \<open>
  One round: \<open>fresh\<close> are the nodes of the file of the control plane when it was written within three seconds. The result is the table, the commands
  written and whether the program goes on.
\<close>

definition analyze_anomalies :: "live_nodes option \<Rightarrow> rat \<Rightarrow> live_nodes \<Rightarrow> live_nodes \<times> string list \<times> bool" where
  "analyze_anomalies fresh now live =
     (case fresh of
        Some nodes \<Rightarrow> ([], classify_all nodes)
      | None \<Rightarrow> let live = filter (\<lambda>(k, v). \<not> now - ln_last_seen v > 10) live in (live, classify_all live))"


section \<open>Vocabulary of the statements\<close>

text \<open>A reader of JSON: an object begins with a brace, after white space.\<close>

definition json_reader :: "(string \<Rightarrow> string + jval) \<Rightarrow> bool" where
  "json_reader loads \<longleftrightarrow> (\<forall>t p. loads t = Inr (JObj p) \<longrightarrow> dropWhile is_space t \<noteq> [] \<and> hd (dropWhile is_space t) = CHR ''{'')"

text \<open>A node that had a spike, but not for ten seconds, and reports low entropy.\<close>

definition due_release :: "rat \<Rightarrow> rat \<Rightarrow> rat \<times> bool \<Rightarrow> bool" where
  "due_release now e cd \<longleftrightarrow> e < fl (2 / 10) \<and> snd cd \<and> now - fst cd > 10"

abbreviation cooled :: "control \<Rightarrow> node_id \<Rightarrow> rat \<times> bool" where
  "cooled s nid \<equiv> (case map_of (cs_cooldown s) nid of Some cd \<Rightarrow> cd | None \<Rightarrow> (0, False))"

text \<open>What may happen between two rounds of a dashboard connection.\<close>

datatype ctrl_step = Arrived "string + string" string string rat | Purged rat

fun ctrl_do :: "(string \<Rightarrow> string + jval) \<Rightarrow> ctrl_step \<Rightarrow> control \<Rightarrow> control" where
  "ctrl_do loads (Arrived datagram addr clock now) s = ctrl_datagram loads clock now addr datagram s"
| "ctrl_do loads (Purged now) s = drop_dead now s"

definition demo_loads :: "string \<Rightarrow> string + jval" where
  "demo_loads t = (if dropWhile is_space t \<noteq> [] \<and> hd (dropWhile is_space t) = CHR ''{'' then Inr (JObj [(''ID'', JStr ''A'')]) else Inl ''Expecting value'')"

definition full_control :: control where
  "full_control = \<lparr>cs_nodes_db = [], cs_cooldown = [], cs_logs = replicate 50 ''x''\<rparr>"

definition alarm :: payload where
  "alarm = [(''ID'', JStr ''A''), (''entropy'', JNum (9 / 10)), (''KERNEL_ANOMALY'', JStr ''TRUE'')]"

definition busy_node :: live_node where
  "busy_node = \<lparr>ln_hostname = JNull, ln_ram_mb = JNum 5, ln_cpu_load = JNum 99, ln_flagged = False, ln_last_seen = 0\<rparr>"


section \<open>Telemetry\<close>

lemma third_field_payload:
  assumes "CHR ''|'' \<notin> set node_id"
  shows "third_field (''TELEMETRY|'' @ node_id @ ''|'' @ x) = Some x"
proof -
  have "dropWhile (\<lambda>c. c \<noteq> CHR ''|'') (node_id @ CHR ''|'' # x) = CHR ''|'' # x" using assms by (induction node_id) auto
  then show ?thesis by (simp add: third_field_def)
qed

text \<open>
  C40. The control plane does not read the telemetry of the nodes: a node sends its signature before the document, and both the control server and the
  classifier take the text after the second bar, which begins with the signature, for the document. Whatever a node sends, their tables of nodes stay as they are.
\<close>

theorem control_plane_blind:
  assumes "json_reader loads" "CHR ''|'' \<notin> set node_id" "msg = telemetry_payload L key node_id json"
  shows "cs_nodes_db (ctrl_datagram loads clock now addr (Inr msg) s) = cs_nodes_db s \<and> classifier_datagram loads now (Inr msg) live = live"
proof -
  obtain sig where msg: "msg = ''TELEMETRY|'' @ node_id @ ''|'' @ base64_encode sig @ ''|'' @ json"
    using assms(3) by (simp add: telemetry_payload_def)
  let ?t = "base64_encode sig @ ''|'' @ json"
  have field: "third_field msg = Some ?t" using third_field_payload [OF assms(2)] msg by simp
  have plain: "\<not> is_space c \<and> c \<noteq> CHR ''{''" if "c \<in> set (base64_encode sig @ ''|'')" for c
    using that base64_encode_alphabet [of sig] by (auto simp: b64_chars_def is_space_def)
  have "loads ?t \<noteq> Inr (JObj p)" for p
  proof
    assume "loads ?t = Inr (JObj p)"
    then have brace: "hd (dropWhile is_space ?t) = CHR ''{''" using assms(1) by (auto simp: json_reader_def)
    obtain c r where c: "base64_encode sig @ ''|'' = c # r" by (cases "base64_encode sig @ ''|''") auto
    then have t: "?t = c # r @ json" by (metis append.assoc append_Cons)
    have "\<not> is_space c" "c \<noteq> CHR ''{''" using plain [of c] c by auto
    then show False using brace unfolding t by simp
  qed
  then have "read_telemetry loads (Inr msg) = Dropped \<or> (\<exists>err. read_telemetry loads (Inr msg) = Malformed err)"
    by (simp add: read_telemetry_def field split: sum.split jval.split)
  then show ?thesis by (auto simp: ctrl_datagram_def classifier_datagram_def ctrl_log_def Let_def)
qed

theorem control_plane_blind_witness:
  "cs_nodes_db (ctrl_datagram demo_loads ''12:00:00'' 5 ''127.0.0.1'' (Inr (telemetry_payload demo_ssl ''k'' ''A'' ''{}'')) new_control) = []"
  using control_plane_blind [of demo_loads "''A''" "telemetry_payload demo_ssl ''k'' ''A'' ''{}''" demo_ssl "''k''" "''{}''" "''12:00:00''" 5 "''127.0.0.1''" new_control "[]"]
  by (simp add: json_reader_def demo_loads_def new_control_def)


section \<open>The log\<close>

lemma length_ctrl_log: "length (cs_logs s) \<le> 50 \<Longrightarrow> length (cs_logs (ctrl_log c m s)) = min 50 (Suc (length (cs_logs s)))"
  by (simp add: ctrl_log_def Let_def min_def)

lemma ctrl_log_other [simp]:
  "cs_nodes_db (ctrl_log c m s) = cs_nodes_db s" "cs_cooldown (ctrl_log c m s) = cs_cooldown s"
  by (simp_all add: ctrl_log_def Let_def)

lemma ctrl_log_with [simp]:
  "cs_logs (ctrl_log c m (s\<lparr>cs_cooldown := cd, cs_nodes_db := db\<rparr>)) = cs_logs (ctrl_log c m s)"
  by (simp add: ctrl_log_def Let_def)

text \<open>What an update does, on the branch of a number.\<close>

lemma update_node_fields:
  assumes "update_node clock now nid p s = Inr s'" "jnumber (jget p ''entropy'' (JNum 0)) = Some e" "cool_down now e (cooled s nid) = (rel, cd)"
  shows "cs_cooldown s' = AList.update nid cd (cs_cooldown s)"
    "cs_nodes_db s' = AList.update nid (node_of p (if rel then JStr ''FALSE'' else jget p ''KERNEL_ANOMALY'' (JStr ''FALSE''))
       (if rel then JStr ''STABLE'' else jget p ''STATUS'' (JStr ''STABLE'')) now) (cs_nodes_db s)"
    "\<exists>ms. cs_logs s' = cs_logs (fold (ctrl_log clock) ms s)"
proof -
  let ?a = "if rel then JStr ''FALSE'' else jget p ''KERNEL_ANOMALY'' (JStr ''FALSE'')"
  let ?m1 = "if rel then [''COOLDOWN: '' @ nid @ '' status reset to STABLE (entropy='' @ fixed4 e @ '')''] else []"
  let ?m2 = "if ?a = JStr ''TRUE'' then [''ALERT: eBPF anomaly verified on '' @ nid] else []"
  show "cs_cooldown s' = AList.update nid cd (cs_cooldown s)"
    "cs_nodes_db s' = AList.update nid (node_of p ?a (if rel then JStr ''STABLE'' else jget p ''STATUS'' (JStr ''STABLE'')) now) (cs_nodes_db s)"
    using assms(1) by (auto simp: update_node_def assms(2,3) Let_def)
  have "cs_logs s' = cs_logs (fold (ctrl_log clock) (?m1 @ ?m2) s)"
    using assms(1) by (auto simp: update_node_def assms(2,3) Let_def)
  then show "\<exists>ms. cs_logs s' = cs_logs (fold (ctrl_log clock) ms s)" by blast
qed

lemma logs_full: "length (cs_logs s) = 50 \<Longrightarrow> length (cs_logs (fold (ctrl_log clock) ms s)) = 50"
  by (induction ms arbitrary: s) (simp_all add: length_ctrl_log)

lemma ctrl_do_full: "length (cs_logs s) = 50 \<Longrightarrow> length (cs_logs (ctrl_do loads st s)) = 50"
proof (cases st)
  case (Arrived datagram addr clock now)
  assume full: "length (cs_logs s) = 50"
  show ?thesis
  proof (cases "read_telemetry loads datagram")
    case (Telemetry nid p)
    show ?thesis
    proof (cases "update_node clock now nid p s")
      case (Inr s')
      then obtain e where e: "jnumber (jget p ''entropy'' (JNum 0)) = Some e"
        by (cases "jnumber (jget p ''entropy'' (JNum 0))") (simp_all add: update_node_def)
      obtain rel cd where "cool_down now e (cooled s nid) = (rel, cd)" by (metis surj_pair)
      from update_node_fields(3) [OF Inr e this] show ?thesis using full Inr Telemetry Arrived logs_full by (auto simp: ctrl_datagram_def)
    qed (use Telemetry Arrived full in \<open>simp add: ctrl_datagram_def\<close>)
  qed (use Arrived full in \<open>simp_all add: ctrl_datagram_def length_ctrl_log\<close>)
qed (simp add: drop_dead_def)

text \<open>
  Dashboards stop hearing of anomalies: the log is cut to fifty entries from its front, but each connection counts the entries it has sent. Once a connection
  has sent fifty, it never sends another entropy alert, whatever arrives.
\<close>

theorem alerts_stop_after_fifty:
  assumes "length (cs_logs s) = 50" "ws_round now (length (cs_logs s)) (fold (ctrl_do loads) steps s) = (events, sent, s')"
  shows "sent = 50 \<and> (\<forall>n e. EbpfEntropy n e \<notin> set events)"
proof -
  have "length (cs_logs (fold (ctrl_do loads) steps s)) = 50" using assms(1) by (induction steps arbitrary: s) (simp_all add: ctrl_do_full)
  then show ?thesis using assms by (auto simp: ws_round_def drop_dead_def heartbeat_def Let_def)
qed

theorem alerts_stop_after_fifty_witness:
  "\<exists>events sent s'. ws_round 1 50 (ctrl_datagram (\<lambda>_. Inr (JObj alarm)) ''t'' 1 ''a'' (Inr ''TELEMETRY|A|{}'') full_control) = (events, sent, s') \<and> sent = 50"
proof -
  let ?step = "Arrived (Inr ''TELEMETRY|A|{}'') ''a'' ''t'' 1" and ?l = "\<lambda>_. Inr (JObj alarm)"
  obtain events sent s' where r: "ws_round 1 (length (cs_logs full_control)) (fold (ctrl_do ?l) [?step] full_control) = (events, sent, s')"
    by (metis surj_pair)
  from alerts_stop_after_fifty [OF _ this] have "sent = 50" by (simp add: full_control_def)
  with r show ?thesis by (auto simp: full_control_def)
qed

text \<open>While the log is shorter, an alarm is passed on: the same alarm at an empty server.\<close>

lemma alarm_reported:
  "EbpfEntropy ''A'' (9 / 10) \<in> set (fst (ws_round 1 0 (ctrl_datagram (\<lambda>_. Inr (JObj alarm)) ''t'' 1 ''a'' (Inr ''TELEMETRY|A|{}'') new_control)))"
  by code_simp

section \<open>Flagging\<close>

text \<open>
  The status of a node is what its last report says, with one exception: a node that had a spike is released, whatever it reports, when its entropy is low and its last spike is
  more than ten seconds ago. No other node changes.
\<close>

theorem status_exact:
  assumes "update_node clock now nid p s = Inr s'"
  shows "\<exists>e. jnumber (jget p ''entropy'' (JNum 0)) = Some e
    \<and> map_option ne_status (map_of (cs_nodes_db s') nid) =
        Some (if due_release now e (cooled s nid) then ''STABLE''
              else node_status (jget p ''KERNEL_ANOMALY'' (JStr ''FALSE'')) (jget p ''STATUS'' (JStr ''STABLE'')))
    \<and> (\<forall>m. m \<noteq> nid \<longrightarrow> map_of (cs_nodes_db s') m = map_of (cs_nodes_db s) m \<and> cooled s' m = cooled s m)
    \<and> (cooled s' nid = (if e > fl (65 / 100) then (now, True)
         else if due_release now e (cooled s nid) then (fst (cooled s nid), False) else cooled s nid))"
proof -
  obtain e where e: "jnumber (jget p ''entropy'' (JNum 0)) = Some e"
    using assms by (cases "jnumber (jget p ''entropy'' (JNum 0))") (simp_all add: update_node_def)
  obtain rel cd where cd: "cool_down now e (cooled s nid) = (rel, cd)" by (metis surj_pair)
  note f = update_node_fields [OF assms e cd]
  have less: "fl (2 / 10) \<le> fl (65 / 100)" by code_simp
  have rel: "due_release now e (cooled s nid) = rel"
    using cd less by (auto simp: cool_down_def due_release_def COOLDOWN_SECONDS_def split: if_splits)
  have cd': "cd = (if e > fl (65 / 100) then (now, True) else if rel then (fst (cooled s nid), False) else cooled s nid)"
    using cd by (auto simp: cool_down_def split: if_splits)
  have "map_of (cs_nodes_db s') = (map_of (cs_nodes_db s))(nid \<mapsto> node_of p (if rel then JStr ''FALSE'' else jget p ''KERNEL_ANOMALY'' (JStr ''FALSE''))
       (if rel then JStr ''STABLE'' else jget p ''STATUS'' (JStr ''STABLE'')) now)" "map_of (cs_cooldown s') = (map_of (cs_cooldown s))(nid \<mapsto> cd)"
    unfolding f(1,2) by (simp_all add: AList.update_conv')
  then show ?thesis using e by (cases rel) (simp_all add: node_of_def node_status_def rel cd')
qed

theorem status_exact_witness:
  "\<exists>s'. update_node ''t'' 20 ''A'' alarm new_control = Inr s' \<and> map_option ne_status (map_of (cs_nodes_db s') ''A'') = Some ''FLAGGED''"
proof -
  obtain s' where u: "update_node ''t'' 20 ''A'' alarm new_control = Inr s'"
    by (simp add: update_node_def alarm_def jget_def jnumber_def split_beta Let_def)
  from status_exact [OF this] show ?thesis
    by (rule exE) (use u in \<open>simp add: alarm_def jget_def jnumber_def due_release_def new_control_def node_status_def\<close>)
qed


section \<open>The classifier\<close>

text \<open>One report whose load is not a number, or memory where the load is low, ends the classifier in the next round; the rest of the table is not looked at.\<close>

lemma bad_number_stops_classifier:
  assumes "fst n \<noteq> ''UNKNOWN''" "\<not> ln_flagged (snd n)" "jnumber (ln_cpu_load (snd n)) = None"
  shows "analyze_anomalies (Some (n # ns)) now live = ([], [], False)"
  using assms by (simp add: analyze_anomalies_def classify_def)

text \<open>A report whose identifier has a line break writes further commands.\<close>

lemma identifier_adds_commands:
  assumes "CHR 0x0A \<notin> set a"
  shows "getline_tokens (CHR 0x0A) (write_commands [isolate_command (a @ [CHR 0x0A] @ b)] []) = isolate_command a # getline_tokens (CHR 0x0A) (b @ [CHR 0x0A])"
  using assms getline_from_field [of "CHR 0x0A" "isolate_command a" "[]" "b @ [CHR 0x0A]"]
  by (simp add: write_commands_def isolate_command_def getline_tokens_def)

text \<open>
  As long as every report has numbers, the classifier asks for the isolation of exactly the nodes it knows that are not flagged and report more than 85 percent
  load or 14000 megabytes, each once in a round.
\<close>

theorem classifier_exact:
  assumes "\<forall>n \<in> set live. jnumber (ln_cpu_load (snd n)) \<noteq> None \<and> jnumber (ln_ram_mb (snd n)) \<noteq> None"
  shows "classify_all live = (map (isolate_command \<circ> fst) (filter (\<lambda>n. fst n \<noteq> ''UNKNOWN'' \<and> \<not> ln_flagged (snd n)
     \<and> (the (jnumber (ln_cpu_load (snd n))) > 85 \<or> the (jnumber (ln_ram_mb (snd n))) > 14000)) live), True)"
  using assms by (induction live) (auto simp: classify_def)

theorem classifier_exact_witness: "classify_all [(''A'', busy_node)] = ([isolate_command ''A''], True)"
  using classifier_exact [of "[(''A'', busy_node)]"] by (simp add: busy_node_def jnumber_def)

end
