(* ===== verification/Operations.thy ===== *)
theory Operations
  imports Daemon AuditLogger
begin

text \<open>
  The tools around the nodes, in Python: the process manager \<open>orchestration/mesh_manager.py\<close>, the command line tool
  \<open>orchestration/neuro_ctl.py\<close>, the web server \<open>orchestration/web_server.py\<close>, the WebSocket proxy
  \<open>orchestration/ws_proxy.py\<close>, and the stand-alone packet filter \<open>kernel/neuro_bpf.c\<close>. The commands of the tools meet the
  control socket of the daemon here.
\<close>


section \<open>The process manager\<close>

definition MAX_RESTARTS :: nat where "MAX_RESTARTS = 5"
definition RESTART_BACKOFF_BASE :: nat where "RESTART_BACKOFF_BASE = 2"

datatype manager_out = Slept nat | Started node_id "string list" | GaveUp node_id | Unlinked string | Terminated nat | ForceKilled nat | KilledInNamespace node_id

record manager =
  mg_nodes :: "node_id list"
  mg_restart_counts :: "node_id \<Rightarrow> nat"
  mg_running :: bool
  mg_outs :: "manager_out list"

text \<open>The command of a node; \<open>namespaces\<close> are those that exist.\<close>

definition agent_command :: "node_id set \<Rightarrow> node_id \<Rightarrow> string list" where
  "agent_command namespaces node_id =
     (if node_id \<in> namespaces then [''ip'', ''netns'', ''exec'', node_id, ''./bin/neuro_agent'', node_id] else [''./bin/neuro_agent'', node_id])"

definition mesh_nodes :: "node_id list" where
  "mesh_nodes = [''ALPHA'', ''BRAVO'', ''CHARLIE'', ''DELTA'', ''ECHO'']"

definition manager_boot :: "node_id set \<Rightarrow> manager" where
  "manager_boot namespaces =
     \<lparr>mg_nodes = mesh_nodes, mg_restart_counts = (\<lambda>_. 0), mg_running = True,
      mg_outs = map (\<lambda>n. Started n (agent_command namespaces n)) mesh_nodes\<rparr>"

text \<open>\<open>stopped\<close>: a signal arrived while the manager slept.\<close>

definition restart_node :: "node_id set \<Rightarrow> bool \<Rightarrow> node_id \<Rightarrow> manager \<Rightarrow> manager" where
  "restart_node namespaces stopped node_id m =
     (let count = mg_restart_counts m node_id in
      if count \<ge> MAX_RESTARTS then m\<lparr>mg_outs := mg_outs m @ [GaveUp node_id]\<rparr>
      else
        let m = m\<lparr>mg_outs := mg_outs m @ [Slept (min (RESTART_BACKOFF_BASE ^ count) 30)], mg_running := mg_running m \<and> \<not> stopped\<rparr> in
        if \<not> mg_running m then m
        else m\<lparr>mg_outs := mg_outs m @ [Started node_id (agent_command namespaces node_id)],
               mg_restart_counts := (mg_restart_counts m)(node_id := count + 1)\<rparr>)"

text \<open>\<open>exited\<close> says which processes are found to have ended, \<open>stopped\<close> in which restarts a signal arrives.\<close>

definition monitor_nodes :: "node_id set \<Rightarrow> (node_id \<Rightarrow> bool) \<Rightarrow> (node_id \<Rightarrow> bool) \<Rightarrow> manager \<Rightarrow> manager" where
  "monitor_nodes namespaces exited stopped m =
     fold (\<lambda>n m. if exited n \<and> mg_running m then restart_node namespaces (stopped n) n m else m) (mg_nodes m) m"

text \<open>The handler of the signals: \<open>alive\<close> are the processes that run, \<open>stubborn\<close> those that are still there at the deadline.\<close>

definition manager_cleanup :: "node_id set \<Rightarrow> (nat \<Rightarrow> bool) \<Rightarrow> (nat \<Rightarrow> bool) \<Rightarrow> manager \<Rightarrow> manager" where
  "manager_cleanup namespaces alive stubborn m =
     m\<lparr>mg_running := False,
       mg_outs := mg_outs m @ map KilledInNamespace (filter (\<lambda>n. n \<in> namespaces) (mg_nodes m))
         @ map Terminated (filter alive [0..<length (mg_nodes m)])
         @ map ForceKilled (filter (\<lambda>i. alive i \<and> stubborn i) [0..<length (mg_nodes m)])
         @ [Unlinked ''/tmp/neuro_mesh_token'']\<rparr>"


section \<open>The command line tool\<close>

definition ends_with :: "string \<Rightarrow> string \<Rightarrow> bool" where
  "ends_with w s \<longleftrightarrow> starts_with (rev w) (rev s)"

definition find_agent_socket :: "string list \<Rightarrow> string option" where
  "find_agent_socket entries =
     map_option (\<lambda>e. ''/tmp/'' @ e) (find (\<lambda>e. starts_with ''neuro_mesh_'' e \<and> ends_with ''.sock'' e) entries)"

text \<open>What the tool sends, to which socket; \<open>None\<close> when it sends nothing.\<close>

definition neuro_ctl :: "string list \<Rightarrow> string \<Rightarrow> (string \<times> string) option" where
  "neuro_ctl entries action =
     (case find_agent_socket entries of
        None \<Rightarrow> None
      | Some path \<Rightarrow>
          if action = ''reset'' then Some (path, ''CMD:RESET'')
          else if action = ''shutdown'' then Some (path, ''CMD:SHUTDOWN'')
          else None)"

text \<open>The connection the daemon sees: all of the command is there at the first read, and the end of the stream after it.\<close>

definition ctl_session :: "32 word \<Rightarrow> string \<Rightarrow> ipc_session" where
  "ctl_session uid command = \<lparr>is_uid = Some uid, is_first = command, is_second = []\<rparr>"


section \<open>The injection tool\<close>

text \<open>\<open>tools/inject_event.cpp\<close>: the evidence it builds and the messages it writes to the control socket; \<open>content\<close> is the token file, if there is one.\<close>

definition tag_field :: "string \<Rightarrow> string" where
  "tag_field tag = (if tag = [] then [] else '',\"tag\":\"'' @ json_escape tag @ ''\"'')"

definition inject_evidence :: "string \<Rightarrow> string \<Rightarrow> string \<Rightarrow> string \<Rightarrow> string" where
  "inject_evidence event_type target verdict tag =
     (if event_type = ''lateral_movement''
      then ''{\"event\":\"lateral_movement\",\"src_ip\":\"'' @ json_escape target @ ''\",\"pid\":4201,\"comm\":\"sshd\",\"verdict\":\"''
        @ json_escape verdict @ ''\"'' @ tag_field tag @ ''}''
      else if event_type = ''privilege_escalation''
      then ''{\"event\":\"privilege_escalation\",\"uid\":0,\"comm\":\"bash\",\"parent_comm\":\"nginx\",\"verdict\":\"''
        @ json_escape verdict @ ''\"'' @ tag_field tag @ ''}''
      else ''{\"sensor\":\"ebpf_entropy\",\"value\":0.98,\"threshold\":0.85,\"verdict\":\"''
        @ json_escape verdict @ ''\"'' @ tag_field tag @ ''}'')"

definition inject_command :: "string \<Rightarrow> string \<Rightarrow> string" where
  "inject_command target evidence = ''CMD:INJECT '' @ target @ '' '' @ evidence"

definition strip_token :: "string \<Rightarrow> string" where
  "strip_token content = rev (dropWhile (\<lambda>c. c \<in> {CHR 0x0A, CHR 0x0D, CHR '' '', CHR 0x00}) (rev content))"

definition inject_messages :: "string option \<Rightarrow> string \<Rightarrow> string list" where
  "inject_messages content cmd =
     (case content of
        None \<Rightarrow> [cmd]
      | Some c \<Rightarrow> let token = strip_token c in if token = [] then [cmd] else [''AUTH '' @ token @ [CHR 0x0A], cmd])"


section \<open>The web server\<close>

text \<open>\<open>os.path.normpath\<close> for POSIX: the components that are left, after at most two leading slashes.\<close>

fun split_on :: "char \<Rightarrow> string \<Rightarrow> string \<Rightarrow> string list" where
  "split_on d acc [] = [acc]"
| "split_on d acc (c # s) = (if c = d then acc # split_on d [] s else split_on d (acc @ [c]) s)"

definition norm_step :: "bool \<Rightarrow> string \<Rightarrow> string list \<Rightarrow> string list" where
  "norm_step absolute part new =
     (if part = [] \<or> part = ''.'' then new
      else if part \<noteq> ''..'' \<or> (\<not> absolute \<and> new = []) \<or> (new \<noteq> [] \<and> last new = ''..'') then new @ [part]
      else if new \<noteq> [] then butlast new
      else new)"

definition leading_slashes :: "string \<Rightarrow> nat" where
  "leading_slashes path =
     (if starts_with ''//'' path \<and> \<not> starts_with ''///'' path then 2 else if starts_with ''/'' path then 1 else 0)"

definition normpath :: "string \<Rightarrow> string" where
  "normpath path =
     (if path = [] then ''.''
      else
        let n = leading_slashes path;
            comps = fold (norm_step (n > 0)) (split_on (CHR ''/'') [] path) [];
            result = replicate n (CHR ''/'') @ join_fields (CHR ''/'') comps
        in if result = [] then ''.'' else result)"

text \<open>The file that is served below the directory of the dashboard; \<open>None\<close> is the answer 403.\<close>

definition static_files :: "string \<Rightarrow> string option" where
  "static_files path =
     (let safe_path = normpath path in if starts_with ''..'' safe_path \<or> starts_with ''/'' safe_path then None else Some safe_path)"

datatype attack_answer = Unauthorized | Launched | LaunchFailed

text \<open>\<open>ok\<close> says whether the tool ends with the code zero.\<close>

definition api_attack :: "string \<Rightarrow> string \<Rightarrow> bool \<Rightarrow> attack_answer" where
  "api_attack api_token token ok =
     (if token = [] \<or> token \<noteq> api_token then Unauthorized else if ok then Launched else LaunchFailed)"


section \<open>The proxy\<close>

definition BACKEND_PORTS :: "nat list" where
  "BACKEND_PORTS = [9000, 9010, 9020, 9030, 9040]"

text \<open>The first backend that can be reached.\<close>

definition connect_to_backend :: "(nat \<Rightarrow> bool) \<Rightarrow> nat option" where
  "connect_to_backend reachable = find reachable BACKEND_PORTS"


section \<open>The packet filter\<close>

datatype xdp_verdict = PASS | DROP

text \<open>A packet: its length, the type of its frame and its source address; \<open>blocklist\<close> is the map of the kernel.\<close>

definition isolate_threat_xdp :: "(32 word \<rightharpoonup> 8 word) \<Rightarrow> nat \<Rightarrow> 16 word \<Rightarrow> 32 word \<Rightarrow> xdp_verdict" where
  "isolate_threat_xdp blocklist len h_proto saddr =
     (if len < 14 then PASS
      else if h_proto \<noteq> 0x0800 then PASS
      else if len < 34 then PASS
      else case blocklist saddr of Some v \<Rightarrow> if v = 1 then DROP else PASS | None \<Rightarrow> PASS)"


section \<open>Vocabulary of the statements\<close>

text \<open>How two messages can arrive: in one read or in two.\<close>

definition arrives :: "string list \<Rightarrow> ipc_session \<Rightarrow> bool" where
  "arrives msgs S \<longleftrightarrow> is_first S = concat msgs \<or> (\<exists>a b. msgs = [a, b] \<and> is_first S = a \<and> is_second S = b)"

text \<open>A text a token is made of, and a target the command line can name.\<close>

definition token_text :: "string \<Rightarrow> bool" where
  "token_text t \<longleftrightarrow> t \<noteq> [] \<and> (\<forall>c \<in> set t. c \<noteq> CHR '' '' \<and> c \<noteq> CHR 0x0A \<and> c \<noteq> CHR 0x0D \<and> c \<noteq> CHR 0x00)"

definition starts_of :: "node_id \<Rightarrow> manager_out list \<Rightarrow> nat" where
  "starts_of n os = length (filter (\<lambda>out. case out of Started k _ \<Rightarrow> k = n | _ \<Rightarrow> False) os)"

text \<open>Rounds of the manager: who has ended, and in which restart a signal arrives.\<close>

definition manager_run :: "node_id set \<Rightarrow> ((node_id \<Rightarrow> bool) \<times> (node_id \<Rightarrow> bool)) list \<Rightarrow> manager \<Rightarrow> manager" where
  "manager_run namespaces = fold (\<lambda>(exited, stopped). monitor_nodes namespaces exited stopped)"

definition counted :: "manager \<Rightarrow> bool" where
  "counted m \<longleftrightarrow> (\<forall>n. starts_of n (mg_outs m) = mg_restart_counts m n + count_list mesh_nodes n \<and> mg_restart_counts m n \<le> MAX_RESTARTS)"

definition plain_part :: "string \<Rightarrow> bool" where
  "plain_part c \<longleftrightarrow> c \<noteq> [] \<and> c \<noteq> ''.'' \<and> CHR ''/'' \<notin> set c"

text \<open>What is left of a relative path: steps up, and then none.\<close>

definition normal :: "string list \<Rightarrow> bool" where
  "normal cs \<longleftrightarrow> (\<forall>c \<in> set cs. plain_part c) \<and> (\<exists>k rest. cs = replicate k ''..'' @ rest \<and> ''..'' \<notin> set rest)"


section \<open>The manager\<close>

lemma starts_append [simp]: "starts_of n (os @ os') = starts_of n os + starts_of n os'"
  by (simp add: starts_of_def)

lemma starts_simps [simp]:
  "starts_of n [] = 0" "starts_of n (Started k c # os) = (if k = n then 1 else 0) + starts_of n os" "starts_of n (Slept t # os) = starts_of n os"
  "starts_of n (GaveUp k # os) = starts_of n os"
  by (simp_all add: starts_of_def)

lemma restart_counted: "counted m \<Longrightarrow> counted (restart_node ns st n m)"
  by (auto simp: counted_def restart_node_def Let_def)

lemma monitor_counted: "counted m \<Longrightarrow> counted (monitor_nodes ns ex st m)"
  unfolding monitor_nodes_def by (rule fold_invariant [where Q = "\<lambda>_. True"]) (auto intro: restart_counted)

lemma run_counted: "counted m \<Longrightarrow> counted (manager_run ns rounds m)"
  unfolding manager_run_def by (induction rounds arbitrary: m) (auto intro: monitor_counted)

lemma boot_counted: "counted (manager_boot ns)"
  by (simp add: counted_def manager_boot_def mesh_nodes_def)

text \<open>
  Whatever crashes and signals happen, the manager starts each of its nodes once and restarts it at most five times. The restarts are never forgotten: a node
  that has crashed five times over any span of time is not started again.
\<close>

theorem restarts_bounded: "starts_of n (mg_outs (manager_run ns rounds (manager_boot ns))) \<le> 6"
proof -
  have "count_list mesh_nodes n \<le> 1" by (auto simp: mesh_nodes_def)
  moreover have "starts_of n (mg_outs (manager_run ns rounds (manager_boot ns))) = mg_restart_counts (manager_run ns rounds (manager_boot ns)) n + count_list mesh_nodes n"
    "mg_restart_counts (manager_run ns rounds (manager_boot ns)) n \<le> 5"
    using run_counted [OF boot_counted, of ns rounds ns] by (simp_all add: counted_def MAX_RESTARTS_def)
  ultimately show ?thesis by linarith
qed


section \<open>The tool and the daemon\<close>

lemma ctl_uid [simp]: "is_uid (ctl_session uid c) = Some uid"
  by (simp add: ctl_session_def)

lemma bare_command_token:
  "received_token (c_string ''CMD:RESET'') = ''CMD:RESET''" "received_token (c_string ''CMD:SHUTDOWN'') = ''CMD:SHUTDOWN''"
  by (simp_all add: received_token_def c_string_def starts_with_def trim_token_def is_newline_def)

text \<open>
  The command line tool cannot control a node that the manager has started: it sends its command without the token, and a daemon with a token
  refuses the connection and stays as it is, for every user, state and moment.
\<close>

theorem ctl_commands_refused:
  assumes "neuro_ctl entries action = Some (path, command)" "dm_token d \<noteq> []" "dm_token d \<notin> {''CMD:RESET'', ''CMD:SHUTDOWN''}"
    "ipc_client E (ctl_session uid command) d = Some d'"
  shows "\<not> controls d d'"
proof -
  have "command = ''CMD:RESET'' \<or> command = ''CMD:SHUTDOWN''"
    using assms(1) by (auto simp: neuro_ctl_def split: option.splits if_splits)
  then have "ipc_read (dm_token d) (ctl_session uid command) = InputRefused ''REJECT:AUTH_TOKEN\<newline>''"
    using assms(2,3) bare_command_token by (auto simp: ipc_read_def ctl_session_def Let_def)
  then show ?thesis using assms(4)
    by (auto simp: ipc_client_def controls_def reply_def Let_def split: if_splits prod.splits)
qed

theorem ctl_commands_refused_witness: "\<exists>d'. ipc_client demo_daemon_env (ctl_session 0 ''CMD:RESET'') (demo_boot\<lparr>dm_token := ''s3cret''\<rparr>) = Some d' \<and> \<not> controls (demo_boot\<lparr>dm_token := ''s3cret''\<rparr>) d'"
proof -
  have ctl: "neuro_ctl [''neuro_mesh_A.sock''] ''reset'' = Some (''/tmp/neuro_mesh_A.sock'', ''CMD:RESET'')"
    by (simp add: neuro_ctl_def find_agent_socket_def starts_with_def ends_with_def)
  have "ipc_read ''s3cret'' (ctl_session 0 ''CMD:RESET'') = InputRefused ''REJECT:AUTH_TOKEN\<newline>''"
    using bare_command_token by (simp add: ipc_read_def ctl_session_def Let_def)
  then obtain d' where "ipc_client demo_daemon_env (ctl_session 0 ''CMD:RESET'') (demo_boot\<lparr>dm_token := ''s3cret''\<rparr>) = Some d'"
    by (cases "fst (ipc_rate_check demo_daemon_env 0 (dm_limits demo_boot))") (simp_all add: ipc_client_def Let_def split_beta)
  then show ?thesis using ctl_commands_refused [OF ctl, of "demo_boot\<lparr>dm_token := ''s3cret''\<rparr>" demo_daemon_env 0] by auto
qed

lemma json_escape_no_nul: "CHR 0x00 \<notin> set (json_escape s)"
proof (induction s)
  case (Cons c s)
  have "CHR 0x00 \<notin> set (u_escape c)" using u_escape_printable [of "CHR 0x00" c] by auto
  then show ?case using Cons by (auto simp: json_esc_def)
qed simp

lemma evidence_text: "hd (inject_evidence ev t v tag) = CHR ''{''" "CHR 0x00 \<notin> set (inject_evidence ev t v tag)" "inject_evidence ev t v tag \<noteq> []"
  using json_escape_no_nul by (simp_all add: inject_evidence_def tag_field_def)

lemma inject_command_parse:
  assumes "target \<noteq> []" "length target \<le> 64" "CHR '' '' \<notin> set target" "length evidence \<le> 65536" "evidence \<noteq> []" "hd evidence = CHR ''{''" "CHR 0x00 \<notin> set evidence"
  shows "ipc_parse (inject_command target evidence) = StartRound target evidence ''ACK:INJECT\<newline>''"
proof -
  have "takeWhile (\<lambda>c. c \<noteq> CHR '' '') (target @ CHR '' '' # evidence) = target" using assms(3) by (induction target) auto
  then show ?thesis using assms by (simp add: ipc_parse_def inject_command_def starts_with_def round_request_def Let_def)
qed

lemma auth_line_read:
  assumes "token_text token"
  shows "received_token (''AUTH '' @ token @ CHR 0x0A # x) = token" "trailing_command (''AUTH '' @ token @ CHR 0x0A # x) = dropWhile is_newline x"
proof -
  have "takeWhile (\<lambda>c. \<not> is_newline c) (token @ CHR 0x0A # x) = token" using assms by (induction token) (auto simp: token_text_def is_newline_def)
  moreover have "trim_token token = token"
    using assms by (cases "rev token") (auto simp: token_text_def trim_token_def is_newline_def)
  ultimately show "received_token (''AUTH '' @ token @ CHR 0x0A # x) = token" by (simp add: received_token_def starts_with_def)
  have "dropWhile (\<lambda>c. c \<noteq> CHR 0x0A) (token @ CHR 0x0A # x) = CHR 0x0A # x" using assms by (induction token) (auto simp: token_text_def)
  then show "trailing_command (''AUTH '' @ token @ CHR 0x0A # x) = dropWhile is_newline x" by (simp add: trailing_command_def)
qed



text \<open>The commands of the classifier are not commands of the daemon.\<close>

lemma classifier_command_ignored: "ipc_parse (''CMD:ISOLATE|'' @ nid) = IgnoreRequest"
  by (simp add: ipc_parse_def starts_with_def)


section \<open>Static files\<close>

lemma split_on_plain: "d \<notin> set acc \<Longrightarrow> c \<in> set (split_on d acc s) \<Longrightarrow> d \<notin> set c"
  by (induction d acc s rule: split_on.induct) (auto split: if_splits)

lemma norm_step_normal:
  assumes "normal cs" "CHR ''/'' \<notin> set part"
  shows "normal (norm_step False part cs)"
proof -
  obtain k rest where cs: "cs = replicate k ''..'' @ rest" "''..'' \<notin> set rest" and plain: "\<forall>c \<in> set cs. plain_part c"
    using assms(1) by (auto simp: normal_def)
  consider (skip) "part = [] \<or> part = ''.''" | (name) "part \<noteq> []" "part \<noteq> ''.''" "part \<noteq> ''..''"
    | (up) "part = ''..''" "rest = []" | (down) "part = ''..''" "rest \<noteq> []" by blast
  then show ?thesis
  proof cases
    case skip
    then show ?thesis using assms(1) by (simp add: norm_step_def)
  next
    case name
    then have "norm_step False part cs = replicate k ''..'' @ (rest @ [part])" by (simp add: norm_step_def cs(1))
    then show ?thesis using name cs plain assms(2) unfolding normal_def
      by (intro conjI exI [of _ k] exI [of _ "rest @ [part]"]) (auto simp: plain_part_def)
  next
    case up
    then have "norm_step False part cs = replicate (Suc k) ''..'' @ []" by (cases k) (simp_all add: norm_step_def cs(1) replicate_append_same)
    then show ?thesis unfolding normal_def by (intro conjI exI [of _ "Suc k"] exI [of _ "[]"]) (auto simp: plain_part_def)
  next
    case down
    then have "last rest \<in> set rest" by simp
    then have "last rest \<noteq> ''..''" using cs(2) by metis
    then have "last cs \<noteq> ''..''" "cs \<noteq> []" using cs(1) down by auto
    then have "norm_step False part cs = replicate k ''..'' @ butlast rest" using down by (simp add: norm_step_def cs(1) butlast_append)
    then show ?thesis using cs plain unfolding normal_def
      by (intro conjI exI [of _ k] exI [of _ "butlast rest"]) (auto dest: in_set_butlastD)
  qed
qed

lemma normal_fold: "normal cs \<Longrightarrow> (\<And>c. c \<in> set ps \<Longrightarrow> CHR ''/'' \<notin> set c) \<Longrightarrow> normal (fold (norm_step False) ps cs)"
  by (induction ps arbitrary: cs) (auto intro: norm_step_normal)

text \<open>
  C39. The web server serves nothing outside of its directory: a path it does not refuse has been reduced to the directory itself or to names below
  it, none of them a step up, whatever dots and slashes the request has.
\<close>

theorem static_files_confined:
  assumes "static_files path = Some f"
  shows "f = ''.'' \<or> (\<exists>cs. cs \<noteq> [] \<and> f = join_fields (CHR ''/'') cs \<and> (\<forall>c \<in> set cs. plain_part c \<and> c \<noteq> ''..''))"
proof -
  have f: "f = normpath path" "\<not> starts_with ''..'' f" "\<not> starts_with ''/'' f"
    using assms by (auto simp: static_files_def Let_def split: if_splits)
  show ?thesis
  proof (cases "path = []")
    case True
    then show ?thesis using f by (simp add: normpath_def)
  next
    case False
    let ?n = "leading_slashes path"
    have zero: "?n = 0"
    proof (rule ccontr)
      assume "?n \<noteq> 0"
      then have "starts_with ''/'' (normpath path)"
        using False by (cases ?n) (auto simp: normpath_def starts_with_def Let_def)
      then show False using f by simp
    qed
    let ?cs = "fold (norm_step False) (split_on (CHR ''/'') [] path) []"
    have normal: "normal ?cs" by (rule normal_fold) (auto simp: normal_def dest: split_on_plain [rotated])
    have f': "f = (if join_fields (CHR ''/'') ?cs = [] then ''.'' else join_fields (CHR ''/'') ?cs)"
      using False zero f(1) by (simp add: normpath_def)
    then show ?thesis
    proof (cases "join_fields (CHR ''/'') ?cs = []")
      case False
      obtain k rest where cs: "?cs = replicate k ''..'' @ rest" "''..'' \<notin> set rest" using normal by (auto simp: normal_def)
      have "k = 0"
      proof (rule ccontr)
        assume "k \<noteq> 0"
        then obtain tail where "?cs = ''..'' # tail" using cs by (cases k) auto
        then have "starts_with ''..'' (join_fields (CHR ''/'') ?cs)" by (cases tail) (auto simp: starts_with_def)
        then show False using f(2) f' False by simp
      qed
      then show ?thesis using cs f' False normal by (intro disjI2 exI [of _ ?cs]) (auto simp: normal_def)
    qed simp
  qed
qed

lemma static_demo: "static_files ''css/../js//app.js'' = Some ''js/app.js''" "static_files ''a/../../etc/passwd'' = None"
  by (simp_all add: static_files_def normpath_def leading_slashes_def starts_with_def norm_step_def Let_def)

theorem static_files_confined_witness:
  "\<exists>cs. cs \<noteq> [] \<and> ''js/app.js'' = join_fields (CHR ''/'') cs \<and> (\<forall>c \<in> set cs. plain_part c \<and> c \<noteq> ''..'')"
  using static_files_confined [OF static_demo(1)] by simp

text \<open>A name that only begins with two dots is refused as well.\<close>

lemma dotted_name_refused: "static_files ''..config/app.js'' = None"
  by (simp add: static_files_def normpath_def leading_slashes_def starts_with_def norm_step_def Let_def)

lemma attack_needs_token: "api_attack api token ok \<noteq> Unauthorized \<longleftrightarrow> token \<noteq> [] \<and> token = api"
  by (auto simp: api_attack_def)


section \<open>The packet filter\<close>

text \<open>Exactly the complete IPv4 packets from an address entered with the value one are dropped.\<close>

lemma xdp_exact: "isolate_threat_xdp b len proto src = DROP \<longleftrightarrow> 34 \<le> len \<and> proto = 0x0800 \<and> b src = Some 1"
  by (simp add: isolate_threat_xdp_def split: option.split)

end
