(* ===== verification/NodeSetup.thy ===== *)
theory NodeSetup
  imports KeyManager Transport MeshNode "HOL-Library.Multiset"
begin

text \<open>
  How a node comes up and goes down: the part of the constructor of \<open>consensus/MeshNode.cpp\<close> that takes the identity
  from the key store and prepares the TLS certificate, the sockets of \<open>start\<close> and \<open>stop\<close>, the search for a free port, and the thread that reaps the
  children of the webhook. Here the key manager, the transport and the mesh node meet.
\<close>


section \<open>The identity\<close>

definition identity_name :: "node_id \<Rightarrow> string" where
  "identity_name node_id = node_id @ ''_ed25519_identity''"

text \<open>The private key of the node, the key manager and the disk afterwards; \<open>Inl\<close> is an exception.\<close>

definition load_identity :: "km_env \<Rightarrow> node_id \<Rightarrow> key_manager \<Rightarrow> disk \<Rightarrow> string + (pkey \<times> key_manager \<times> disk)" where
  "load_identity E node_id km d =
     (case Option.bind (load_key E (identity_name node_id) km d) kp_private_key of
        Some k \<Rightarrow> Inr (k, km, d)
      | None \<Rightarrow>
          (case generate_ed25519_key E of
             Inl e \<Rightarrow> Inl e
           | Inr k \<Rightarrow>
               (case (ke_dup E k, ke_dup E k) of
                  (Some pub, Some priv) \<Rightarrow>
                    let (_, km, d) = store_key E \<lparr>kp_key_id = identity_name node_id, kp_public_key = Some pub, kp_private_key = Some priv, kp_type = Ed25519\<rparr> km d
                    in Inr (k, km, d)
                | _ \<Rightarrow> Inr (k, km, d))))"


section \<open>The certificate\<close>

definition node_certificate_config :: "node_id \<Rightarrow> certificate_config" where
  "node_certificate_config node_id =
     \<lparr>cc_common_name = node_id, cc_organization = ''Neuro-Mesh'', cc_organizational_unit = [], cc_country = [], cc_state = [], cc_locality = [],
      cc_sans = [], cc_validity_days = 7, cc_is_ca = False, cc_is_server_auth = True, cc_is_client_auth = True\<rparr>"

text \<open>The paths of the certificate and the key, empty when there is none; the outer \<open>None\<close> is undefined behaviour of the certificate generation.\<close>

definition prepare_tls :: "km_env \<Rightarrow> node_id \<Rightarrow> key_manager \<Rightarrow> disk \<Rightarrow> string + (string \<times> string \<times> key_manager \<times> disk) option" where
  "prepare_tls E node_id km d =
     (case km_generate_key E Ed25519 (node_id @ ''_tls'') km d of
        Inl e \<Rightarrow> Inl e
      | Inr (None, d) \<Rightarrow> Inr (Some ([], [], km, d))
      | Inr (Some tls_key, d) \<Rightarrow>
          let (_, km, d) = store_key E tls_key km d in
          Inr (case generate_certificate E tls_key (node_certificate_config node_id) [] km d of
                 None \<Rightarrow> None
               | Some None \<Rightarrow> Some ([], [], km, d)
               | Some (Some cert) \<Rightarrow>
                   let (_, d) = store_certificate E cert km d in
                   Some (''./keystore_'' @ node_id @ ''/certs/'' @ ct_key_id cert @ ''.crt'',
                         ''./keystore_'' @ node_id @ ''/'' @ kp_key_id tls_key @ ''.pem'', km, d)))"

definition node_tls_config :: "string \<Rightarrow> string \<Rightarrow> tls_config" where
  "node_tls_config cert_path key_path =
     \<lparr>tc_cert_path = cert_path, tc_key_path = key_path, tc_ca_path = cert_path, tc_verify_client = True,
      tc_ciphers = ''ECDHE+AESGCM:ECDHE+CHACHA20:DHE+AESGCM:DHE+CHACHA20:!aNULL:!MD5:!DSS'', tc_enable_tls13 = True, tc_enable_mtls = True\<rparr>"

text \<open>The text of the certificate file, if it can be read: it goes into the beacons, with its hash.\<close>

definition announced_certificate :: "string \<Rightarrow> disk \<Rightarrow> string option" where
  "announced_certificate cert_path d = (if cert_path = [] then None else map_option fst (dk_files d cert_path))"

text \<open>A transport that cannot be created is left out.\<close>

definition node_transport :: "tls_env \<Rightarrow> string \<Rightarrow> string \<Rightarrow> transport option" where
  "node_transport T cert_path key_path = (case new_transport T (node_tls_config cert_path key_path) of Inl _ \<Rightarrow> None | Inr t \<Rightarrow> Some t)"


section \<open>Sockets\<close>

text \<open>The four datagram sockets: opened by the constructor, closed by \<open>stop\<close>.\<close>

definition close_sockets :: "int \<times> int \<times> int \<times> int \<Rightarrow> (int \<times> int \<times> int \<times> int) \<times> int list" where
  "close_sockets fds =
     (let (b, d, d6, mc) = fds; shut = (\<lambda>fd. if fd \<ge> 0 then (-1, [fd]) else (fd, []))
      in ((fst (shut b), fst (shut d), fst (shut d6), fst (shut mc)), snd (shut b) @ snd (shut d) @ snd (shut d6) @ snd (shut mc)))"

text \<open>The search for a port: \<open>sock i\<close> and \<open>bound i\<close> are the results of the calls for the port \<open>start + i\<close>.\<close>

datatype port_out = PortOpened int | PortClosed int

fun bind_ports :: "(nat \<Rightarrow> int) \<Rightarrow> (nat \<Rightarrow> bool) \<Rightarrow> nat \<Rightarrow> nat \<Rightarrow> (int \<times> nat) option \<times> port_out list" where
  "bind_ports sock bound i 0 = (None, [])"
| "bind_ports sock bound i (Suc n) =
     (if sock i < 0 then bind_ports sock bound (i + 1) n
      else if bound i then (Some (sock i, i), [PortOpened (sock i)])
      else let (r, os) = bind_ports sock bound (i + 1) n in (r, PortOpened (sock i) # PortClosed (sock i) # os))"

definition TCP_PORT_START :: int where "TCP_PORT_START = 10000"
definition TLS_PORT_START :: int where "TLS_PORT_START = 10500"

text \<open>The listener of the peer exchange: the port (0 for none) and the descriptor that is left open.\<close>

definition tcp_listener :: "(nat \<Rightarrow> int) \<Rightarrow> (nat \<Rightarrow> bool) \<Rightarrow> bool \<Rightarrow> int \<times> int option \<times> port_out list" where
  "tcp_listener sock bound listen_ok =
     (case bind_ports sock bound 0 100 of
        (None, os) \<Rightarrow> (0, None, os)
      | (Some (fd, i), os) \<Rightarrow>
          if listen_ok then (TCP_PORT_START + int i, Some fd, os) else (TCP_PORT_START + int i, None, os @ [PortClosed fd]))"

text \<open>The TLS acceptor tries a hundred ports with the transport.\<close>

fun tls_bind :: "(nat \<Rightarrow> bind_io) \<Rightarrow> nat \<Rightarrow> nat \<Rightarrow> transport \<Rightarrow> int \<times> transport" where
  "tls_bind io i 0 t = (0, t)"
| "tls_bind io i (Suc n) t =
     (let port = TLS_PORT_START + int i; (ok, t) = tl_bind (io i) ''0.0.0.0'' (word_of_int port) t
      in if ok then (port, t) else tls_bind io (i + 1) n t)"


section \<open>The reaper\<close>

record reaper =
  rp_running :: bool
  rp_queue :: "int list"
  rp_reaped :: "int list"

definition enqueue_reap :: "int \<Rightarrow> reaper \<Rightarrow> reaper" where
  "enqueue_reap pid r = r\<lparr>rp_running := True, rp_queue := rp_queue r @ [pid]\<rparr>"

text \<open>One round of the loop: the last process of the queue is waited for.\<close>

definition reaper_round :: "reaper \<Rightarrow> reaper" where
  "reaper_round r =
     (if \<not> rp_running r \<or> rp_queue r = [] then r else r\<lparr>rp_queue := butlast (rp_queue r), rp_reaped := rp_reaped r @ [last (rp_queue r)]\<rparr>)"


section \<open>Vocabulary of the statements\<close>

text \<open>The descriptors a search leaves open; \<open>None\<close> when it closes one that is not.\<close>

fun open_ports :: "int list \<Rightarrow> port_out list \<Rightarrow> int list option" where
  "open_ports fds [] = Some fds"
| "open_ports fds (PortOpened fd # os) = open_ports (fd # fds) os"
| "open_ports fds (PortClosed fd # os) = (if fd \<in> set fds then open_ports (remove1 fd fds) os else None)"


text \<open>The processes a reaper knows, waited for or not yet.\<close>

definition rp_pids :: "reaper \<Rightarrow> int multiset" where
  "rp_pids r = mset (rp_queue r) + mset (rp_reaped r)"


section \<open>The identity of a node\<close>

lemma new_manager_fields:
  assumes "new_key_manager path d = (km, d')"
  shows "km_keystore_path km = path" "km_passphrase km = []" "km_cert_store_path km = path @ ''/certs''" "km_hsm km = None" "dk_files d' = dk_files d"
  using assms by (auto simp: new_key_manager_def create_directory_def split: if_splits)

text \<open>Without a passphrase, a key that is stored is in its file as it is.\<close>

lemma store_key_plain:
  assumes "km_keystore_path km \<noteq> []" "km_passphrase km = []" "calls_succeed (ke_io E)" "kp_private_key kp = Some k" "ke_write_private E k = Some p"
  shows "\<exists>d' mode. store_key E kp km d = (True, km\<lparr>km_cached_key := Some kp\<rparr>, d') \<and> dk_files d' (key_file km (kp_key_id kp)) = Some (p, mode)
    \<and> (\<forall>q. q \<noteq> key_file km (kp_key_id kp) \<longrightarrow> q \<noteq> tmp_name (key_file km (kp_key_id kp)) (ke_pid E) \<longrightarrow> dk_files d' q = dk_files d q)"
proof -
  have enc: "encrypt_blob E km p = p" using assms(2) by (simp add: encrypt_blob_def)
  obtain ok d' where st: "atomic_store (ke_io E) (ke_pid E) True (key_file km (kp_key_id kp)) p d = (ok, d')" by fastforce
  then have "ok" using assms(3) by (auto simp: atomic_store_def calls_succeed_def Let_def)
  then show ?thesis using st atomic_store_cases [OF st] assms by (auto simp: store_key_def enc)
qed

text \<open>
  C27. A node keeps its identity over a restart: when its first start found no key and the key it generated could be copied and stored, the next start on the
  same disk, in another process at another time, has the same key. The key is in its file as it is, because no passphrase is ever set.
\<close>

theorem identity_survives_restart:
  assumes "new_key_manager (''./keystore_'' @ node_id) d = (km, d0)" "load_key E (identity_name node_id) km d0 = None"
    "generate_ed25519_key E = Inr k" "ke_dup E k = Some k" "ke_write_private E k = Some p" "calls_succeed (ke_io E)"
    "load_identity E node_id km d0 = Inr (k1, km1, d1)" "new_key_manager (''./keystore_'' @ node_id) d1 = (km2, d2)" "ke_read_private E' p = Some k"
  shows "k1 = k \<and> load_identity E' node_id km2 d2 = Inr (k, km2, d2) \<and> map_option fst (dk_files d2 (key_file km2 (identity_name node_id))) = Some p"
proof -
  note m1 = new_manager_fields [OF assms(1)] and m2 = new_manager_fields [OF assms(8)]
  let ?kp = "\<lparr>kp_key_id = identity_name node_id, kp_public_key = Some k, kp_private_key = Some k, kp_type = Ed25519\<rparr>"
  obtain d' mode where st: "store_key E ?kp km d0 = (True, km\<lparr>km_cached_key := Some ?kp\<rparr>, d')"
      "dk_files d' (key_file km (identity_name node_id)) = Some (p, mode)"
    using store_key_plain [of km E ?kp k p d0] m1 assms(5,6) by auto
  then have run: "k1 = k" "d1 = d'" using assms(7) by (simp_all add: load_identity_def assms(2-4))
  have "key_file km2 = key_file km" using m1 m2 by (simp add: key_file_def fun_eq_iff)
  then have "dk_files d2 (key_file km2 (identity_name node_id)) = Some (p, mode)" using st m2 run by simp
  then show ?thesis using run(1) m2 assms(9) by (simp add: load_identity_def load_key_def decrypt_blob_def)
qed

theorem identity_survives_restart_witness:
  "let (km, d0) = new_key_manager ''./keystore_A'' key_demo_disk in
   \<exists>k km1 d1 km2 d2. load_identity demo_km_env ''A'' km d0 = Inr (k, km1, d1)
     \<and> new_key_manager ''./keystore_A'' d1 = (km2, d2) \<and> load_identity (demo_km_env\<lparr>ke_pid := 9\<rparr>) ''A'' km2 d2 = Inr (k, km2, d2)"
proof -
  obtain km d0 where m: "new_key_manager (''./keystore_'' @ ''A'') key_demo_disk = (km, d0)" by fastforce
  have k: "generate_ed25519_key demo_km_env = Inr ''k''" "ke_dup demo_km_env ''k'' = Some ''k''" "ke_write_private demo_km_env ''k'' = Some ''Pk''"
      "calls_succeed (ke_io demo_km_env)" "ke_read_private (demo_km_env\<lparr>ke_pid := 9\<rparr>) ''Pk'' = Some ''k''"
    by (simp_all add: generate_ed25519_key_def demo_km_env_def key_demo_io_def calls_succeed_def)
  have none: "load_key demo_km_env (identity_name ''A'') km d0 = None"
    using new_manager_fields [OF m] by (simp add: load_key_def key_demo_disk_def)
  obtain k1 km1 d1 where run: "load_identity demo_km_env ''A'' km d0 = Inr (k1, km1, d1)"
    by (cases "snd (store_key demo_km_env \<lparr>kp_key_id = identity_name ''A'', kp_public_key = Some ''k'', kp_private_key = Some ''k'', kp_type = Ed25519\<rparr> km d0)")
      (simp add: load_identity_def none k split_beta)
  obtain km2 d2 where again: "new_key_manager (''./keystore_'' @ ''A'') d1 = (km2, d2)" by fastforce
  from identity_survives_restart [OF m none k(1-4) run again k(5)] run again m show ?thesis by auto
qed


section \<open>TLS between nodes\<close>

lemma context_from:
  assumes "node_transport T cert_path key_path = Some t"
  shows "new_tls_context T (node_tls_config cert_path key_path) = Inr (tl_tls t)"
  using assms by (auto simp: node_transport_def new_transport_def split: sum.splits) (cases "new_tls_context T (node_tls_config cert_path key_path)"; auto)+

text \<open>
  TLS between nodes is configured on one side only: the acceptor of a node demands a certificate of its clients, if the node's own certificate can be
  loaded as the authority, but the node has none to present when it connects. If the certificate cannot be loaded, the acceptor demands none and the client verifies nobody.
\<close>

theorem node_tls_one_sided:
  assumes "node_transport T cert_path key_path = Some t"
  shows "sc_certificate (tx_client (tl_tls t)) = None
    \<and> (if cert_path \<noteq> [] \<and> te_load_verify T (c_string cert_path)
       then sc_verify_peer (tx_server (tl_tls t)) \<and> sc_fail_if_no_peer_cert (tx_server (tl_tls t)) \<and> sc_verify_peer (tx_client (tl_tls t))
       else \<not> sc_verify_peer (tx_server (tl_tls t)) \<and> \<not> sc_verify_peer (tx_client (tl_tls t)))"
proof -
  let ?c = "node_tls_config cert_path key_path"
  define u where "u = \<lparr>tx_config = ?c, tx_server = protocol_settings ?c fresh_ctx, tx_client = protocol_settings ?c fresh_ctx\<rparr>"
  define v where "v = (if cert_path \<noteq> [] \<and> key_path \<noteq> [] then snd (tls_load_certificate T u) else u)"
  have c: "tc_cert_path ?c = cert_path" "tc_key_path ?c = key_path" "tc_ca_path ?c = cert_path" "tc_enable_mtls ?c" by (simp_all add: node_tls_config_def)
  have t: "tl_tls t = (if cert_path \<noteq> [] then snd (load_ca_certificate T v) else v)"
    using context_from [OF assms] by (simp add: new_tls_context_def Let_def c u_def [symmetric] v_def split: if_splits)
  have v: "tx_config v = ?c" "sc_certificate (tx_client v) = None" "\<not> sc_verify_peer (tx_server v)" "\<not> sc_verify_peer (tx_client v)"
    by (simp_all add: v_def u_def protocol_settings_def fresh_ctx_def Let_def)
  show ?thesis using load_ca_works [of v T] by (auto simp: t v c)
qed

theorem node_tls_one_sided_witness:
  "\<exists>t. node_transport (demo_tls_env\<lparr>te_load_verify := (\<lambda>_. True)\<rparr>) ''./c.crt'' ''./k.pem'' = Some t \<and> sc_certificate (tx_client (tl_tls t)) = None
     \<and> sc_fail_if_no_peer_cert (tx_server (tl_tls t))"
proof -
  obtain t where t: "node_transport (demo_tls_env\<lparr>te_load_verify := (\<lambda>_. True)\<rparr>) ''./c.crt'' ''./k.pem'' = Some t"
    by (simp add: node_transport_def new_transport_def new_tls_context_def demo_tls_env_def Let_def)
  from node_tls_one_sided [OF t] t show ?thesis by simp
qed

text \<open>The certificate that is announced is the one that was stored for the acceptor.\<close>

lemma announced_is_stored:
  assumes "new_key_manager (''./keystore_'' @ node_id) d = (km, d0)" "prepare_tls E node_id km d0 = Inr (Some (cp, kp, km2, d2))" "cp \<noteq> []"
    "calls_succeed (ke_io E)" "\<And>x. ke_write_x509 E x \<noteq> None"
  shows "cp = cert_file km (node_id @ ''_tls_cert'') \<and> kp = key_file km (node_id @ ''_tls'')
    \<and> (\<exists>x. announced_certificate cp d2 = ke_write_x509 E x \<and> x5_subject x = x5_issuer x)"
proof -
  note m = new_manager_fields [OF assms(1)]
  obtain key where key: "km_generate_key E Ed25519 (node_id @ ''_tls'') km d0 = Inr (Some key, d0)" "kp_key_id key = node_id @ ''_tls''"
    using assms(2,3) m(4) by (auto simp: prepare_tls_def km_generate_key_def Let_def split: sum.splits option.splits)
  obtain ok km' d' where st: "store_key E key km d0 = (ok, km', d')" using prod_cases3 by blast
  then have km': "km_cert_store_path km' = km_cert_store_path km" "km_passphrase km' = km_passphrase km" by (auto simp: store_key_def split: if_splits option.splits prod.splits)
  obtain cert where cert: "generate_certificate E key (node_certificate_config node_id) [] km' d' = Some (Some cert)"
    using assms(2,3) by (auto simp: prepare_tls_def key st split: option.splits)
  obtain pem where pem: "ke_write_x509 E (ct_certificate cert) = Some pem" using assms(5) by blast
  obtain ok2 d3 where sc: "atomic_store (ke_io E) (ke_pid E) False (cert_file km' (ct_key_id cert)) pem d' = (ok2, d3)" by fastforce
  have ok2: "ok2" using sc assms(4) by (auto simp: atomic_store_def calls_succeed_def Let_def)
  have run: "cp = ''./keystore_'' @ node_id @ ''/certs/'' @ ct_key_id cert @ ''.crt''" "kp = key_file km (node_id @ ''_tls'')" "d2 = d3"
    using assms(2) sc pem by (auto simp: prepare_tls_def key st cert store_certificate_def m km' encrypt_blob_def key_file_def)
  have id: "ct_key_id cert = node_id @ ''_tls_cert''" "x5_subject (ct_certificate cert) = x5_issuer (ct_certificate cert)"
    using cert key(2) by (auto simp: generate_certificate_def create_x509_cert_def Let_def split: option.splits if_splits)
  have "cp = cert_file km' (ct_key_id cert)" using run m km' by (simp add: cert_file_def)
  then have "announced_certificate cp d2 = ke_write_x509 E (ct_certificate cert)"
    using atomic_store_cases(1) [OF sc] ok2 assms(3) run(3) pem by (auto simp: announced_certificate_def)
  then show ?thesis using run id m km' by (auto simp: cert_file_def)
qed


section \<open>Ports and sockets\<close>

text \<open>
  The search for a port leaves no descriptor behind but the one it returns, which is bound to the first port that could be bound; when none could, it leaves none.
\<close>

theorem bind_ports_exact:
  "let (r, os) = bind_ports sock bound i n in
     (case r of
        None \<Rightarrow> open_ports fds os = Some fds \<and> (\<forall>j \<in> {i..<i + n}. sock j < 0 \<or> \<not> bound j)
      | Some (fd, p) \<Rightarrow> open_ports fds os = Some (fd # fds) \<and> fd = sock p \<and> 0 \<le> fd \<and> bound p \<and> p \<in> {i..<i + n} \<and> (\<forall>j \<in> {i..<p}. sock j < 0 \<or> \<not> bound j))"
proof (induction n arbitrary: i)
  case (Suc n)
  have range: "{i..<i + Suc n} = insert i {Suc i..<Suc i + n}" by auto
  have upto: "{i..<p} = insert i {Suc i..<p}" if "p \<in> {Suc i..<Suc i + n}" for p using that by auto
  show ?case
  proof (cases "0 \<le> sock i \<and> bound i")
    case True
    then show ?thesis by (simp add: Let_def)
  next
    case False
    obtain r os where rec: "bind_ports sock bound (Suc i) n = (r, os)" by fastforce
    have ih: "case r of None \<Rightarrow> open_ports fds os = Some fds \<and> (\<forall>j \<in> {Suc i..<Suc i + n}. sock j < 0 \<or> \<not> bound j)
      | Some (fd, p) \<Rightarrow> open_ports fds os = Some (fd # fds) \<and> fd = sock p \<and> 0 \<le> fd \<and> bound p \<and> p \<in> {Suc i..<Suc i + n} \<and> (\<forall>j \<in> {Suc i..<p}. sock j < 0 \<or> \<not> bound j)"
      using Suc.IH [of "Suc i"] by (simp add: rec)
    show ?thesis
    proof (cases r)
      case None
      then have "\<forall>j \<in> {i..<i + Suc n}. sock j < 0 \<or> \<not> bound j" using ih False unfolding range by auto
      then show ?thesis using ih None by (simp add: rec)
    next
      case (Some q)
      obtain fd p where q: "q = (fd, p)" by fastforce
      then show ?thesis using ih False Some upto [of p] by (simp add: rec)
    qed
  qed
qed simp

theorem bind_ports_exact_witness:
  "bind_ports (\<lambda>i. 5) (\<lambda>i. i = 1) 0 100 = (Some (5, 1), [PortOpened 5, PortClosed 5, PortOpened 5])
   \<and> open_ports [] [PortOpened 5, PortClosed 5, PortOpened 5] = Some [5]"
proof -
  have run: "bind_ports (\<lambda>i. 5) (\<lambda>i. i = 1) 0 (Suc (Suc 98)) = (Some (5, 1), [PortOpened 5, PortClosed 5, PortOpened 5])" by (simp only: bind_ports.simps) simp
  with bind_ports_exact [where sock = "\<lambda>i. 5" and bound = "\<lambda>i. i = 1" and i = 0 and n = "Suc (Suc 98)" and fds = "[]"] show ?thesis by simp
qed

text \<open>A listener that fails leaves its port in place, which the beacons then announce.\<close>

lemma failed_listen_announced:
  "bind_ports sock bound 0 100 = (Some (fd, i), os) \<Longrightarrow> tcp_listener sock bound False = (TCP_PORT_START + int i, None, os @ [PortClosed fd])"
  by (simp add: tcp_listener_def)

lemma close_sockets_once:
  "snd (close_sockets (fst (close_sockets fds))) = []" "set (snd (close_sockets (a, b, c, d))) = {x \<in> {a, b, c, d}. 0 \<le> x}"
  by (auto simp: close_sockets_def Let_def split: prod.split)

lemma tls_bind_exact:
  assumes "tls_bind io i n t = (port, t')" "tl_server_fd t < 0"
  shows "if \<exists>j \<in> {i..<i + n}. 0 \<le> bi_socket (io j) \<and> bi_setsockopt (io j) \<and> bi_bind (io j)
         then TLS_PORT_START + int i \<le> port \<and> port < TLS_PORT_START + int (i + n) \<and> 0 \<le> tl_server_fd t' \<and> tl_running t' else port = 0 \<and> tl_server_fd t' < 0"
  using assms
proof (induction n arbitrary: i t)
  case (Suc n)
  have range: "{i..<i + Suc n} = insert i {i + 1..<i + 1 + n}" by auto
  obtain ok u where b: "tl_bind (io i) ''0.0.0.0'' (word_of_int (TLS_PORT_START + int i)) t = (ok, u)" by fastforce
  then have ok: "ok \<longleftrightarrow> 0 \<le> bi_socket (io i) \<and> bi_setsockopt (io i) \<and> bi_bind (io i)" and u: "if ok then 0 \<le> tl_server_fd u \<and> tl_running u else tl_server_fd u < 0"
    by (auto simp: tl_bind_def Let_def tl_emit_def split: if_splits)
  show ?case
  proof (cases ok)
    case True
    then show ?thesis using Suc.prems(1) b ok u by (auto simp: range)
  next
    case False
    then have "tls_bind io (i + 1) n u = (port, t')" "tl_server_fd u < 0" using Suc.prems(1) b u by simp_all
    note Suc.IH [OF this]
    then show ?thesis using False ok unfolding range by (auto split: if_splits)
  qed
qed simp


section \<open>The reaper\<close>

text \<open>Every child is waited for once: nothing is lost between the queue and the reaped.\<close>

lemma reaper_conserves: "rp_pids (reaper_round r) = rp_pids r" "rp_pids (enqueue_reap pid r) = add_mset pid (rp_pids r)"
  by (cases "rp_queue r" rule: rev_cases; simp add: rp_pids_def reaper_round_def) (simp add: rp_pids_def enqueue_reap_def)

lemma reaper_drains: "rp_running r \<Longrightarrow> rp_queue ((reaper_round ^^ length (rp_queue r)) r) = []"
proof (induction "length (rp_queue r)" arbitrary: r)
  case (Suc n)
  have "rp_running (reaper_round r)" "length (rp_queue (reaper_round r)) = n" using Suc.hyps(2) Suc.prems by (auto simp: reaper_round_def)
  with Suc.hyps(1) [of "reaper_round r"] Suc.hyps(2) [symmetric] show ?case by (simp add: funpow_swap1)
qed simp

end
