(* ===== verification/AttackTools.thy ===== *)
theory AttackTools
  imports Mesh_Demo
begin

text \<open>
  The two attack tools of the repository, \<open>tools/attack_injector.cpp\<close> and \<open>tools/register_attacker.cpp\<close>, against the mesh node: what they send, and that
  a node that does not know the attacker gives them no influence on the consensus. Numbers a tool draws at random are arguments.
\<close>


section \<open>The injector\<close>

definition NODES :: "string list" where
  "NODES = [''ALPHA'', ''BRAVO'', ''CHARLIE'', ''DELTA'', ''ECHO'']"

definition make_evidence :: string where
  "make_evidence = base64_encode ''{\"e\":\"attack_flood\",\"ts\":0,\"entropy\":6.28}''"

text \<open>The 64 random bytes are the argument.\<close>

definition make_fake_sig :: "string \<Rightarrow> string" where
  "make_fake_sig raw = base64_encode raw"

text \<open>What the generators return in one turn of the loop.\<close>

record flood_draw =
  fl_seq :: "64 word"
  fl_view :: "64 word"
  fl_node :: "64 word"
  fl_raw :: string

definition flood_sender :: "int \<Rightarrow> nat \<Rightarrow> string \<Rightarrow> string" where
  "flood_sender thread_id i attacker_id =
     (if attacker_id = [] then ''STRESS_T'' @ int_str thread_id @ ''_M'' @ int_str (int i) else attacker_id)"

definition flood_target :: "string \<Rightarrow> 64 word \<Rightarrow> string" where
  "flood_target target_node r =
     (if target_node = [] \<or> target_node = ''RANDOM'' then NODES ! (unat (r mod 5)) else c_string target_node)"

definition flood_message :: "string \<Rightarrow> string \<Rightarrow> flood_draw \<Rightarrow> string" where
  "flood_message sender tgt r =
     ''VOTE|PRE_PREPARE|'' @ sender @ ''|'' @ u64_str (fl_seq r) @ ''|'' @ int_str (uint (fl_view r mod 1000)) @ ''|'' @ tgt @ ''|'' @ make_evidence
     @ ''|deadbeef0123456789abcdefdeadbeef0123456789abcdefdeadbeef0123456789abcdef|'' @ make_fake_sig (fl_raw r)"

text \<open>The datagrams of one thread; \<open>sock_ok\<close> says whether it has a socket. The pauses between them are left out.\<close>

definition attack_thread :: "bool \<Rightarrow> int \<Rightarrow> int \<Rightarrow> int \<Rightarrow> string \<Rightarrow> string \<Rightarrow> (nat \<Rightarrow> flood_draw) \<Rightarrow> string list" where
  "attack_thread sock_ok thread_id duration_s rate target_node attacker_id draw =
     (if \<not> sock_ok then []
      else map (\<lambda>i. flood_message (flood_sender thread_id i attacker_id) (flood_target target_node (fl_node (draw i))) (draw i)) [0..<nat (rate * duration_s)])"


section \<open>The registration\<close>

text \<open>The line for the environment of the nodes, and the announcement.\<close>

definition register_line :: "openssl \<Rightarrow> pkey \<Rightarrow> string \<Rightarrow> string" where
  "register_line L priv attacker = ''NEURO_PEER_KEYS='' @ attacker @ '':'' @ base64_encode (get_pem_from_pubkey L priv)"

definition register_announce :: "openssl \<Rightarrow> pkey \<Rightarrow> string \<Rightarrow> string" where
  "register_announce L priv attacker =
     (let pub_pem = get_pem_from_pubkey L priv; blob = attacker @ ''|'' @ pub_pem; sig = sign_payload L priv blob
      in ''ANNOUNCE|'' @ attacker @ ''|'' @ pub_pem @ ''|'' @ base64_encode sig)"


section \<open>Vocabulary of the statements\<close>

text \<open>A text that is one field of a message: an argument of a process has no zero byte.\<close>

definition field_text :: "string \<Rightarrow> bool" where
  "field_text s \<longleftrightarrow> CHR ''|'' \<notin> set s \<and> CHR 0x00 \<notin> set s"

text \<open>Datagrams from wherever, each with what the system shows while it is processed.\<close>

definition receive_all :: "(mesh_env \<times> string \<times> string) list \<Rightarrow> mesh_node \<Rightarrow> mesh_node" where
  "receive_all = fold (\<lambda>(E, ip, buf). consensus_datagram E buf ip)"

definition demo_draw :: "nat \<Rightarrow> flood_draw" where
  "demo_draw i = \<lparr>fl_seq = of_nat i, fl_view = 7, fl_node = 3, fl_raw = ''x''\<rparr>"


section \<open>Forged votes\<close>

lemma read_vote_sender: "read_vote k tokens = Some msg \<Longrightarrow> sender_id msg = tokens ! 2"
  unfolding read_vote_def Let_def by (simp split: if_split_asm option.split_asm prod.split_asm) (drule arg_cong [where f = sender_id], simp)

lemma cast_vote_unknown:
  assumes "m_peer_public_keys (mn_pbft s) (sender_id msg) = None"
  shows "cast_vote E msg s = (IDLE, s)"
  using assms by (simp add: cast_vote_def verify_message_def)

text \<open>
  What a vote can do whose sender has no key: it is read or not, but it neither reaches the consensus machine nor causes any output. It is noted as an
  attack on its target all the same.
\<close>

lemma unknown_sender_vote:
  assumes "tokens ! 2 = sender" "m_peer_public_keys (mn_pbft s) sender = None"
  shows "handle_vote E tokens s = s \<or> handle_vote E tokens s = s\<lparr>mn_last_targeted_at := env_now E\<rparr>"
proof (cases "read_vote (mn_max_evidence_size s) tokens")
  case (Some msg)
  let ?t = "s\<lparr>mn_last_targeted_at := env_now E\<rparr>"
  have "sender_id msg = sender" using read_vote_sender [OF Some] assms(1) by simp
  then have "cast_vote E msg s = (IDLE, s)" "cast_vote E msg ?t = (IDLE, ?t)" using assms(2) by (simp_all add: cast_vote_unknown)
  then show ?thesis unfolding handle_vote_def Some by (cases "target_id msg = mn_node_id s") (simp_all add: Let_def)
qed (simp add: handle_vote_def)

lemma forged_vote:
  assumes "\<And>key. \<not> verify_signature (env_ssl E) key (signed_blob msg) (signature msg)"
  shows "cast_vote E msg s \<in> {(IDLE, s), (IDLE, s\<lparr>mn_pbft := record_failure (env_now E) (sender_id msg) (mn_pbft s)\<rparr>)}"
  by (cases "m_peer_public_keys (mn_pbft s) (sender_id msg)") (simp_all add: cast_vote_def verify_message_def assms)

lemma nodes_field: "field_text (NODES ! (unat (r mod 5 :: 64 word)))"
proof -
  have "unat (r mod 5 :: 64 word) < 5" by (simp add: unat_mod)
  moreover have "list_all field_text NODES" by (simp add: NODES_def field_text_def)
  ultimately show ?thesis by (simp add: list_all_length NODES_def)
qed

lemma number_field: "field_text (int_str i)" "field_text (u64_str w)"
  unfolding field_text_def using int_str_no_sep [of "CHR 0x00" i] u64_str_no_sep [of "CHR 0x00" w] bar_notin by (simp_all add: is_digit_def)

lemma base64_field: "field_text (base64_encode s)"
  using base64_encode_alphabet [of s] by (auto simp: field_text_def b64_chars_def)

lemma evidence_field: "field_text make_evidence"
  unfolding make_evidence_def by (rule base64_field)

lemma flood_tokens:
  assumes "field_text sender" "field_text tgt" "fl_raw r \<noteq> []"
  shows "c_string (flood_message sender tgt r) = flood_message sender tgt r"
    "\<exists>ts. split_string (flood_message sender tgt r) (CHR ''|'') = ''VOTE'' # ''PRE_PREPARE'' # sender # ts"
proof -
  define seq view ev sig where "seq = u64_str (fl_seq r)" and "view = int_str (uint (fl_view r mod 1000))" and "ev = make_evidence" and "sig = make_fake_sig (fl_raw r)"
  let ?fields = "[''VOTE'', ''PRE_PREPARE'', sender, seq, view, tgt, ev,
    ''deadbeef0123456789abcdefdeadbeef0123456789abcdefdeadbeef0123456789abcdef'', sig]"
  have f: "field_text seq" "field_text view" "field_text ev" "field_text sig"
    using number_field base64_field evidence_field by (simp_all only: seq_def view_def ev_def sig_def make_fake_sig_def)
  have sig: "sig \<noteq> []" using assms(3) by (simp add: sig_def make_fake_sig_def)
  have m: "flood_message sender tgt r = join_fields (CHR ''|'') ?fields"
    by (simp only: flood_message_def seq_def [symmetric] view_def [symmetric] ev_def [symmetric] sig_def [symmetric]) simp
  show "c_string (flood_message sender tgt r) = flood_message sender tgt r"
    unfolding m by (rule c_string_id) (use f assms in \<open>simp add: field_text_def\<close>)
  have "split_string (flood_message sender tgt r) (CHR ''|'') = ?fields"
    by (rule split_string_join [OF m]) (use f assms sig in \<open>simp_all add: field_text_def\<close>)
  then show "\<exists>ts. split_string (flood_message sender tgt r) (CHR ''|'') = ''VOTE'' # ''PRE_PREPARE'' # sender # ts" by blast
qed

lemma flood_sender_field: "field_text attacker \<Longrightarrow> field_text (flood_sender t i attacker)"
  using number_field by (simp add: flood_sender_def field_text_def)

lemma flood_target_field: "field_text tgt \<Longrightarrow> field_text (flood_target tgt r)"
  using nodes_field by (auto simp: flood_target_def field_text_def c_string_id)

lemma vote_datagram:
  assumes "c_string buf = buf" "split_string buf (CHR ''|'') = ''VOTE'' # ''PRE_PREPARE'' # sender # ts"
    "m_peer_public_keys (mn_pbft s) sender = None"
  shows "\<exists>pm ta. consensus_datagram E buf ip s = s\<lparr>mn_peers := pm, mn_last_targeted_at := ta\<rparr> \<and> m_peers pm = m_peers (mn_peers s)"
proof -
  obtain ok pm where rl: "pm_check_rate_limit (env_ip_ord E) (env_now E) ip (mn_peers s) = (ok, pm)" by fastforce
  then have pm: "m_peers pm = m_peers (mn_peers s)" by (auto simp: pm_check_rate_limit_def Let_def split: if_splits)
  let ?s = "s\<lparr>mn_peers := pm\<rparr>" and ?tokens = "''VOTE'' # ''PRE_PREPARE'' # sender # ts"
  have "handle_vote E ?tokens ?s = ?s \<or> handle_vote E ?tokens ?s = ?s\<lparr>mn_last_targeted_at := env_now E\<rparr>"
    by (rule unknown_sender_vote [where sender = sender]) (simp_all add: assms(3))
  then have "process_message E buf ip s \<in> {?s, ?s\<lparr>mn_last_targeted_at := env_now E\<rparr>}"
    by (auto simp: process_message_def rl Let_def assms(2))
  moreover have "buf \<noteq> []" using assms(2) by (auto simp: split_string_def)
  ultimately consider "consensus_datagram E buf ip s = s\<lparr>mn_peers := pm, mn_last_targeted_at := mn_last_targeted_at s\<rparr>"
    | "consensus_datagram E buf ip s = s\<lparr>mn_peers := pm, mn_last_targeted_at := env_now E\<rparr>"
    by (auto simp: consensus_datagram_def assms(1))
  then show ?thesis by cases (use pm in blast)+
qed

text \<open>What the flood leaves as it is.\<close>

lemma flood_step:
  assumes "buf \<in> set (attack_thread ok t duration rate tgt attacker draw)" "field_text attacker" "field_text tgt" "\<forall>i. fl_raw (draw i) \<noteq> []"
    "\<forall>i. m_peer_public_keys (mn_pbft s) (flood_sender t i attacker) = None"
  shows "\<exists>pm ta. consensus_datagram E buf ip s = s\<lparr>mn_peers := pm, mn_last_targeted_at := ta\<rparr> \<and> m_peers pm = m_peers (mn_peers s)"
proof -
  obtain i where buf: "buf = flood_message (flood_sender t i attacker) (flood_target tgt (fl_node (draw i))) (draw i)"
    using assms(1) by (auto simp: attack_thread_def split: if_splits)
  note tokens = flood_tokens [OF flood_sender_field [OF assms(2)] flood_target_field [OF assms(3)] assms(4) [rule_format]]
  obtain ts where "split_string buf (CHR ''|'') = ''VOTE'' # ''PRE_PREPARE'' # flood_sender t i attacker # ts" using tokens(2) unfolding buf by blast
  from vote_datagram [OF _ this assms(5) [rule_format]] tokens(1) show ?thesis unfolding buf .
qed

text \<open>
  Whatever the injector draws, and whichever of its datagrams arrive, in whatever order, how often and from which addresses, a node that has no key of the senders keeps its
  consensus state, its table of peers, its journal and its proof chain, and does and sends nothing.
\<close>

lemma forged_flood_harmless:
  assumes "field_text attacker" "field_text tgt" "\<forall>i. fl_raw (draw i) \<noteq> []" "\<forall>i. m_peer_public_keys (mn_pbft s) (flood_sender t i attacker) = None"
    "\<forall>(E, ip, buf) \<in> set ds. buf \<in> set (attack_thread ok t duration rate tgt attacker draw)"
  shows "mn_pbft (receive_all ds s) = mn_pbft s \<and> mn_out (receive_all ds s) = mn_out s \<and> m_peers (mn_peers (receive_all ds s)) = m_peers (mn_peers s)
    \<and> mn_journal (receive_all ds s) = mn_journal s \<and> mn_proof_chain (receive_all ds s) = mn_proof_chain s"
  using assms(4,5)
proof (induction ds arbitrary: s)
  case (Cons d ds)
  obtain E ip buf where d: "d = (E, ip, buf)" by (cases d)
  have "buf \<in> set (attack_thread ok t duration rate tgt attacker draw)" using Cons.prems(2) d by simp
  then obtain pm ta where s': "consensus_datagram E buf ip s = s\<lparr>mn_peers := pm, mn_last_targeted_at := ta\<rparr>" "m_peers pm = m_peers (mn_peers s)"
    using flood_step [OF _ assms(1-3) Cons.prems(1)] by blast
  have "receive_all (d # ds) s = receive_all ds (s\<lparr>mn_peers := pm, mn_last_targeted_at := ta\<rparr>)" by (simp add: receive_all_def d s'(1))
  then show ?case using Cons.IH [of "s\<lparr>mn_peers := pm, mn_last_targeted_at := ta\<rparr>"] Cons.prems s'(2) by simp
qed (simp add: receive_all_def)

lemma demo_keys: "x \<noteq> ''A'' \<Longrightarrow> m_peer_public_keys (mn_pbft demo_node) x = None"
  by (simp add: demo_node_def new_mesh_node_def peer_keys_def Let_def register_peer_key_def new_pbft_def set_private_key_def set_my_identity_def)

lemma attack_thread_sends:
  "i < nat (rate * duration) \<Longrightarrow>
   flood_message (flood_sender t i attacker) (flood_target tgt (fl_node (draw i))) (draw i) \<in> set (attack_thread True t duration rate tgt attacker draw)"
  by (auto simp: attack_thread_def)

text \<open>The forged vote is noted all the same: for twelve seconds the node takes itself for a target.\<close>

lemma forged_vote_marks_target:
  assumes "read_vote (mn_max_evidence_size s) tokens = Some msg" "sender_id msg \<noteq> mn_node_id s" "target_id msg = mn_node_id s"
    "m_peer_public_keys (mn_pbft s) (sender_id msg) = None" "env_now E \<noteq> 0"
  shows "is_targeted_recently (env_now E) (handle_vote E tokens s)"
  using assms by (simp add: handle_vote_def cast_vote_unknown is_targeted_recently_def Let_def)


section \<open>An attacker who registers\<close>

text \<open>The line the tool prints is read by the nodes as the key it generated.\<close>

lemma colon_found: "CHR '':'' \<notin> set a \<Longrightarrow> str_find '':'' (a @ CHR '':'' # b) = Some (length a)"
  by (induction a) (auto simp: starts_with_def)

lemma register_line_read:
  assumes "CHR '':'' \<notin> set attacker" "CHR '','' \<notin> set attacker" "get_pem_from_pubkey L priv \<noteq> []" "\<not> str_contains ''-----BEGIN'' (base64_encode (get_pem_from_pubkey L priv))"
  shows "peer_keys (Some (drop (length ''NEURO_PEER_KEYS='') (register_line L priv attacker))) = [(attacker, get_pem_from_pubkey L priv)]"
proof -
  let ?b = "base64_encode (get_pem_from_pubkey L priv)" and ?e = "attacker @ '':'' @ base64_encode (get_pem_from_pubkey L priv)"
  have "CHR '','' \<notin> set ?b" using base64_encode_alphabet [of "get_pem_from_pubkey L priv"] by (auto simp: b64_chars_def)
  then have "split_string ?e (CHR '','') = [?e]" by (intro split_string_join) (use assms(2) in auto)
  moreover have "peer_key_entry ?e = Some (attacker, get_pem_from_pubkey L priv)"
    using colon_found [OF assms(1), of ?b] assms(4) base64_decode_encode by (simp add: peer_key_entry_def)
  ultimately show ?thesis by (simp add: peer_keys_def register_line_def List.map_filter_def)
qed

lemma register_tokens:
  assumes "field_text attacker" "field_text (get_pem_from_pubkey L priv)" "sign_payload L priv (attacker @ ''|'' @ get_pem_from_pubkey L priv) \<noteq> []"
  shows "c_string (register_announce L priv attacker) = register_announce L priv attacker"
    "split_string (register_announce L priv attacker) (CHR ''|'')
     = [''ANNOUNCE'', attacker, get_pem_from_pubkey L priv, base64_encode (sign_payload L priv (attacker @ ''|'' @ get_pem_from_pubkey L priv))]"
proof -
  define pem sig where "pem = get_pem_from_pubkey L priv" and "sig = base64_encode (sign_payload L priv (attacker @ ''|'' @ pem))"
  have f: "field_text pem" "field_text sig" "sig \<noteq> []" using assms base64_field by (simp_all add: pem_def sig_def)
  have m: "register_announce L priv attacker = join_fields (CHR ''|'') [''ANNOUNCE'', attacker, pem, sig]"
    by (simp add: register_announce_def pem_def sig_def Let_def)
  show "c_string (register_announce L priv attacker) = register_announce L priv attacker"
    unfolding m by (rule c_string_id) (use f assms in \<open>simp add: field_text_def\<close>)
  have "split_string (register_announce L priv attacker) (CHR ''|'') = [''ANNOUNCE'', attacker, pem, sig]"
    by (rule split_string_join [OF m]) (use f assms in \<open>simp_all add: field_text_def\<close>)
  then show "split_string (register_announce L priv attacker) (CHR ''|'')
     = [''ANNOUNCE'', attacker, get_pem_from_pubkey L priv, base64_encode (sign_payload L priv (attacker @ ''|'' @ get_pem_from_pubkey L priv))]"
    by (simp add: pem_def sig_def)
qed

lemma one_path_only: "m_peers pm peer = None \<Longrightarrow>
    \<not> dual_confirmed (fst (confirm_path peer PATH_ANNOUNCE pem (snd (add_peer now peer ip tcp tls pem (add_known_ip peer pm)))))"
  by (simp add: confirm_path_def confirm_entry_def mark_path_def both_paths_def add_peer_def add_known_ip_def default_peer_def pm_consts Let_def split_beta split: option.split)

text \<open>An announcement alone registers nobody.\<close>

lemma announce_unknown:
  assumes "tokens ! 1 = peer" "m_peers (mn_peers s) peer = None"
  shows "mn_pbft (handle_announce E tokens ip s) = mn_pbft s \<and> (Mitigate e t \<in> set (mn_out (handle_announce E tokens ip s)) \<longrightarrow> Mitigate e t \<in> set (mn_out s))"
proof (cases "read_announce (env_ssl E) (mn_node_id s) tokens")
  case (Some x)
  obtain p pem where x: "x = (p, pem)" by fastforce
  have p: "p = peer" using Some assms(1) by (simp add: read_announce_def Let_def x split: if_split_asm option.split_asm)
  obtain r pm where c: "confirm_path peer PATH_ANNOUNCE pem (snd (add_peer (env_now E) peer ip 0 0 pem (add_known_ip peer (mn_peers s)))) = (r, pm)" by fastforce
  then have "\<not> dual_confirmed r" using one_path_only [OF assms(2), of pem "env_now E" ip 0 0] by simp
  then show ?thesis
    by (simp add: handle_announce_def Some x p c Let_def announce_identity_def send_udp_broadcast_def emit_def)
qed (simp add: handle_announce_def)

lemma register_step:
  assumes "field_text attacker" "field_text (get_pem_from_pubkey L priv)" "sign_payload L priv (attacker @ ''|'' @ get_pem_from_pubkey L priv) \<noteq> []"
    "m_peers (mn_peers s) attacker = None"
  shows "mn_pbft (consensus_datagram E (register_announce L priv attacker) ip s) = mn_pbft s
    \<and> (Mitigate e t \<in> set (mn_out (consensus_datagram E (register_announce L priv attacker) ip s)) \<longrightarrow> Mitigate e t \<in> set (mn_out s))"
proof -
  obtain ok pm where rl: "pm_check_rate_limit (env_ip_ord E) (env_now E) ip (mn_peers s) = (ok, pm)" by fastforce
  then have pm: "m_peers pm attacker = None" using assms(4) by (auto simp: pm_check_rate_limit_def Let_def split: if_splits)
  let ?m = "register_announce L priv attacker"
  have "process_message E ?m ip s \<in> {s\<lparr>mn_peers := pm\<rparr>, handle_announce E (split_string ?m (CHR ''|'')) ip (s\<lparr>mn_peers := pm\<rparr>)}"
    by (simp add: process_message_def rl Let_def register_tokens(2) [OF assms(1-3)])
  moreover have "split_string ?m (CHR ''|'') ! 1 = attacker" by (simp add: register_tokens(2) [OF assms(1-3)])
  ultimately show ?thesis using announce_unknown [of _ attacker "s\<lparr>mn_peers := pm\<rparr>"] pm
    by (auto simp: consensus_datagram_def register_tokens(1) [OF assms(1-3)])
qed

text \<open>
  C35. The attack tools get nothing from a node that was not told to trust the attacker: when the registration tool announces its key and the injector then floods the node with votes
  under that name, whatever it draws and whichever of its datagrams arrive, in whatever order, how often and from which addresses, the consensus state of the node is what it was, and the
  node mitigates nothing on their account.
\<close>

theorem attack_tools_harmless:
  assumes "m_peers (mn_peers s) attacker = None" "m_peer_public_keys (mn_pbft s) attacker = None" "attacker \<noteq> []" "field_text attacker" "field_text tgt"
    "field_text (get_pem_from_pubkey L priv)" "sign_payload L priv (attacker @ ''|'' @ get_pem_from_pubkey L priv) \<noteq> []" "\<forall>i. fl_raw (draw i) \<noteq> []"
    "\<forall>(E, ip, buf) \<in> set ds. buf \<in> set (attack_thread ok thread duration rate tgt attacker draw)"
    "s' = receive_all ds (consensus_datagram E (register_announce L priv attacker) ip s)"
  shows "mn_pbft s' = mn_pbft s \<and> (\<forall>e t. Mitigate e t \<in> set (mn_out s') \<longrightarrow> Mitigate e t \<in> set (mn_out s))"
proof -
  let ?r = "consensus_datagram E (register_announce L priv attacker) ip s"
  note reg = register_step [OF assms(4,6,7,1), of E ip]
  have "\<forall>i. m_peer_public_keys (mn_pbft ?r) (flood_sender thread i attacker) = None" using reg assms(2,3) by (simp add: flood_sender_def)
  from forged_flood_harmless [OF assms(4,5,8) this assms(9)] show ?thesis using reg unfolding assms(10) by simp
qed

theorem attack_tools_harmless_witness:
  "\<exists>buf. buf \<in> set (attack_thread True 0 5 50 ''RANDOM'' ''M'' demo_draw)
     \<and> mn_pbft (receive_all [(demo_env, ''10.0.0.9'', buf), (demo_env, ''10.0.0.8'', buf)] (consensus_datagram demo_env (register_announce tiny_ssl demo_pem ''M'') ''10.0.0.9'' demo_node))
       = mn_pbft demo_node"
proof -
  define buf where "buf = flood_message (flood_sender 0 0 ''M'') (flood_target ''RANDOM'' (fl_node (demo_draw 0))) (demo_draw 0)"
  have buf: "buf \<in> set (attack_thread True 0 5 50 ''RANDOM'' ''M'' demo_draw)" unfolding buf_def by (rule attack_thread_sends) simp
  let ?ds = "[(demo_env, ''10.0.0.9'', buf), (demo_env, ''10.0.0.8'', buf)]"
  have "mn_pbft (receive_all ?ds (consensus_datagram demo_env (register_announce tiny_ssl demo_pem ''M'') ''10.0.0.9'' demo_node)) = mn_pbft demo_node"
  proof (rule attack_tools_harmless [THEN conjunct1])
    show "\<forall>(E, ip, b) \<in> set ?ds. b \<in> set (attack_thread True 0 5 50 ''RANDOM'' ''M'' demo_draw)" using buf by (simp only: set_simps) blast
    show "m_peers (mn_peers demo_node) ''M'' = None" by (simp add: demo_node_def new_mesh_node_def peer_keys_def Let_def new_peer_manager_def)
    show "m_peer_public_keys (mn_pbft demo_node) ''M'' = None" by (simp add: demo_keys)
  qed (simp_all add: field_text_def demo_draw_def get_pem_from_pubkey_def sign_payload_def tiny_ssl_def demo_pem_def)
  with buf show ?thesis by blast
qed

end
