(* ===== verification/Spec2Isabelle.thy ===== *)
theory Spec2Isabelle
  imports PBFT_Rate Daemon Webhook StatusExport Observability CertAuthority Transport TelemetryBridge AttackSimulator ControlPlane Operations NodeSetup AttackTools
begin

text \<open>
  Neuro-Mesh is a mesh of security agents. Each agent watches its host with programs in the kernel, scores what it sees, and proposes
  counter-measures; the agents decide on a proposal by a Byzantine fault tolerant vote and only then block addresses or end
  processes. This development models the agent, the processes around it and its attack tools, and proves what they guarantee.

  \<^bold>\<open>The program and how its parts interact.\<close> One process (\<open>main.cpp\<close>) owns a mesh node, a policy enforcer with a mitigation
  engine, the sensor agent with its inference engine, a control socket and a heartbeat. The mesh node (\<open>consensus/MeshNode.cpp\<close>)
  receives votes, announcements and beacons from the network, keeps its peers in the peer manager (\<open>consensus/PeerManager.cpp\<close>), registers with the consensus
  machine (\<open>consensus/PBFT.hpp\<close>) the peers both discovery paths confirm, feeds it votes, and hands the target of an executed round to the mitigation
  engine (\<open>enforcer/MitigationEngine.cpp\<close>), which acts through the enforcer (\<open>enforcer/PolicyEnforcer.cpp\<close>). Decisions go to
  the journal (\<open>common/StateJournal.hpp\<close>), the proof chain (\<open>crypto/ProofChain.hpp\<close>), a webhook and a sandboxed telemetry child.

  \<^bold>\<open>The model.\<close> A class is a record, a member function a definition that takes the record and returns it changed, an enumeration a datatype. What a
  component asks the system, OpenSSL, libbpf, the clock or a random source is an argument: a record of results or a function; what it
  does to the outside is a list of effects in its state. Exceptions, null pointers and undefined behaviour are the values \<open>None\<close> or
  \<open>Inl\<close>. Threads become handlers that run one at a time, as the locks of the code make them, except where the interleaving is the point (two writers of the
  status file). Strings are lists of bytes, time is in nanoseconds, machine integers are words or integers with the wrap-around written out,
  floating-point numbers are rationals with explicit rounding, a \<open>std::map\<close> is an ordered association list, an unordered map a map whose order of
  iteration, where it matters, is an argument.

  \<^bold>\<open>Shared theories.\<close>
  \<^item> \<open>Prelude\<close>, \<open>Cpp\<close>, \<open>Net\<close>, \<open>Json\<close>, \<open>Float_Text\<close>, \<open>Result_Type\<close>: the library the components use - ordered maps, printing and
    reading of numbers and addresses (\<open>net/NetUtil.hpp\<close>), escaping, doubles as text, \<open>common/Result.hpp\<close>. The locale \<open>escaper\<close> is the contract of the three JSON escapers.
  \<^item> \<open>Rate_Limit\<close>: the contract of a rate limiter, as a locale; interpreted on the limiters of the consensus machine, the peer manager,
    the control socket, the metrics endpoint and the TLS acceptor.

  \<^bold>\<open>Consensus.\<close>
  \<^item> \<open>PBFT\<close> models \<open>consensus/PBFT.hpp\<close> operation by operation; \<open>PBFT_Inv\<close> its invariant; \<open>PBFT_Rounds\<close> the abstract stage machine and the locale
    \<open>quorum_system\<close>; \<open>PBFT_Safety\<close> the guarantees: executed rounds have a quorum, two quorums share an honest member in a mesh of 3f+1
    nodes, every counted vote has a message, bans are permanent, replays are ignored, and \<open>advance_state\<close> refines the stage machine.
    \<open>PBFT_Rate\<close> bounds the messages of a sender in a window. \<open>PBFT_Demo\<close> is a mesh for the instances.
  \<^item> \<open>PeerManager\<close>: trust on first use, dual-path confirmation, rate limits by address.
  \<^item> \<open>MeshWire\<close>, \<open>MeshNode\<close>, \<open>Mesh_Demo\<close>, \<open>MeshSafety\<close>, \<open>Webhook\<close>, \<open>NodeSetup\<close>: \<open>consensus/MeshNode.cpp\<close> - the texts it exchanges and that they read back, the
    handlers, what every handler does to the parts it connects (the locale \<open>handlers\<close> and its extensions: mitigation needs a quorum, a key needs both paths, the node only
    drives the consensus machine through its interface), the alert, and the start: identity, certificate, ports and sockets.

  \<^bold>\<open>Acting.\<close>
  \<^item> \<open>Enforcer\<close> (\<open>enforcer/PolicyEnforcer.cpp\<close>) and \<open>Mitigation\<close> (\<open>enforcer/MitigationEngine.cpp\<close>): every isolation is explained, local addresses are never dropped, every
    response is justified by the evidence. The locale \<open>responding\<close> states once what a response may do.
  \<^item> \<open>Sensor\<close>: \<open>kernel/sensor.bpf.c\<close>, \<open>cell/NodeAgent.cpp\<close>, \<open>cell/InferenceEngine.cpp\<close>; a block of the enforcer drops exactly the packets of the address.
  \<^item> \<open>Daemon\<close>: \<open>main.cpp\<close>. The locale \<open>enforcing_daemon\<close> lifts facts on responses to whole runs: nothing is enforced without a committed round, a node never cuts itself off, the
    control socket obeys only a client with the token.

  \<^bold>\<open>Cryptography and transport.\<close>
  \<^item> \<open>Base64\<close>, \<open>Crypto\<close>, \<open>ProofChain\<close>, \<open>StateJournal\<close>: \<open>common/Base64.hpp\<close>, \<open>crypto/CryptoCore.cpp\<close>, \<open>crypto/ProofChain.hpp\<close>, \<open>common/StateJournal.hpp\<close>. Membership
    proofs are sound up to a collision of the digest; a journal goes on after a restart where it stopped.
  \<^item> \<open>KeyManager\<close>, \<open>CertAuthority\<close>: \<open>crypto/KeyManager.cpp\<close>, \<open>crypto/CertificateAuthority.cpp\<close>. A stored key is loaded back or the store is unchanged; a revocation list is exact.
  \<^item> \<open>Transport\<close>: \<open>net/TransportLayer.cpp\<close>. Descriptors and sessions are owned exactly; a connection is returned only after verification.

  \<^bold>\<open>Observing.\<close>
  \<^item> \<open>AuditLogger\<close>, \<open>StatusExport\<close>, \<open>Metrics\<close>, \<open>Observability\<close>, \<open>TelemetryBridge\<close>: the files of \<open>telemetry/\<close>. The status file is replaced as a whole, the exposition has exactly its
    lines, the audit log stays linked, telemetry reaches the subscribers unchanged and in order, the sandbox is complete and the child is reaped.
  \<^item> \<open>ControlPlane\<close>, \<open>Operations\<close>: the Python processes of \<open>orchestration/\<close>, \<open>kernel/neuro_bpf.c\<close> and \<open>tools/inject_event.cpp\<close>, and how they and the nodes understand each other.
  \<^item> \<open>AttackSimulator\<close>, \<open>AttackTools\<close>: \<open>attacks/AttackSimulator.cpp\<close>, \<open>tools/attack_injector.cpp\<close> and \<open>tools/register_attacker.cpp\<close>; the attack tools get nothing from a node that was
    not told to trust the attacker.

  \<^bold>\<open>Bounds and loops.\<close> Every loop is a total function: recursion on the data, on the number of attempts the code allows (a hundred ports, thirty looks at a child) or with a measure.
  Loops over results of the system run along a list or a function of these results; where the code can wait forever (the handshake of an
  accepted connection) the model returns \<open>None\<close> exactly then, and the statements say when it returns. No fuel is used that the code does not have.

  \<^bold>\<open>Hypotheses.\<close> Properties that rely on code outside of the repository name what they need of it - that a written key is read back, that an authenticated
  decryption undoes the encryption, that a JSON reader refuses a text that is no document - and are instantiated at a concrete function. Collision resistance is never assumed:
  statements end in a collision instead.

  \<^bold>\<open>Not modelled.\<close> The generated skeleton \<open>kernel/sensor.skel.h\<close> (an image of the compiled kernel program as bytes); \<open>orchestration/bridge_api.py\<close>, a relay that hands
  every datagram to a library; the page \<open>dashboard/index.html\<close>; the other tools, tests, benchmarks, training scripts and deployment files, which are around the program;
  of the modelled files the console messages, the setters of callbacks, the options and set-up calls of sockets, the starting and joining of threads, the pauses, and
  the JSON text of the answers of the Python servers. Memory order and data races are outside of the model.
\<close>

end
